theory Spec2Isabelle
  imports Complex_Main
begin

section \<open>The vector library used by the rigid-body box test\<close>

text \<open>
  \<^verbatim>\<open>boxes.cc\<close> computes with C++ \<^verbatim>\<open>double\<close> and with the vector, matrix, quaternion
  and statistics classes of the simulator's math library. Here a \<^verbatim>\<open>double\<close> is a
  \<^typ>\<open>real\<close>: the development is about the formulas the test evaluates and the
  order of its checks, not about rounding. The operators below are the ones of
  \<^verbatim>\<open>Vector3d\<close> that \<^verbatim>\<open>boxes.cc\<close> applies: \<^verbatim>\<open>+\<close>, \<^verbatim>\<open>-\<close>, \<^verbatim>\<open>*\<close> and \<^verbatim>\<open>/\<close> by a scalar, the
  componentwise \<^verbatim>\<open>*\<close> of two vectors and \<^verbatim>\<open>Length()\<close>.
\<close>

datatype vec = Vec (X: real) (Y: real) (Z: real)

definition Zero :: vec where
  "Zero = Vec 0 0 0"

definition vadd :: "vec \<Rightarrow> vec \<Rightarrow> vec" where
  "vadd a b = Vec (X a + X b) (Y a + Y b) (Z a + Z b)"

definition vsub :: "vec \<Rightarrow> vec \<Rightarrow> vec" where
  "vsub a b = Vec (X a - X b) (Y a - Y b) (Z a - Z b)"

definition vscale :: "vec \<Rightarrow> real \<Rightarrow> vec" where
  "vscale a t = Vec (X a * t) (Y a * t) (Z a * t)"

definition sscale :: "real \<Rightarrow> vec \<Rightarrow> vec" where
  "sscale t a = Vec (t * X a) (t * Y a) (t * Z a)"

definition vdiv :: "vec \<Rightarrow> real \<Rightarrow> vec" where
  "vdiv a t = Vec (X a / t) (Y a / t) (Z a / t)"

definition vmul :: "vec \<Rightarrow> vec \<Rightarrow> vec" where
  "vmul a b = Vec (X a * X b) (Y a * Y b) (Z a * Z b)"

definition dot :: "vec \<Rightarrow> vec \<Rightarrow> real" where
  "dot a b = X a * X b + Y a * Y b + Z a * Z b"

definition Length :: "vec \<Rightarrow> real" where
  "Length a = sqrt (X a * X a + Y a * Y a + Z a * Z a)"

datatype mat3 = Matrix3d real real real real real real real real real

section \<open>The constants of the test\<close>

text \<open>Lines 53 to 64: the box, its mass and the expected inertia matrix.\<close>

definition dx :: real where "dx = 0.1"
definition dy :: real where "dy = 0.4"
definition dz :: real where "dz = 0.9"
definition mass :: real where "mass = 10.0"

definition Ixx :: real where "Ixx = 0.80833333"
definition Iyy :: real where "Iyy = 0.68333333"
definition Izz :: real where "Izz = 0.14166667"

definition I0 :: mat3 where
  "I0 = Matrix3d Ixx 0.0 0.0
                 0.0 Iyy 0.0
                 0.0 0.0 Izz"

text \<open>
  Lines 90 to 106: the initial velocities and the expected initial energy of the two
  scenarios, selected by the flag \<^verbatim>\<open>_complex\<close>.
\<close>

definition v0 :: "bool \<Rightarrow> vec" where
  "v0 complex = (if \<not> complex then Vec (-0.9) 0.4 0.1 else Vec (-2.0) 2.0 8.0)"

definition w0 :: "bool \<Rightarrow> vec" where
  "w0 complex = (if \<not> complex then Vec 0.5 0 0 else Vec 0.1 5.0 0.1)"

definition E0 :: "bool \<Rightarrow> real" where
  "E0 complex = (if \<not> complex then 5.001041625 else 368.54641249999997)"

definition simDuration :: real where
  "simDuration = 10.0"

section \<open>Analytical baselines\<close>

text \<open>
  Modelled from the spec: the inertia of a uniform-density rectangular solid. The test
  hands mass and box size to \<^verbatim>\<open>msgs::AddBoxLink\<close>, which is not part of \<^verbatim>\<open>boxes.cc\<close>; the
  spec gives the formulas \<open>Ixx = m(dy\<^sup>2 + dz\<^sup>2)/12\<close>, \<open>Iyy = m(dx\<^sup>2 + dz\<^sup>2)/12\<close>,
  \<open>Izz = m(dx\<^sup>2 + dy\<^sup>2)/12\<close>.
\<close>

definition boxInertia :: "real \<Rightarrow> vec \<Rightarrow> vec" where
  "boxInertia m d =
     Vec (m * ((Y d)\<^sup>2 + (Z d)\<^sup>2) / 12)
         (m * ((X d)\<^sup>2 + (Z d)\<^sup>2) / 12)
         (m * ((X d)\<^sup>2 + (Y d)\<^sup>2) / 12)"

text \<open>
  Modelled from the spec: the energy that \<^verbatim>\<open>link->GetWorldEnergy()\<close> stands for, which
  is computed inside the simulator. The spec defines the baseline as translational plus
  rotational kinetic energy of a body with diagonal inertia, plus \<open>m\<cdot>g\<cdot>h\<close> when gravity
  is active, \<open>g\<close> being the gravitational acceleration and \<open>h\<close> the height of the body.
\<close>

definition translationalEnergy :: "real \<Rightarrow> vec \<Rightarrow> real" where
  "translationalEnergy m v = 1/2 * m * dot v v"

definition rotationalEnergy :: "vec \<Rightarrow> vec \<Rightarrow> real" where
  "rotationalEnergy I w = 1/2 * dot w (vmul I w)"

definition potentialEnergy :: "real \<Rightarrow> real \<Rightarrow> real \<Rightarrow> real" where
  "potentialEnergy m g h = m * g * h"

definition analyticEnergy :: "real \<Rightarrow> vec \<Rightarrow> vec \<Rightarrow> vec \<Rightarrow> real \<Rightarrow> real \<Rightarrow> real" where
  "analyticEnergy m I v w g h =
     translationalEnergy m v + rotationalEnergy I w + potentialEnergy m g h"

text \<open>
  Line 114: the position at which the box of loop index \<open>i\<close> is spawned. Its height
  (the \<open>z\<close> coordinate) is zero for every \<open>i\<close>.
\<close>

definition spawnPosition :: "int \<Rightarrow> vec" where
  "spawnPosition i = Vec 0.0 (dz * 2 * of_int i) 0.0"

section \<open>Quaternions and error statistics\<close>

text \<open>
  Line 226 builds \<^verbatim>\<open>Quaterniond angleTrue(w0 * t)\<close>. The quaternion class belongs to the
  math library and is not part of \<^verbatim>\<open>boxes.cc\<close>. Reading the Euler angles back
  (\<^verbatim>\<open>Euler()\<close>) is left a parameter of the model.
\<close>

datatype quat = Quaternion (W: real) (Qx: real) (Qy: real) (Qz: real)

text \<open>
  Modelled from the spec: the closed-form rotation by an angle about a fixed unit axis,
  as a unit quaternion.
\<close>

definition rotationAbout :: "vec \<Rightarrow> real \<Rightarrow> quat" where
  "rotationAbout axis angle =
     Quaternion (cos (angle / 2)) (sin (angle / 2) * X axis)
                (sin (angle / 2) * Y axis) (sin (angle / 2) * Z axis)"

text \<open>
  Modelled from the spec: the constructor of a quaternion from one vector, which line
  226 applies to \<open>w0 * t\<close>. The spec gives the predicted orientation as the closed-form
  rotation by the angle \<open>|w0| t\<close> about the axis \<open>w0 / |w0|\<close>; the constructor is taken
  accordingly: from a vector \<open>r\<close> it builds the rotation by the angle \<open>|r|\<close> about the
  axis \<open>r / |r|\<close>.
\<close>

definition Quaterniond :: "vec \<Rightarrow> quat" where
  "Quaterniond r = rotationAbout (vdiv r (Length r)) (Length r)"

record pose =
  Pos :: vec
  Rot :: quat

text \<open>
  Modelled from the spec: the error accumulators \<^verbatim>\<open>SignalStats\<close> and \<^verbatim>\<open>Vector3Stats\<close> of
  the math library, configured at lines 172 to 177 with the one statistic \<^verbatim>\<open>maxAbs\<close>: a
  running maximum of absolute values, starting at zero. A \<^verbatim>\<open>Vector3Stats\<close> keeps one
  accumulator for each component and one for the magnitude of the inserted vector.
  Configuring the statistic is checked with \<^verbatim>\<open>EXPECT_TRUE\<close>, which is not fatal, and is
  taken to succeed.
\<close>

record SignalStats =
  maxAbs :: real

definition newSignalStats :: SignalStats where
  "newSignalStats = \<lparr>maxAbs = 0\<rparr>"

definition InsertData :: "SignalStats \<Rightarrow> real \<Rightarrow> SignalStats" where
  "InsertData st x = (if maxAbs st < \<bar>x\<bar> then st\<lparr>maxAbs := \<bar>x\<bar>\<rparr> else st)"

record Vector3Stats =
  statX :: SignalStats
  statY :: SignalStats
  statZ :: SignalStats
  statMag :: SignalStats

definition newVector3Stats :: Vector3Stats where
  "newVector3Stats =
     \<lparr>statX = newSignalStats, statY = newSignalStats, statZ = newSignalStats,
      statMag = newSignalStats\<rparr>"

definition InsertDataV :: "Vector3Stats \<Rightarrow> vec \<Rightarrow> Vector3Stats" where
  "InsertDataV st v =
     \<lparr>statX = InsertData (statX st) (X v), statY = InsertData (statY st) (Y v),
      statZ = InsertData (statZ st) (Z v), statMag = InsertData (statMag st) (Length v)\<rparr>"

text \<open>Lines 166 to 170: the five accumulators of one run.\<close>

record errorStats =
  linearPositionError :: Vector3Stats
  linearVelocityError :: Vector3Stats
  angularPositionError :: Vector3Stats
  angularMomentumError :: Vector3Stats
  energyError :: SignalStats

definition newErrorStats :: errorStats where
  "newErrorStats =
     \<lparr>linearPositionError = newVector3Stats, linearVelocityError = newVector3Stats,
      angularPositionError = newVector3Stats, angularMomentumError = newVector3Stats,
      energyError = newSignalStats\<rparr>"

section \<open>The simulator as a collaborator\<close>

text \<open>
  The world, the physics engine, the spawned links, the wall clock and the test
  fixture's name counter are outside \<^verbatim>\<open>boxes.cc\<close>. They are a parameter of the model: a
  record of the operations the test calls, over an arbitrary type \<^typ>\<open>'w\<close> of
  environment states. A model or link pointer is a natural number, a null pointer
  is \<^const>\<open>None\<close>. Everything proved below holds for every such simulator.
\<close>

record msgModel =
  name :: string
  linkMass :: real
  linkBoxSize :: vec
  linkCollision :: bool
  posePosition :: vec

record 'w simulator =
  Load :: "string \<Rightarrow> string \<Rightarrow> 'w option"
  Physics :: "'w \<Rightarrow> bool"
  GetType :: "'w \<Rightarrow> string"
  SetGravity :: "vec \<Rightarrow> 'w \<Rightarrow> 'w"
  Gravity :: "'w \<Rightarrow> vec"
  GetUniqueString :: "string \<Rightarrow> 'w \<Rightarrow> string \<times> 'w"
  SpawnModel :: "msgModel \<Rightarrow> 'w \<Rightarrow> nat option \<times> 'w"
  GetLink :: "nat \<Rightarrow> 'w \<Rightarrow> nat option"
  SetLinearVel :: "nat \<Rightarrow> vec \<Rightarrow> 'w \<Rightarrow> 'w"
  SetAngularVel :: "nat \<Rightarrow> vec \<Rightarrow> 'w \<Rightarrow> 'w"
  WorldCoGLinearVel :: "nat \<Rightarrow> 'w \<Rightarrow> vec"
  WorldAngularVel :: "nat \<Rightarrow> 'w \<Rightarrow> vec"
  MOI :: "nat \<Rightarrow> 'w \<Rightarrow> mat3"
  GetWorldEnergy :: "nat \<Rightarrow> 'w \<Rightarrow> real"
  WorldInertialPose :: "nat \<Rightarrow> 'w \<Rightarrow> pose"
  WorldAngularMomentum :: "nat \<Rightarrow> 'w \<Rightarrow> vec"
  SimTime :: "'w \<Rightarrow> real"
  SetMaxStepSize :: "real \<Rightarrow> 'w \<Rightarrow> 'w"
  SetRealTimeUpdateRate :: "real \<Rightarrow> 'w \<Rightarrow> 'w"
  GetWallTime :: "'w \<Rightarrow> real \<times> 'w"
  Step :: "'w \<Rightarrow> 'w"
  Euler :: "quat \<Rightarrow> vec"

text \<open>
  \<^const>\<open>Load\<close> stands for loading the world file with the given engine and fetching the
  world (lines 37 and 38): it yields the initial state, or nothing when the world pointer
  is null. \<^const>\<open>Physics\<close> tells whether the engine pointer of line 42 is non-null.
  Queries such as \<^const>\<open>WorldCoGLinearVel\<close> read a state without changing it;
  \<^const>\<open>GetUniqueString\<close>, \<^const>\<open>SpawnModel\<close> and \<^const>\<open>GetWallTime\<close> return a value and a
  new state. \<^const>\<open>Euler\<close> is the math library's conversion of a quaternion to Euler
  angles. The source has two spellings of each query, selected by the major version of
  the simulator; they are the same calls. A simulated time is read as a \<^verbatim>\<open>double\<close>.
\<close>

text \<open>
  What a run does is observed as the sequence of its calls, with the value each query
  returned, the samples it inserts into the accumulators and the values it records.
\<close>

datatype stat = LinPos | LinVel | AngPos | AngMom | Energy

datatype sample = V vec | S real

datatype recval = Scalar real | Signal SignalStats | Vector Vector3Stats

datatype event =
    Ev_Load bool
  | Ev_Physics bool
  | Ev_GetType string
  | Ev_SetGravity vec
  | Ev_Gravity vec
  | Ev_GetUniqueString string
  | Ev_SpawnModel msgModel "nat option"
  | Ev_GetLink nat "nat option"
  | Ev_SetLinearVel nat vec
  | Ev_SetAngularVel nat vec
  | Ev_WorldCoGLinearVel nat vec
  | Ev_WorldAngularVel nat vec
  | Ev_MOI nat mat3
  | Ev_GetWorldEnergy nat real
  | Ev_SimTime real
  | Ev_WorldInertialPose nat pose
  | Ev_WorldAngularMomentum nat vec
  | Ev_SetMaxStepSize real
  | Ev_SetRealTimeUpdateRate real
  | Ev_GetWallTime real
  | Ev_Step
  | Ev_InsertData stat sample
  | Ev_Record string recval

text \<open>
  The fatal assertions of \<^verbatim>\<open>BoxesTest::Boxes\<close>, one constructor for each \<^verbatim>\<open>ASSERT_\<close> line.
  Dereferencing \<^verbatim>\<open>link\<close> while it is null and an undefined conversion of the step
  count to \<^verbatim>\<open>int\<close> are failures of the model as well.
\<close>

datatype failure =
    WorldIsNull
  | PhysicsIsNull
  | EngineTypeMismatch
  | ModelCountNotPositive
  | ModelIsNull
  | LinkIsNull
  | LinearVelMismatch
  | AngularVelMismatch
  | InertiaMismatch
  | EnergyMismatch
  | AngularMomentumMismatch
  | NullLinkDereferenced
  | StepCountUndefined
  | SimTimeMismatch

record 'w harness =
  world :: 'w
  trace :: "event list"

type_synonym ('w, 'a) action = "'w harness \<Rightarrow> (failure + 'a) \<times> 'w harness"

definition ret :: "'a \<Rightarrow> ('w, 'a) action" where
  "ret a s = (Inr a, s)"

definition fatal :: "failure \<Rightarrow> ('w, 'a) action" where
  "fatal e s = (Inl e, s)"

definition bind :: "('w, 'a) action \<Rightarrow> ('a \<Rightarrow> ('w, 'b) action) \<Rightarrow> ('w, 'b) action" where
  "bind m k s = (case m s of (Inl e, s') \<Rightarrow> (Inl e, s') | (Inr a, s') \<Rightarrow> k a s')"

definition ASSERT :: "bool \<Rightarrow> failure \<Rightarrow> ('w, unit) action" where
  "ASSERT ok e = (if ok then ret () else fatal e)"

definition emit :: "event \<Rightarrow> ('w, unit) action" where
  "emit ev s = (Inr (), s\<lparr>trace := trace s @ [ev]\<rparr>)"

definition query :: "('w \<Rightarrow> 'a) \<Rightarrow> ('a \<Rightarrow> event) \<Rightarrow> ('w, 'a) action" where
  "query f ev s = (Inr (f (world s)), s\<lparr>trace := trace s @ [ev (f (world s))]\<rparr>)"

definition command :: "('w \<Rightarrow> 'w) \<Rightarrow> event \<Rightarrow> ('w, unit) action" where
  "command f ev s = (Inr (), s\<lparr>world := f (world s), trace := trace s @ [ev]\<rparr>)"

definition call :: "('w \<Rightarrow> 'a \<times> 'w) \<Rightarrow> ('a \<Rightarrow> event) \<Rightarrow> ('w, 'a) action" where
  "call f ev s =
     (Inr (fst (f (world s))),
      s\<lparr>world := snd (f (world s)), trace := trace s @ [ev (fst (f (world s)))]\<rparr>)"

definition ASSERT_NEAR :: "real \<Rightarrow> real \<Rightarrow> real \<Rightarrow> bool" where
  "ASSERT_NEAR val1 val2 abs_error \<longleftrightarrow> \<bar>val1 - val2\<bar> \<le> abs_error"

text \<open>
  Modelled from the spec: \<^verbatim>\<open>ASSERT_EQ\<close> compares its arguments with \<^verbatim>\<open>operator==\<close> of their
  type. For vectors and the inertia matrix that operator belongs to the math library,
  which is not part of \<^verbatim>\<open>boxes.cc\<close>; the spec says of these checks: equality, not
  tolerance.
\<close>

definition ASSERT_EQ :: "'a \<Rightarrow> 'a \<Rightarrow> bool" where
  "ASSERT_EQ val1 val2 \<longleftrightarrow> val1 = val2"

section \<open>\<^verbatim>\<open>BoxesTest::Boxes\<close>\<close>

text \<open>Lines 66 to 73: the model message of the box, with or without collision shape.\<close>

definition boxMessage :: "bool \<Rightarrow> msgModel" where
  "boxMessage collision =
     \<lparr>name = [], linkMass = mass, linkBoxSize = Vec dx dy dz, linkCollision = collision,
      posePosition = Zero\<rparr>"

text \<open>
  Lines 110 to 124: one iteration of the spawn loop, for loop index \<open>i\<close>. It returns
  the message (the same object is reused by the next iteration) and the new link.
\<close>

definition spawnOnce :: "'w simulator \<Rightarrow> bool \<Rightarrow> int \<Rightarrow> msgModel \<Rightarrow> ('w, msgModel \<times> nat) action" where
  "spawnOnce sim complex i msg =
     bind (call (GetUniqueString sim ''model'') Ev_GetUniqueString) (\<lambda>nm.
     let msg' = msg\<lparr>name := nm, posePosition := spawnPosition i\<rparr> in
     bind (call (SpawnModel sim msg') (Ev_SpawnModel msg')) (\<lambda>model.
     case model of None \<Rightarrow> fatal ModelIsNull | Some m \<Rightarrow>
     bind (query (GetLink sim m) (Ev_GetLink m)) (\<lambda>link.
     case link of None \<Rightarrow> fatal LinkIsNull | Some l \<Rightarrow>
     bind (command (SetLinearVel sim l (v0 complex)) (Ev_SetLinearVel l (v0 complex))) (\<lambda>_.
     bind (command (SetAngularVel sim l (w0 complex)) (Ev_SetAngularVel l (w0 complex))) (\<lambda>_.
     ret (msg', l))))))"

text \<open>
  Lines 108 to 125: \<^verbatim>\<open>for (int i = 0; i < _modelCount; ++i)\<close>. The first argument counts
  the iterations that remain, the second is \<open>i\<close>; \<open>link\<close> is the pointer declared at
  line 79, null until the first iteration has assigned it.
\<close>

fun spawnLoop :: "'w simulator \<Rightarrow> bool \<Rightarrow> nat \<Rightarrow> int \<Rightarrow> msgModel \<Rightarrow> nat option \<Rightarrow> ('w, nat option) action" where
  "spawnLoop sim complex 0 i msg link = ret link"
| "spawnLoop sim complex (Suc n) i msg link =
     bind (spawnOnce sim complex i msg) (\<lambda>(msg', l).
     spawnLoop sim complex n (i + 1) msg' (Some l))"

text \<open>
  The values captured once before stepping: gravity (line 51), the initial time and
  position (lines 139 to 142), the initial angular momentum and its length (lines 145
  and 157).
\<close>

record baseline =
  b_g :: vec
  b_t0 :: real
  b_p0 :: vec
  b_H0 :: vec
  b_H0mag :: real

text \<open>Lines 126 to 157: the checks of the initial conditions, on the link \<open>l\<close>.\<close>

definition initialChecks :: "'w simulator \<Rightarrow> bool \<Rightarrow> vec \<Rightarrow> nat \<Rightarrow> ('w, baseline) action" where
  "initialChecks sim complex g l =
     bind (query (WorldCoGLinearVel sim l) (Ev_WorldCoGLinearVel l)) (\<lambda>v.
     bind (ASSERT (ASSERT_EQ (v0 complex) v) LinearVelMismatch) (\<lambda>_.
     bind (query (WorldAngularVel sim l) (Ev_WorldAngularVel l)) (\<lambda>w.
     bind (ASSERT (ASSERT_EQ (w0 complex) w) AngularVelMismatch) (\<lambda>_.
     bind (query (MOI sim l) (Ev_MOI l)) (\<lambda>moi.
     bind (ASSERT (ASSERT_EQ I0 moi) InertiaMismatch) (\<lambda>_.
     bind (query (GetWorldEnergy sim l) (Ev_GetWorldEnergy l)) (\<lambda>E.
     bind (ASSERT (ASSERT_NEAR E (E0 complex) 0.000001) EnergyMismatch) (\<lambda>_.
     bind (query (SimTime sim) Ev_SimTime) (\<lambda>t0.
     bind (query (WorldInertialPose sim l) (Ev_WorldInertialPose l)) (\<lambda>p.
     bind (query (WorldAngularMomentum sim l) (Ev_WorldAngularMomentum l)) (\<lambda>H0.
     bind (ASSERT (ASSERT_EQ H0 (vmul (Vec Ixx Iyy Izz) (w0 complex))) AngularMomentumMismatch) (\<lambda>_.
     ret \<lparr>b_g = g, b_t0 = t0, b_p0 = Pos p, b_H0 = H0, b_H0mag = Length H0\<rparr>))))))))))))"

text \<open>
  Line 163: \<^verbatim>\<open>int steps = ceil(simDuration / _dt)\<close>. The conversion of the quotient to
  \<^verbatim>\<open>int\<close> is undefined when \<^verbatim>\<open>_dt\<close> is zero or the ceiling does not fit 32 bits.
\<close>

definition stepCount :: "real \<Rightarrow> int option" where
  "stepCount dt =
     (if dt = 0 \<or> \<lceil>simDuration / dt\<rceil> < - (2 ^ 31) \<or> 2 ^ 31 \<le> \<lceil>simDuration / dt\<rceil>
      then None else Some \<lceil>simDuration / dt\<rceil>)"

definition insertV :: "stat \<Rightarrow> Vector3Stats \<Rightarrow> vec \<Rightarrow> ('w, Vector3Stats) action" where
  "insertV which st x = bind (emit (Ev_InsertData which (V x))) (\<lambda>_. ret (InsertDataV st x))"

definition insertS :: "stat \<Rightarrow> SignalStats \<Rightarrow> real \<Rightarrow> ('w, SignalStats) action" where
  "insertS which st x = bind (emit (Ev_InsertData which (S x))) (\<lambda>_. ret (InsertData st x))"

text \<open>Lines 185 to 231: the body of the stepping loop.\<close>

definition stepOnce :: "'w simulator \<Rightarrow> bool \<Rightarrow> nat \<Rightarrow> baseline \<Rightarrow> errorStats \<Rightarrow> ('w, errorStats) action" where
  "stepOnce sim complex l b acc =
     bind (command (Step sim) Ev_Step) (\<lambda>_.
     bind (query (SimTime sim) Ev_SimTime) (\<lambda>now.
     let t = now - b_t0 b in
     bind (query (WorldCoGLinearVel sim l) (Ev_WorldCoGLinearVel l)) (\<lambda>v.
     bind (insertV LinVel (linearVelocityError acc)
             (vsub v (vadd (v0 complex) (vscale (b_g b) t)))) (\<lambda>lv.
     bind (query (WorldInertialPose sim l) (Ev_WorldInertialPose l)) (\<lambda>p.
     bind (insertV LinPos (linearPositionError acc)
             (vsub (Pos p) (vadd (vadd (b_p0 b) (vscale (v0 complex) t))
                                 (vscale (vscale (sscale 0.5 (b_g b)) t) t)))) (\<lambda>lp.
     bind (query (WorldAngularMomentum sim l) (Ev_WorldAngularMomentum l)) (\<lambda>H.
     bind (insertV AngMom (angularMomentumError acc)
             (vdiv (vsub H (b_H0 b)) (b_H0mag b))) (\<lambda>am.
     bind (if \<not> complex
           then bind (query (WorldInertialPose sim l) (Ev_WorldInertialPose l)) (\<lambda>q.
                let a = Euler sim (Rot q);
                    angleTrue = Quaterniond (vscale (w0 complex) t)
                in insertV AngPos (angularPositionError acc) (vsub a (Euler sim angleTrue)))
           else ret (angularPositionError acc)) (\<lambda>ap.
     bind (query (GetWorldEnergy sim l) (Ev_GetWorldEnergy l)) (\<lambda>E.
     bind (insertS Energy (energyError acc) ((E - E0 complex) / E0 complex)) (\<lambda>en.
     ret \<lparr>linearPositionError = lp, linearVelocityError = lv, angularPositionError = ap,
          angularMomentumError = am, energyError = en\<rparr>)))))))))))"

text \<open>Lines 183 to 232: \<^verbatim>\<open>for (int i = 0; i < steps; ++i)\<close>, by the number of iterations.\<close>

fun stepLoop :: "'w simulator \<Rightarrow> bool \<Rightarrow> nat \<Rightarrow> baseline \<Rightarrow> nat \<Rightarrow> errorStats \<Rightarrow> ('w, errorStats) action" where
  "stepLoop sim complex l b 0 acc = ret acc"
| "stepLoop sim complex l b (Suc n) acc =
     bind (stepOnce sim complex l b acc) (stepLoop sim complex l b n)"

text \<open>Lines 233 to 247: the duration check and the records.\<close>

definition report :: "'w simulator \<Rightarrow> bool \<Rightarrow> real \<Rightarrow> baseline \<Rightarrow> real \<Rightarrow> errorStats \<Rightarrow> ('w, unit) action" where
  "report sim complex dt b startTime acc =
     bind (call (GetWallTime sim) Ev_GetWallTime) (\<lambda>endTime.
     let elapsedTime = endTime - startTime in
     bind (emit (Ev_Record ''wallTime'' (Scalar elapsedTime))) (\<lambda>_.
     bind (query (SimTime sim) Ev_SimTime) (\<lambda>now.
     let simTime = now - b_t0 b in
     bind (ASSERT (ASSERT_NEAR simTime simDuration (dt * 1.1)) SimTimeMismatch) (\<lambda>_.
     bind (emit (Ev_Record ''simTime'' (Scalar simTime))) (\<lambda>_.
     bind (emit (Ev_Record ''timeRatio'' (Scalar (elapsedTime / simTime)))) (\<lambda>_.
     bind (emit (Ev_Record ''energy0'' (Scalar (E0 complex)))) (\<lambda>_.
     bind (emit (Ev_Record ''energyError_'' (Signal (energyError acc)))) (\<lambda>_.
     bind (emit (Ev_Record ''angMomentum0'' (Scalar (b_H0mag b)))) (\<lambda>_.
     bind (emit (Ev_Record ''angMomentumErr_'' (Signal (statMag (angularMomentumError acc))))) (\<lambda>_.
     bind (emit (Ev_Record ''angPositionErr'' (Vector (angularPositionError acc)))) (\<lambda>_.
     bind (emit (Ev_Record ''linPositionErr_'' (Signal (statMag (linearPositionError acc))))) (\<lambda>_.
          emit (Ev_Record ''linVelocityErr_'' (Signal (statMag (linearVelocityError acc))))))))))))))))"

text \<open>Lines 159 to 247: the stepping phase, from the step size to the records.\<close>

definition stepping :: "'w simulator \<Rightarrow> bool \<Rightarrow> real \<Rightarrow> nat \<Rightarrow> baseline \<Rightarrow> ('w, unit) action" where
  "stepping sim complex dt l b =
     bind (command (SetMaxStepSize sim dt) (Ev_SetMaxStepSize dt)) (\<lambda>_.
     case stepCount dt of None \<Rightarrow> fatal StepCountUndefined | Some steps \<Rightarrow>
     bind (command (SetRealTimeUpdateRate sim 0.0) (Ev_SetRealTimeUpdateRate 0.0)) (\<lambda>_.
     bind (call (GetWallTime sim) Ev_GetWallTime) (\<lambda>startTime.
     bind (stepLoop sim complex l b (nat steps) newErrorStats) (\<lambda>acc.
     report sim complex dt b startTime acc))))"

text \<open>
  Lines 41 to 125: the engine checks, gravity, the check of the model count and the
  spawn loop. It returns gravity and the pointer \<^verbatim>\<open>link\<close> as the loop leaves it.
\<close>

definition initialise :: "'w simulator \<Rightarrow> string \<Rightarrow> int \<Rightarrow> bool \<Rightarrow> bool \<Rightarrow> ('w, vec \<times> nat option) action" where
  "initialise sim physicsEngine modelCount collision complex =
     bind (query (Physics sim) Ev_Physics) (\<lambda>physics.
     bind (ASSERT physics PhysicsIsNull) (\<lambda>_.
     bind (query (GetType sim) Ev_GetType) (\<lambda>ty.
     bind (ASSERT (ASSERT_EQ ty physicsEngine) EngineTypeMismatch) (\<lambda>_.
     bind (if \<not> complex then command (SetGravity sim Zero) (Ev_SetGravity Zero) else ret ()) (\<lambda>_.
     bind (query (Gravity sim) Ev_Gravity) (\<lambda>g.
     bind (ASSERT (modelCount > 0) ModelCountNotPositive) (\<lambda>_.
     bind (spawnLoop sim complex (nat modelCount) 0 (boxMessage collision) None) (\<lambda>link.
     ret (g, link)))))))))"

text \<open>Lines 41 to 247: the test on a loaded world.\<close>

definition BoxesOn :: "'w simulator \<Rightarrow> string \<Rightarrow> real \<Rightarrow> int \<Rightarrow> bool \<Rightarrow> bool \<Rightarrow> ('w, unit) action" where
  "BoxesOn sim physicsEngine dt modelCount collision complex =
     bind (initialise sim physicsEngine modelCount collision complex) (\<lambda>(g, link).
     case link of None \<Rightarrow> fatal NullLinkDereferenced | Some l \<Rightarrow>
     bind (initialChecks sim complex g l) (\<lambda>b.
     stepping sim complex dt l b))"

text \<open>
  Lines 30 to 248: the whole test. The result is the fatal assertion that ended the run,
  if any, and the trace of the run.
\<close>

definition Boxes :: "'w simulator \<Rightarrow> string \<Rightarrow> real \<Rightarrow> int \<Rightarrow> bool \<Rightarrow> bool \<Rightarrow> failure option \<times> event list" where
  "Boxes sim physicsEngine dt modelCount collision complex =
     (case Load sim ''worlds/blank.world'' physicsEngine of
        None \<Rightarrow> (Some WorldIsNull, [Ev_Load False])
      | Some w \<Rightarrow>
          (case BoxesOn sim physicsEngine dt modelCount collision complex
                  \<lparr>world = w, trace = [Ev_Load True]\<rparr> of
             (Inl e, s) \<Rightarrow> (Some e, trace s)
           | (Inr _, s) \<Rightarrow> (None, trace s)))"

section \<open>Observations on a trace\<close>

text \<open>
  The functions below read a trace: the samples inserted into one accumulator, the
  links the spawn loop obtained, the velocities it set, the links whose state was
  queried, and the simulated times that were read.
\<close>

definition samplesOf :: "stat \<Rightarrow> event list \<Rightarrow> sample list" where
  "samplesOf k tr =
     concat (map (\<lambda>e. case e of Ev_InsertData k' x \<Rightarrow> if k' = k then [x] else [] | _ \<Rightarrow> []) tr)"

definition spawnedLinks :: "event list \<Rightarrow> nat list" where
  "spawnedLinks tr =
     concat (map (\<lambda>e. case e of Ev_GetLink m (Some l) \<Rightarrow> [l] | _ \<Rightarrow> []) tr)"

definition spawnCalls :: "event list \<Rightarrow> msgModel list" where
  "spawnCalls tr =
     concat (map (\<lambda>e. case e of Ev_SpawnModel msg m \<Rightarrow> [msg] | _ \<Rightarrow> []) tr)"

definition linearVelsSet :: "event list \<Rightarrow> (nat \<times> vec) list" where
  "linearVelsSet tr =
     concat (map (\<lambda>e. case e of Ev_SetLinearVel l v \<Rightarrow> [(l, v)] | _ \<Rightarrow> []) tr)"

definition angularVelsSet :: "event list \<Rightarrow> (nat \<times> vec) list" where
  "angularVelsSet tr =
     concat (map (\<lambda>e. case e of Ev_SetAngularVel l w \<Rightarrow> [(l, w)] | _ \<Rightarrow> []) tr)"

definition queriedLinks :: "event list \<Rightarrow> nat list" where
  "queriedLinks tr =
     concat (map (\<lambda>e. case e of
                Ev_WorldCoGLinearVel l v \<Rightarrow> [l]
              | Ev_WorldAngularVel l w \<Rightarrow> [l]
              | Ev_MOI l m \<Rightarrow> [l]
              | Ev_GetWorldEnergy l E \<Rightarrow> [l]
              | Ev_WorldInertialPose l p \<Rightarrow> [l]
              | Ev_WorldAngularMomentum l H \<Rightarrow> [l]
              | _ \<Rightarrow> []) tr)"

definition simTimes :: "event list \<Rightarrow> real list" where
  "simTimes tr = concat (map (\<lambda>e. case e of Ev_SimTime t \<Rightarrow> [t] | _ \<Rightarrow> []) tr)"

definition beforeStepping :: "event list \<Rightarrow> event list" where
  "beforeStepping tr = takeWhile (\<lambda>e. e \<noteq> Ev_Step) tr"

text \<open>
  The worlds of a run that steps. From the world \<open>w\<close> in which the initial conditions
  were checked, lines 161, 181 and 182 set the step size, set the update rate and read
  the wall clock; the loop starts in the world they leave. The world of pass \<open>i\<close> of the
  loop, counted from zero, is that world after \<open>i + 1\<close> steps.
\<close>

definition loopStart :: "'w simulator \<Rightarrow> real \<Rightarrow> 'w \<Rightarrow> 'w" where
  "loopStart sim dt w =
     snd (GetWallTime sim (SetRealTimeUpdateRate sim 0.0 (SetMaxStepSize sim dt w)))"

definition worldAtStep :: "'w simulator \<Rightarrow> real \<Rightarrow> 'w \<Rightarrow> nat \<Rightarrow> 'w" where
  "worldAtStep sim dt w i = (Step sim ^^ Suc i) (loopStart sim dt w)"

section \<open>A simulator of free flight\<close>

text \<open>
  A small deterministic simulator, used to run the test on concrete inputs. A body
  keeps the velocities it was given, falls under gravity and turns about its angular
  velocity; its reported inertia is \<^const>\<open>I0\<close> and its angular momentum the product
  of the inertia diagonal and the angular velocity. The two parameters are the fraction
  of the maximal step size by which one step advances the simulated time, and the
  energy the simulator reports.
\<close>

record testWorld =
  tw_engine :: string
  tw_gravity :: vec
  tw_time :: real
  tw_maxStep :: real
  tw_count :: nat
  tw_names :: nat
  tw_clock :: real
  tw_position :: "nat \<Rightarrow> vec"
  tw_linearVel :: "nat \<Rightarrow> vec"
  tw_angularVel :: "nat \<Rightarrow> vec"

definition testSim :: "real \<Rightarrow> real \<Rightarrow> testWorld simulator" where
  "testSim rate energy =
     \<lparr>Load = (\<lambda>file eng. Some \<lparr>tw_engine = eng, tw_gravity = Vec 0 0 (-9.8), tw_time = 0,
                tw_maxStep = 0.001, tw_count = 0, tw_names = 0, tw_clock = 0,
                tw_position = (\<lambda>l. Zero), tw_linearVel = (\<lambda>l. Zero),
                tw_angularVel = (\<lambda>l. Zero)\<rparr>),
      Physics = (\<lambda>w. True),
      GetType = tw_engine,
      SetGravity = (\<lambda>g w. w\<lparr>tw_gravity := g\<rparr>),
      Gravity = tw_gravity,
      GetUniqueString = (\<lambda>p w. (p @ replicate (tw_names w) CHR ''_'',
                                 w\<lparr>tw_names := Suc (tw_names w)\<rparr>)),
      SpawnModel = (\<lambda>msg w. (Some (tw_count w),
                      w\<lparr>tw_count := Suc (tw_count w),
                        tw_position := (tw_position w)(tw_count w := posePosition msg)\<rparr>)),
      GetLink = (\<lambda>m w. Some m),
      SetLinearVel = (\<lambda>l v w. w\<lparr>tw_linearVel := (tw_linearVel w)(l := v)\<rparr>),
      SetAngularVel = (\<lambda>l v w. w\<lparr>tw_angularVel := (tw_angularVel w)(l := v)\<rparr>),
      WorldCoGLinearVel = (\<lambda>l w. vadd (tw_linearVel w l) (vscale (tw_gravity w) (tw_time w))),
      WorldAngularVel = (\<lambda>l w. tw_angularVel w l),
      MOI = (\<lambda>l w. I0),
      GetWorldEnergy = (\<lambda>l w. energy),
      WorldInertialPose = (\<lambda>l w.
        \<lparr>Pos = vadd (vadd (tw_position w l) (vscale (tw_linearVel w l) (tw_time w)))
                 (vscale (vscale (sscale 0.5 (tw_gravity w)) (tw_time w)) (tw_time w)),
         Rot = Quaterniond (vscale (tw_angularVel w l) (tw_time w))\<rparr>),
      WorldAngularMomentum = (\<lambda>l w. vmul (Vec Ixx Iyy Izz) (tw_angularVel w l)),
      SimTime = tw_time,
      SetMaxStepSize = (\<lambda>dt w. w\<lparr>tw_maxStep := dt\<rparr>),
      SetRealTimeUpdateRate = (\<lambda>r w. w),
      GetWallTime = (\<lambda>w. (tw_clock w, w\<lparr>tw_clock := tw_clock w + 1\<rparr>)),
      Step = (\<lambda>w. w\<lparr>tw_time := tw_time w + rate * tw_maxStep w\<rparr>),
      Euler = (\<lambda>q. Vec (Qx q) (Qy q) (Qz q))\<rparr>"

section \<open>Phases of a trace\<close>

text \<open>
  Two properties of a stretch of a trace: it holds no step, no reading of a link's state
  or of the simulated time and no sample; it holds no call of the spawn loop.
\<close>

definition noMeasurement :: "event list \<Rightarrow> bool" where
  "noMeasurement tr =
     list_all (\<lambda>e. case e of
                 Ev_WorldCoGLinearVel l v \<Rightarrow> False
               | Ev_WorldAngularVel l w \<Rightarrow> False
               | Ev_MOI l m \<Rightarrow> False
               | Ev_GetWorldEnergy l E \<Rightarrow> False
               | Ev_WorldInertialPose l p \<Rightarrow> False
               | Ev_WorldAngularMomentum l H \<Rightarrow> False
               | Ev_SimTime t \<Rightarrow> False
               | Ev_Step \<Rightarrow> False
               | Ev_InsertData k x \<Rightarrow> False
               | _ \<Rightarrow> True) tr"

definition noSpawning :: "event list \<Rightarrow> bool" where
  "noSpawning tr =
     list_all (\<lambda>e. case e of
                 Ev_SpawnModel msg m \<Rightarrow> False
               | Ev_GetLink m l \<Rightarrow> False
               | Ev_SetLinearVel l v \<Rightarrow> False
               | Ev_SetAngularVel l w \<Rightarrow> False
               | _ \<Rightarrow> True) tr"

section \<open>Baseline constants against the analytical formulas\<close>

lemmas box_consts = dx_def dy_def dz_def mass_def Ixx_def Iyy_def Izz_def

lemmas vec_ops = vadd_def vsub_def vscale_def sscale_def vdiv_def vmul_def dot_def

text \<open>
  C3. The inertia computed by the uniform-density formulas from mass 10 and the box
  dimensions (0.1, 0.4, 0.9) agrees with the hard-coded diagonal (Ixx, Iyy, Izz) of
  the test to within 1e-6 in each component.
\<close>

theorem inertia_constants_match_formula:
  "\<bar>X (boxInertia mass (Vec dx dy dz)) - Ixx\<bar> \<le> 0.000001 \<and>
   \<bar>Y (boxInertia mass (Vec dx dy dz)) - Iyy\<bar> \<le> 0.000001 \<and>
   \<bar>Z (boxInertia mass (Vec dx dy dz)) - Izz\<bar> \<le> 0.000001"
  by (simp add: boxInertia_def box_consts power2_eq_square)

text \<open>
  C4. In the simple scenario (gravity zero, so no potential term at any height) the
  translational plus rotational kinetic energy of the box differs from the hard-coded
  baseline \<open>E0 = 5.001041625\<close> by at most 1e-6, with the hard-coded inertia diagonal as
  well as with the inertia of the uniform-density formulas.
\<close>

theorem simple_energy_baseline:
  "\<bar>analyticEnergy mass (Vec Ixx Iyy Izz) (v0 False) (w0 False) 0 h - E0 False\<bar> \<le> 0.000001 \<and>
   \<bar>analyticEnergy mass (boxInertia mass (Vec dx dy dz)) (v0 False) (w0 False) 0 h - E0 False\<bar>
     \<le> 0.000001"
  by (simp add: analyticEnergy_def translationalEnergy_def rotationalEnergy_def
      potentialEnergy_def boxInertia_def box_consts v0_def w0_def E0_def dot_def vmul_def
      power2_eq_square)

section \<open>Reading traces and running actions\<close>

lemmas obs_defs = samplesOf_def spawnedLinks_def spawnCalls_def linearVelsSet_def
  angularVelsSet_def queriedLinks_def simTimes_def

lemma obs_append [simp]:
  "samplesOf k (xs @ ys) = samplesOf k xs @ samplesOf k ys"
  "spawnedLinks (xs @ ys) = spawnedLinks xs @ spawnedLinks ys"
  "spawnCalls (xs @ ys) = spawnCalls xs @ spawnCalls ys"
  "linearVelsSet (xs @ ys) = linearVelsSet xs @ linearVelsSet ys"
  "angularVelsSet (xs @ ys) = angularVelsSet xs @ angularVelsSet ys"
  "queriedLinks (xs @ ys) = queriedLinks xs @ queriedLinks ys"
  "simTimes (xs @ ys) = simTimes xs @ simTimes ys"
  by (simp_all add: obs_defs)

lemma obs_Nil [simp]:
  "samplesOf k [] = []" "spawnedLinks [] = []" "spawnCalls [] = []" "linearVelsSet [] = []"
  "angularVelsSet [] = []" "queriedLinks [] = []" "simTimes [] = []"
  by (simp_all add: obs_defs)

lemma obs_Cons [simp]:
  "samplesOf k (e # es) =
     (case e of Ev_InsertData k' x \<Rightarrow> if k' = k then [x] else [] | _ \<Rightarrow> []) @ samplesOf k es"
  "spawnedLinks (e # es) = (case e of Ev_GetLink m (Some l) \<Rightarrow> [l] | _ \<Rightarrow> []) @ spawnedLinks es"
  "spawnCalls (e # es) = (case e of Ev_SpawnModel msg m \<Rightarrow> [msg] | _ \<Rightarrow> []) @ spawnCalls es"
  "linearVelsSet (e # es) = (case e of Ev_SetLinearVel l v \<Rightarrow> [(l, v)] | _ \<Rightarrow> []) @ linearVelsSet es"
  "angularVelsSet (e # es) = (case e of Ev_SetAngularVel l w \<Rightarrow> [(l, w)] | _ \<Rightarrow> []) @ angularVelsSet es"
  "queriedLinks (e # es) =
     (case e of
        Ev_WorldCoGLinearVel l v \<Rightarrow> [l]
      | Ev_WorldAngularVel l w \<Rightarrow> [l]
      | Ev_MOI l m \<Rightarrow> [l]
      | Ev_GetWorldEnergy l E \<Rightarrow> [l]
      | Ev_WorldInertialPose l p \<Rightarrow> [l]
      | Ev_WorldAngularMomentum l H \<Rightarrow> [l]
      | _ \<Rightarrow> []) @ queriedLinks es"
  "simTimes (e # es) = (case e of Ev_SimTime t \<Rightarrow> [t] | _ \<Rightarrow> []) @ simTimes es"
  by (simp_all add: obs_defs)

lemma ASSERT_EQ_iff [simp]: "ASSERT_EQ a b \<longleftrightarrow> a = b"
  by (simp add: ASSERT_EQ_def)

lemma ret_apply [simp]: "ret a s = (Inr a, s)"
  by (simp add: ret_def)

lemma fatal_apply [simp]: "fatal e s = (Inl e, s)"
  by (simp add: fatal_def)

lemma bind_ret [simp]: "bind (ret a) k s = k a s"
  by (simp add: bind_def)

lemma bind_fatal [simp]: "bind (fatal e) k s = (Inl e, s)"
  by (simp add: bind_def)

lemma bind_emit [simp]: "bind (emit ev) k s = k () (s\<lparr>trace := trace s @ [ev]\<rparr>)"
  by (simp add: bind_def emit_def)

lemma bind_query [simp]:
  "bind (query f ev) k s = k (f (world s)) (s\<lparr>trace := trace s @ [ev (f (world s))]\<rparr>)"
  by (simp add: bind_def query_def)

lemma bind_command [simp]:
  "bind (command f ev) k s = k () (s\<lparr>world := f (world s), trace := trace s @ [ev]\<rparr>)"
  by (simp add: bind_def command_def)

lemma bind_call [simp]:
  "bind (call f ev) k s =
     k (fst (f (world s)))
       (s\<lparr>world := snd (f (world s)), trace := trace s @ [ev (fst (f (world s)))]\<rparr>)"
  by (simp add: bind_def call_def)

lemma bind_ASSERT [simp]: "bind (ASSERT ok e) k s = (if ok then k () s else (Inl e, s))"
  by (simp add: ASSERT_def)

lemma bind_assoc: "bind (bind m f) k = bind m (\<lambda>a. bind (f a) k)"
  by (rule ext) (simp add: bind_def split: prod.splits sum.splits)

lemma bind_Inr: "m s = (Inr a, s') \<Longrightarrow> bind m k s = k a s'"
  by (simp add: bind_def)

lemma bind_Inl: "m s = (Inl e, s') \<Longrightarrow> bind m k s = (Inl e, s')"
  by (simp add: bind_def)

text \<open>One iteration of the stepping loop, written out.\<close>

lemma stepOnce_eq:
  "stepOnce sim c l b acc s =
     (let w = Step sim (world s); t = SimTime sim w - b_t0 b;
          ev = vsub (WorldCoGLinearVel sim l w) (vadd (v0 c) (vscale (b_g b) t));
          ep = vsub (Pos (WorldInertialPose sim l w))
                 (vadd (vadd (b_p0 b) (vscale (v0 c) t)) (vscale (vscale (sscale 0.5 (b_g b)) t) t));
          eh = vdiv (vsub (WorldAngularMomentum sim l w) (b_H0 b)) (b_H0mag b);
          ea = vsub (Euler sim (Rot (WorldInertialPose sim l w)))
                 (Euler sim (Quaterniond (vscale (w0 c) t)));
          ee = (GetWorldEnergy sim l w - E0 c) / E0 c
      in (Inr \<lparr>linearPositionError = InsertDataV (linearPositionError acc) ep,
               linearVelocityError = InsertDataV (linearVelocityError acc) ev,
               angularPositionError =
                 (if c then angularPositionError acc
                  else InsertDataV (angularPositionError acc) ea),
               angularMomentumError = InsertDataV (angularMomentumError acc) eh,
               energyError = InsertData (energyError acc) ee\<rparr>,
          s\<lparr>world := w,
            trace := trace s @
              [Ev_Step, Ev_SimTime (SimTime sim w),
               Ev_WorldCoGLinearVel l (WorldCoGLinearVel sim l w), Ev_InsertData LinVel (V ev),
               Ev_WorldInertialPose l (WorldInertialPose sim l w), Ev_InsertData LinPos (V ep),
               Ev_WorldAngularMomentum l (WorldAngularMomentum sim l w),
               Ev_InsertData AngMom (V eh)] @
              (if c then []
               else [Ev_WorldInertialPose l (WorldInertialPose sim l w),
                     Ev_InsertData AngPos (V ea)]) @
              [Ev_GetWorldEnergy l (GetWorldEnergy sim l w), Ev_InsertData Energy (S ee)]\<rparr>))"
  by (simp add: stepOnce_def insertV_def insertS_def Let_def bind_assoc)

lemma stepOnce_world [simp]: "world (snd (stepOnce sim c l b acc s)) = Step sim (world s)"
  by (simp add: stepOnce_eq Let_def)

lemma stepOnce_Inr: "\<exists>acc'. fst (stepOnce sim c l b acc s) = Inr acc'"
  by (simp add: stepOnce_eq Let_def)

lemma stepLoop_Suc:
  "stepLoop sim c l b (Suc n) acc s =
     stepLoop sim c l b n (projr (fst (stepOnce sim c l b acc s))) (snd (stepOnce sim c l b acc s))"
proof -
  obtain acc' where a: "fst (stepOnce sim c l b acc s) = Inr acc'"
    using stepOnce_Inr by blast
  then have "stepOnce sim c l b acc s = (Inr acc', snd (stepOnce sim c l b acc s))"
    by (metis prod.collapse)
  then show ?thesis
    by (simp add: bind_Inr a)
qed

lemma upt_0_Suc: "[0..<Suc n] = 0 # map Suc [0..<n]"
  by (simp only: map_Suc_upt upt_conv_Cons [OF zero_less_Suc])

lemma stepLoop_world: "world (snd (stepLoop sim c l b n acc s)) = (Step sim ^^ n) (world s)"
proof (induction n arbitrary: acc s)
  case 0
  show ?case by simp
next
  case (Suc n)
  show ?case
    by (simp only: stepLoop_Suc Suc.IH stepOnce_world funpow_Suc_right o_apply)
qed

lemma stepLoop_samples:
  assumes one: "\<And>acc s. samplesOf k (trace (snd (stepOnce sim c l b acc s))) =
                  samplesOf k (trace s) @ f (Step sim (world s))"
  shows "samplesOf k (trace (snd (stepLoop sim c l b n acc s))) =
           samplesOf k (trace s) @ concat (map (\<lambda>i. f ((Step sim ^^ Suc i) (world s))) [0..<n])"
proof (induction n arbitrary: acc s)
  case 0
  show ?case by simp
next
  case (Suc n)
  have "samplesOf k (trace (snd (stepLoop sim c l b (Suc n) acc s))) =
          (samplesOf k (trace s) @ f (Step sim (world s))) @
          concat (map (\<lambda>i. f ((Step sim ^^ Suc i) (Step sim (world s)))) [0..<n])"
    by (simp only: stepLoop_Suc Suc.IH one stepOnce_world)
  also have "\<dots> = samplesOf k (trace s) @
          concat (map (\<lambda>i. f ((Step sim ^^ Suc i) (world s))) [0..<Suc n])"
    by (simp only: upt_0_Suc) (simp add: funpow_swap1 o_def)
  finally show ?case .
qed

lemma stepLoop_acc:
  assumes one: "\<And>acc s. proj (projr (fst (stepOnce sim c l b acc s))) = upd (proj acc) (Step sim (world s))"
  shows "\<exists>acc'. fst (stepLoop sim c l b n acc s) = Inr acc' \<and>
           proj acc' = foldl upd (proj acc) (map (\<lambda>i. (Step sim ^^ Suc i) (world s)) [0..<n])"
proof (induction n arbitrary: acc s)
  case 0
  show ?case by simp
next
  case (Suc n)
  obtain acc' where a: "fst (stepLoop sim c l b (Suc n) acc s) = Inr acc'"
    and p: "proj acc' = foldl upd (upd (proj acc) (Step sim (world s)))
               (map (\<lambda>i. (Step sim ^^ Suc i) (Step sim (world s))) [0..<n])"
    using Suc.IH [of "projr (fst (stepOnce sim c l b acc s))" "snd (stepOnce sim c l b acc s)"]
    by (auto simp only: stepLoop_Suc one stepOnce_world)
  have "proj acc' = foldl upd (proj acc) (map (\<lambda>i. (Step sim ^^ Suc i) (world s)) [0..<Suc n])"
    unfolding p by (simp only: upt_0_Suc) (simp add: funpow_swap1 o_def)
  with a show ?case by blast
qed

lemma maxAbs_InsertData: "maxAbs (InsertData st x) = max (maxAbs st) \<bar>x\<bar>"
  by (simp add: InsertData_def max_def)

lemma maxAbs_foldl:
  "maxAbs (foldl InsertData st xs) = Max (insert (maxAbs st) (abs ` set xs))"
proof (induction xs arbitrary: st)
  case Nil
  show ?case by simp
next
  case (Cons x xs)
  have "Max (insert (max (maxAbs st) \<bar>x\<bar>) (abs ` set xs)) =
        Max (insert (maxAbs st) (insert \<bar>x\<bar> (abs ` set xs)))"
    by (cases "xs = []") (simp_all add: max.assoc)
  then show ?case
    by (simp add: Cons.IH maxAbs_InsertData)
qed

lemma statMag_foldl:
  "statMag (foldl InsertDataV st vs) = foldl InsertData (statMag st) (map Length vs)"
  by (induction vs arbitrary: st) (simp_all add: InsertDataV_def)

lemma Length_vscale: "Length (vscale w t) = Length w * \<bar>t\<bar>"
proof -
  have "X w * t * (X w * t) + Y w * t * (Y w * t) + Z w * t * (Z w * t) =
        (X w * X w + Y w * Y w + Z w * Z w) * (t * t)"
    by (simp add: algebra_simps)
  then show ?thesis
    by (simp add: Length_def vscale_def real_sqrt_mult)
qed

text \<open>
  The quaternion of line 226 is the rotation by the angle \<open>|w0| t\<close> about \<open>w0 / |w0|\<close>, for
  every elapsed time \<open>t\<close>.
\<close>

lemma Quaterniond_rotation:
  "Quaterniond (vscale w t) = rotationAbout (vdiv w (Length w)) (Length w * t)"
proof -
  consider "t = 0" | "0 < t" | "t < 0"
    by linarith
  then show ?thesis
  proof cases
    case 1
    then show ?thesis
      unfolding Quaterniond_def Length_vscale
      by (simp add: rotationAbout_def vdiv_def)
  next
    case 2
    then show ?thesis
      unfolding Quaterniond_def Length_vscale
      by (simp add: rotationAbout_def vdiv_def vscale_def)
  next
    case 3
    then have a: "\<bar>t\<bar> = - t"
      by simp
    have ax: "vdiv (vscale w t) (Length w * - t) =
        Vec (- (X w / Length w)) (- (Y w / Length w)) (- (Z w / Length w))"
      using 3 by (simp add: vdiv_def vscale_def)
    have ang: "Length w * - t / 2 = - (Length w * t / 2)"
      by simp
    show ?thesis
      unfolding Quaterniond_def Length_vscale a ax ang rotationAbout_def sin_minus cos_minus
      by (simp add: vdiv_def)
  qed
qed

lemma half_g_t_t: "vscale (vscale (sscale 0.5 g) t) t = sscale (1/2) (vscale g (t\<^sup>2))"
  by (simp add: vscale_def sscale_def power2_eq_square)

lemma abs_Length [simp]: "\<bar>Length v\<bar> = Length v"
  by (simp add: Length_def)

section \<open>The phases of a run and their traces\<close>

lemma noMeasurement_simps [simp]:
  "noMeasurement []"
  "noMeasurement (xs @ ys) \<longleftrightarrow> noMeasurement xs \<and> noMeasurement ys"
  by (simp_all add: noMeasurement_def)

lemma noSpawning_simps [simp]:
  "noSpawning []"
  "noSpawning (xs @ ys) \<longleftrightarrow> noSpawning xs \<and> noSpawning ys"
  by (simp_all add: noSpawning_def)

lemma noMeasurement_obs:
  "noMeasurement tr \<Longrightarrow> queriedLinks tr = [] \<and> simTimes tr = [] \<and> samplesOf k tr = [] \<and> Ev_Step \<notin> set tr"
  by (induction tr) (auto simp: noMeasurement_def split: event.splits)

lemma noSpawning_obs:
  "noSpawning tr \<Longrightarrow> spawnedLinks tr = [] \<and> spawnCalls tr = [] \<and> linearVelsSet tr = [] \<and> angularVelsSet tr = []"
  by (induction tr) (auto simp: noSpawning_def split: event.splits)

lemma spawnOnce_eq:
  "spawnOnce sim c i msg s =
     (let r1 = GetUniqueString sim ''model'' (world s);
          msg' = msg\<lparr>name := fst r1, posePosition := spawnPosition i\<rparr>;
          r2 = SpawnModel sim msg' (snd r1);
          T = [Ev_GetUniqueString (fst r1), Ev_SpawnModel msg' (fst r2)]
      in case fst r2 of
           None \<Rightarrow> (Inl ModelIsNull, s\<lparr>world := snd r2, trace := trace s @ T\<rparr>)
         | Some m \<Rightarrow>
             (case GetLink sim m (snd r2) of
                None \<Rightarrow> (Inl LinkIsNull,
                          s\<lparr>world := snd r2, trace := trace s @ T @ [Ev_GetLink m None]\<rparr>)
              | Some l \<Rightarrow>
                  (Inr (msg', l),
                   s\<lparr>world := SetAngularVel sim l (w0 c) (SetLinearVel sim l (v0 c) (snd r2)),
                     trace := trace s @ T @
                       [Ev_GetLink m (Some l), Ev_SetLinearVel l (v0 c),
                        Ev_SetAngularVel l (w0 c)]\<rparr>)))"
  by (simp add: spawnOnce_def Let_def bind_assoc split: option.splits)

lemma spawnOnce_trace:
  "\<exists>T. trace (snd (spawnOnce sim c i msg s)) = trace s @ T \<and> noMeasurement T \<and>
       length (spawnCalls T) = 1 \<and>
       (case fst (spawnOnce sim c i msg s) of
          Inl e \<Rightarrow> (e = ModelIsNull \<or> e = LinkIsNull) \<and> spawnedLinks T = [] \<and>
                   linearVelsSet T = [] \<and> angularVelsSet T = []
        | Inr (msg', l) \<Rightarrow> spawnedLinks T = [l] \<and> linearVelsSet T = [(l, v0 c)] \<and>
                   angularVelsSet T = [(l, w0 c)])"
  by (simp add: spawnOnce_eq Let_def noMeasurement_def split: option.splits)

lemma spawnLoop_trace:
  "\<exists>T. trace (snd (spawnLoop sim c n i msg link s)) = trace s @ T \<and> noMeasurement T \<and>
       linearVelsSet T = map (\<lambda>l. (l, v0 c)) (spawnedLinks T) \<and>
       angularVelsSet T = map (\<lambda>l. (l, w0 c)) (spawnedLinks T) \<and>
       (n = 0 \<longrightarrow> spawnCalls T = []) \<and>
       (case fst (spawnLoop sim c n i msg link s) of
          Inl e \<Rightarrow> e = ModelIsNull \<or> e = LinkIsNull
        | Inr lk \<Rightarrow> length (spawnedLinks T) = n \<and>
                    lk = (if n = 0 then link else Some (last (spawnedLinks T))))"
proof (induction n arbitrary: i msg link s)
  case 0
  show ?case by simp
next
  case (Suc n)
  obtain r s1 where once: "spawnOnce sim c i msg s = (r, s1)"
    by (cases "spawnOnce sim c i msg s")
  obtain T1 where T1: "trace s1 = trace s @ T1" "noMeasurement T1"
    and r: "case r of
          Inl e \<Rightarrow> (e = ModelIsNull \<or> e = LinkIsNull) \<and> spawnedLinks T1 = [] \<and>
                   linearVelsSet T1 = [] \<and> angularVelsSet T1 = []
        | Inr (msg', l) \<Rightarrow> spawnedLinks T1 = [l] \<and> linearVelsSet T1 = [(l, v0 c)] \<and>
                   angularVelsSet T1 = [(l, w0 c)]"
    using spawnOnce_trace [of sim c i msg s] by (auto simp: once)
  show ?case
  proof (cases r)
    case (Inl e)
    then have "spawnLoop sim c (Suc n) i msg link s = (Inl e, s1)"
      by (simp add: bind_Inl once)
    with T1 r Inl show ?thesis by auto
  next
    case (Inr p)
    obtain msg' l where p: "p = (msg', l)" by (cases p)
    have eq: "spawnLoop sim c (Suc n) i msg link s = spawnLoop sim c n (i + 1) msg' (Some l) s1"
      using once by (simp add: bind_def Inr p)
    obtain T2 where T2: "trace (snd (spawnLoop sim c n (i + 1) msg' (Some l) s1)) = trace s1 @ T2"
      "noMeasurement T2"
      "linearVelsSet T2 = map (\<lambda>l. (l, v0 c)) (spawnedLinks T2)"
      "angularVelsSet T2 = map (\<lambda>l. (l, w0 c)) (spawnedLinks T2)"
      and r2: "case fst (spawnLoop sim c n (i + 1) msg' (Some l) s1) of
          Inl e \<Rightarrow> e = ModelIsNull \<or> e = LinkIsNull
        | Inr lk \<Rightarrow> length (spawnedLinks T2) = n \<and>
                    lk = (if n = 0 then Some l else Some (last (spawnedLinks T2)))"
      using Suc.IH [of "i + 1" msg' "Some l" s1] by blast
    have "trace (snd (spawnLoop sim c (Suc n) i msg link s)) = trace s @ (T1 @ T2)"
      by (simp only: eq) (simp add: T1 T2)
    moreover have "noMeasurement (T1 @ T2)"
      using T1 T2 by simp
    moreover have "linearVelsSet (T1 @ T2) = map (\<lambda>l. (l, v0 c)) (spawnedLinks (T1 @ T2))"
      "angularVelsSet (T1 @ T2) = map (\<lambda>l. (l, w0 c)) (spawnedLinks (T1 @ T2))"
      using r T2 by (simp_all add: Inr p)
    moreover have "case fst (spawnLoop sim c (Suc n) i msg link s) of
          Inl e \<Rightarrow> e = ModelIsNull \<or> e = LinkIsNull
        | Inr lk \<Rightarrow> length (spawnedLinks (T1 @ T2)) = Suc n \<and>
                    lk = (if Suc n = 0 then link else Some (last (spawnedLinks (T1 @ T2))))"
      using r r2 unfolding eq by (auto simp: Inr p split: sum.splits)
    ultimately show ?thesis
      by (intro exI [of _ "T1 @ T2"]) simp
  qed
qed

lemma bind_then_ret:
  "bind m (\<lambda>x. ret (f x)) s =
     (case m s of (Inl e, s') \<Rightarrow> (Inl e, s') | (Inr a, s') \<Rightarrow> (Inr (f a), s'))"
  by (simp add: bind_def split: prod.splits sum.splits)

lemma initialise_trace:
  "\<exists>T. trace (snd (initialise sim eng mc coll c s)) = trace s @ T \<and> noMeasurement T \<and>
       linearVelsSet T = map (\<lambda>l. (l, v0 c)) (spawnedLinks T) \<and>
       angularVelsSet T = map (\<lambda>l. (l, w0 c)) (spawnedLinks T) \<and>
       (mc \<le> 0 \<longrightarrow> spawnCalls T = []) \<and>
       (case fst (initialise sim eng mc coll c s) of
          Inl e \<Rightarrow> e \<in> {PhysicsIsNull, EngineTypeMismatch, ModelCountNotPositive, ModelIsNull,
                         LinkIsNull} \<and>
                   (mc \<le> 0 \<and> Physics sim (world s) \<and> GetType sim (world s) = eng
                      \<longrightarrow> e = ModelCountNotPositive)
        | Inr (g, lk) \<Rightarrow> 0 < mc \<and> length (spawnedLinks T) = nat mc \<and>
                   lk = Some (last (spawnedLinks T)))"
proof -
  let ?T0 = "[Ev_Physics (Physics sim (world s)), Ev_GetType (GetType sim (world s))] @
             (if c then [] else [Ev_SetGravity Zero])"
  let ?w1 = "if c then world s else SetGravity sim Zero (world s)"
  let ?T1 = "?T0 @ [Ev_Gravity (Gravity sim ?w1)]"
  let ?s1 = "s\<lparr>world := ?w1, trace := trace s @ ?T1\<rparr>"
  let ?loop = "spawnLoop sim c (nat mc) 0 (boxMessage coll) None ?s1"
  have nm: "noMeasurement ?T1"
    by (simp add: noMeasurement_def)
  have obs1: "spawnedLinks ?T1 = []" "linearVelsSet ?T1 = []" "angularVelsSet ?T1 = []"
    "spawnCalls ?T1 = []"
    by simp_all
  show ?thesis
  proof (cases "Physics sim (world s) \<and> GetType sim (world s) = eng \<and> 0 < mc")
    case False
    then consider "\<not> Physics sim (world s)"
      | "Physics sim (world s)" "GetType sim (world s) \<noteq> eng"
      | "Physics sim (world s)" "GetType sim (world s) = eng" "mc \<le> 0"
      by fastforce
    then show ?thesis
    proof cases
      case 1
      then have "initialise sim eng mc coll c s =
          (Inl PhysicsIsNull, s\<lparr>trace := trace s @ [Ev_Physics (Physics sim (world s))]\<rparr>)"
        by (simp add: initialise_def)
      with 1 show ?thesis
        by (intro exI [of _ "[Ev_Physics (Physics sim (world s))]"]) (simp add: noMeasurement_def)
    next
      case 2
      then have "initialise sim eng mc coll c s =
          (Inl EngineTypeMismatch,
           s\<lparr>trace := trace s @ [Ev_Physics (Physics sim (world s)), Ev_GetType (GetType sim (world s))]\<rparr>)"
        by (simp add: initialise_def)
      with 2 show ?thesis
        by (intro exI [of _ "[Ev_Physics (Physics sim (world s)), Ev_GetType (GetType sim (world s))]"])
          (simp add: noMeasurement_def)
    next
      case 3
      then have "initialise sim eng mc coll c s = (Inl ModelCountNotPositive, ?s1)"
        by (simp add: initialise_def)
      have e3: "initialise sim eng mc coll c s = (Inl ModelCountNotPositive, ?s1)"
        by fact
      show ?thesis
      proof (intro exI [of _ ?T1] conjI)
        show "trace (snd (initialise sim eng mc coll c s)) = trace s @ ?T1"
          unfolding e3 by simp
        show "noMeasurement ?T1" by (rule nm)
        show "linearVelsSet ?T1 = map (\<lambda>l. (l, v0 c)) (spawnedLinks ?T1)"
          unfolding obs1 by simp
        show "angularVelsSet ?T1 = map (\<lambda>l. (l, w0 c)) (spawnedLinks ?T1)"
          unfolding obs1 by simp
        show "mc \<le> 0 \<longrightarrow> spawnCalls ?T1 = []"
          unfolding obs1 by simp
        show "case fst (initialise sim eng mc coll c s) of
          Inl e \<Rightarrow> e \<in> {PhysicsIsNull, EngineTypeMismatch, ModelCountNotPositive, ModelIsNull,
                         LinkIsNull} \<and>
                   (mc \<le> 0 \<and> Physics sim (world s) \<and> GetType sim (world s) = eng
                      \<longrightarrow> e = ModelCountNotPositive)
        | Inr (g, lk) \<Rightarrow> 0 < mc \<and> length (spawnedLinks ?T1) = nat mc \<and>
                   lk = Some (last (spawnedLinks ?T1))"
          unfolding e3 by simp
      qed
    qed
  next
    case True
    obtain T where T: "trace (snd ?loop) = trace ?s1 @ T" "noMeasurement T"
      "linearVelsSet T = map (\<lambda>l. (l, v0 c)) (spawnedLinks T)"
      "angularVelsSet T = map (\<lambda>l. (l, w0 c)) (spawnedLinks T)"
      and r: "case fst ?loop of
          Inl e \<Rightarrow> e = ModelIsNull \<or> e = LinkIsNull
        | Inr lk \<Rightarrow> length (spawnedLinks T) = nat mc \<and>
                    lk = (if nat mc = 0 then None else Some (last (spawnedLinks T)))"
      using spawnLoop_trace [of sim c "nat mc" 0 "boxMessage coll" None ?s1] by blast
    obtain rl sl where ls: "?loop = (rl, sl)"
      by (cases ?loop)
    have run0: "initialise sim eng mc coll c s =
        (case ?loop of (Inl e, s') \<Rightarrow> (Inl e, s') | (Inr lk, s') \<Rightarrow> (Inr (Gravity sim ?w1, lk), s'))"
      using True by (simp add: initialise_def bind_then_ret)
    have run: "initialise sim eng mc coll c s =
        (case rl of Inl e \<Rightarrow> (Inl e, sl) | Inr lk \<Rightarrow> (Inr (Gravity sim ?w1, lk), sl))"
      using run0 unfolding ls by (simp only: prod.case)
    have ts1: "trace ?s1 = trace s @ ?T1"
      by simp
    have tsl: "trace sl = trace s @ (?T1 @ T)"
      using T(1) unfolding ls snd_conv ts1 by (simp only: append_assoc)
    have tr: "trace (snd (initialise sim eng mc coll c s)) = trace s @ (?T1 @ T)"
      unfolding run by (cases rl) (simp_all only: sum.case snd_conv tsl)
    have res: "case fst (initialise sim eng mc coll c s) of
          Inl e \<Rightarrow> e = ModelIsNull \<or> e = LinkIsNull
        | Inr (g, lk) \<Rightarrow> length (spawnedLinks T) = nat mc \<and> lk = Some (last (spawnedLinks T))"
      using r True unfolding run ls by (cases rl) simp_all
    show ?thesis
    proof (intro exI [of _ "?T1 @ T"] conjI)
      show "trace (snd (initialise sim eng mc coll c s)) = trace s @ ?T1 @ T"
        by (rule tr)
      show "noMeasurement (?T1 @ T)"
        using nm T(2) by (simp only: noMeasurement_simps)
      show "linearVelsSet (?T1 @ T) = map (\<lambda>l. (l, v0 c)) (spawnedLinks (?T1 @ T))"
        using T(3) obs1 by (simp only: obs_append append_Nil)
      show "angularVelsSet (?T1 @ T) = map (\<lambda>l. (l, w0 c)) (spawnedLinks (?T1 @ T))"
        using T(4) obs1 by (simp only: obs_append append_Nil)
      show "mc \<le> 0 \<longrightarrow> spawnCalls (?T1 @ T) = []"
        using True by simp
      have sl: "spawnedLinks (?T1 @ T) = spawnedLinks T"
        using obs1(1) by (simp only: obs_append append_Nil)
      show "case fst (initialise sim eng mc coll c s) of
          Inl e \<Rightarrow> e \<in> {PhysicsIsNull, EngineTypeMismatch, ModelCountNotPositive, ModelIsNull,
                         LinkIsNull} \<and>
                   (mc \<le> 0 \<and> Physics sim (world s) \<and> GetType sim (world s) = eng
                      \<longrightarrow> e = ModelCountNotPositive)
        | Inr (g, lk) \<Rightarrow> 0 < mc \<and> length (spawnedLinks (?T1 @ T)) = nat mc \<and>
                   lk = Some (last (spawnedLinks (?T1 @ T)))"
      proof (cases "fst (initialise sim eng mc coll c s)")
        case (Inl e)
        with res have "e = ModelIsNull \<or> e = LinkIsNull" by simp
        with True Inl show ?thesis by auto
      next
        case (Inr p)
        obtain g lk where p: "p = (g, lk)" by (cases p)
        from res have "length (spawnedLinks T) = nat mc \<and> lk = Some (last (spawnedLinks T))"
          by (simp add: Inr p)
        with True show ?thesis
          unfolding sl by (simp add: Inr p)
      qed
    qed
  qed
qed

lemma initialChecks_eq:
  "initialChecks sim c g l s =
     (let w = world s;
          v = WorldCoGLinearVel sim l w; av = WorldAngularVel sim l w; moi = MOI sim l w;
          E = GetWorldEnergy sim l w; t0 = SimTime sim w; p = WorldInertialPose sim l w;
          H0 = WorldAngularMomentum sim l w;
          L = [Ev_WorldCoGLinearVel l v, Ev_WorldAngularVel l av, Ev_MOI l moi,
               Ev_GetWorldEnergy l E, Ev_SimTime t0, Ev_WorldInertialPose l p,
               Ev_WorldAngularMomentum l H0]
      in if v0 c \<noteq> v then (Inl LinearVelMismatch, s\<lparr>trace := trace s @ take 1 L\<rparr>)
         else if w0 c \<noteq> av then (Inl AngularVelMismatch, s\<lparr>trace := trace s @ take 2 L\<rparr>)
         else if I0 \<noteq> moi then (Inl InertiaMismatch, s\<lparr>trace := trace s @ take 3 L\<rparr>)
         else if \<not> ASSERT_NEAR E (E0 c) 0.000001
           then (Inl EnergyMismatch, s\<lparr>trace := trace s @ take 4 L\<rparr>)
         else if H0 \<noteq> vmul (Vec Ixx Iyy Izz) (w0 c)
           then (Inl AngularMomentumMismatch, s\<lparr>trace := trace s @ L\<rparr>)
         else (Inr \<lparr>b_g = g, b_t0 = t0, b_p0 = Pos p, b_H0 = H0, b_H0mag = Length H0\<rparr>,
               s\<lparr>trace := trace s @ L\<rparr>))"
  by (simp add: initialChecks_def Let_def)

lemma report_eq:
  "report sim c dt b st acc s =
     (let r = GetWallTime sim (world s); now = SimTime sim (snd r); simTime = now - b_t0 b;
          T = [Ev_GetWallTime (fst r), Ev_Record ''wallTime'' (Scalar (fst r - st)),
               Ev_SimTime now]
      in if ASSERT_NEAR simTime simDuration (dt * 1.1)
         then (Inr (),
               s\<lparr>world := snd r,
                 trace := trace s @ T @
                   [Ev_Record ''simTime'' (Scalar simTime),
                    Ev_Record ''timeRatio'' (Scalar ((fst r - st) / simTime)),
                    Ev_Record ''energy0'' (Scalar (E0 c)),
                    Ev_Record ''energyError_'' (Signal (energyError acc)),
                    Ev_Record ''angMomentum0'' (Scalar (b_H0mag b)),
                    Ev_Record ''angMomentumErr_'' (Signal (statMag (angularMomentumError acc))),
                    Ev_Record ''angPositionErr'' (Vector (angularPositionError acc)),
                    Ev_Record ''linPositionErr_'' (Signal (statMag (linearPositionError acc))),
                    Ev_Record ''linVelocityErr_'' (Signal (statMag (linearVelocityError acc)))]\<rparr>)
         else (Inl SimTimeMismatch, s\<lparr>world := snd r, trace := trace s @ T\<rparr>))"
  by (simp add: report_def Let_def emit_def)

lemma bind_stepLoop:
  "bind (stepLoop sim c l b n acc) k s =
     k (projr (fst (stepLoop sim c l b n acc s))) (snd (stepLoop sim c l b n acc s))"
proof -
  obtain acc' where a: "fst (stepLoop sim c l b n acc s) = Inr acc'"
    using stepLoop_acc [where proj = "\<lambda>x. ()" and upd = "\<lambda>x y. ()"] by fastforce
  then have "stepLoop sim c l b n acc s = (Inr acc', snd (stepLoop sim c l b n acc s))"
    by (metis prod.collapse)
  then show ?thesis
    by (simp add: bind_Inr a)
qed

lemma stepping_eq:
  "stepping sim c dt l b s =
     (let s1 = s\<lparr>world := SetMaxStepSize sim dt (world s),
                 trace := trace s @ [Ev_SetMaxStepSize dt]\<rparr>
      in case stepCount dt of
           None \<Rightarrow> (Inl StepCountUndefined, s1)
         | Some steps \<Rightarrow>
             let r = GetWallTime sim (SetRealTimeUpdateRate sim 0 (world s1));
                 s2 = s1\<lparr>world := snd r,
                         trace := trace s1 @ [Ev_SetRealTimeUpdateRate 0, Ev_GetWallTime (fst r)]\<rparr>;
                 loop = stepLoop sim c l b (nat steps) newErrorStats s2
             in report sim c dt b (fst r) (projr (fst loop)) (snd loop))"
  by (simp add: stepping_def Let_def bind_stepLoop split: option.splits)

lemma stepOnce_trace:
  "\<exists>T. trace (snd (stepOnce sim c l b acc s)) = trace s @ Ev_Step # T \<and> noSpawning T \<and>
       Ev_Step \<notin> set T \<and> (\<forall>l' \<in> set (queriedLinks T). l' = l) \<and>
       length (samplesOf AngPos T) = (if c then 0 else 1)"
  by (simp add: stepOnce_eq Let_def noSpawning_def)

lemma stepLoop_trace:
  "\<exists>T. trace (snd (stepLoop sim c l b n acc s)) = trace s @ T \<and> noSpawning T \<and>
       (\<forall>l' \<in> set (queriedLinks T). l' = l) \<and> count_list T Ev_Step = n \<and>
       (n = 0 \<longrightarrow> T = []) \<and> (0 < n \<longrightarrow> (\<exists>T'. T = Ev_Step # T')) \<and>
       length (samplesOf AngPos T) = (if c then 0 else n)"
proof (induction n arbitrary: acc s)
  case 0
  show ?case by simp
next
  case (Suc n)
  let ?s1 = "snd (stepOnce sim c l b acc s)"
  let ?a1 = "projr (fst (stepOnce sim c l b acc s))"
  obtain T1 where T1: "trace ?s1 = trace s @ Ev_Step # T1" "noSpawning T1" "Ev_Step \<notin> set T1"
    "\<forall>l' \<in> set (queriedLinks T1). l' = l" "length (samplesOf AngPos T1) = (if c then 0 else 1)"
    using stepOnce_trace by blast
  obtain T2 where T2: "trace (snd (stepLoop sim c l b n ?a1 ?s1)) = trace ?s1 @ T2"
    "noSpawning T2" "\<forall>l' \<in> set (queriedLinks T2). l' = l" "count_list T2 Ev_Step = n"
    "length (samplesOf AngPos T2) = (if c then 0 else n)"
    using Suc.IH [of ?a1 ?s1] by blast
  have c1: "count_list T1 Ev_Step = 0"
    using T1(3) by (simp add: count_list_0_iff)
  show ?case
  proof (intro exI [of _ "Ev_Step # T1 @ T2"] conjI)
    show "trace (snd (stepLoop sim c l b (Suc n) acc s)) = trace s @ Ev_Step # T1 @ T2"
      by (simp only: stepLoop_Suc T2 T1) simp
    show "noSpawning (Ev_Step # T1 @ T2)"
      using T1(2) T2(2) by (simp add: noSpawning_def)
    show "\<forall>l' \<in> set (queriedLinks (Ev_Step # T1 @ T2)). l' = l"
      using T1(4) T2(3) by auto
    show "count_list (Ev_Step # T1 @ T2) Ev_Step = Suc n"
      using c1 T2(4) by simp
    show "Suc n = 0 \<longrightarrow> Ev_Step # T1 @ T2 = []"
      by simp
    show "0 < Suc n \<longrightarrow> (\<exists>T'. Ev_Step # T1 @ T2 = Ev_Step # T')"
      by simp
    show "length (samplesOf AngPos (Ev_Step # T1 @ T2)) = (if c then 0 else Suc n)"
      using T1(5) T2(5) by simp
  qed
qed

lemma stepCount_Some: "stepCount dt = Some n \<Longrightarrow> n = \<lceil>simDuration / dt\<rceil>"
  by (simp add: stepCount_def split: if_splits)

lemma takeWhile_noStep:
  "Ev_Step \<notin> set R \<Longrightarrow> takeWhile (\<lambda>e. e \<noteq> Ev_Step) R = R"
  by (induction R) auto

lemma stepping_trace:
  "\<exists>T. trace (snd (stepping sim c dt l b s)) = trace s @ T \<and> noSpawning T \<and>
       (\<forall>l' \<in> set (queriedLinks T). l' = l) \<and>
       queriedLinks (takeWhile (\<lambda>e. e \<noteq> Ev_Step) T) = [] \<and>
       length (samplesOf AngPos T) = (if c then 0 else count_list T Ev_Step) \<and>
       Ev_SetMaxStepSize dt \<in> set T \<and>
       (case fst (stepping sim c dt l b s) of
          Inl e \<Rightarrow>
            (e = StepCountUndefined \<and> stepCount dt = None \<and> Ev_Step \<notin> set T) \<or>
            (e = SimTimeMismatch \<and> count_list T Ev_Step = nat \<lceil>simDuration / dt\<rceil> \<and>
             simTimes T \<noteq> [] \<and>
             \<not> ASSERT_NEAR (last (simTimes T) - b_t0 b) simDuration (dt * 1.1))
        | Inr u \<Rightarrow>
            count_list T Ev_Step = nat \<lceil>simDuration / dt\<rceil> \<and> simTimes T \<noteq> [] \<and>
            ASSERT_NEAR (last (simTimes T) - b_t0 b) simDuration (dt * 1.1) \<and>
            Ev_Record ''simTime'' (Scalar (last (simTimes T) - b_t0 b)) \<in> set T)"
proof (cases "stepCount dt")
  case None
  then have "stepping sim c dt l b s =
      (Inl StepCountUndefined,
       s\<lparr>world := SetMaxStepSize sim dt (world s), trace := trace s @ [Ev_SetMaxStepSize dt]\<rparr>)"
    by (simp add: stepping_eq)
  with None show ?thesis
    by (intro exI [of _ "[Ev_SetMaxStepSize dt]"]) (simp add: noSpawning_def)
next
  case (Some steps)
  then have steps: "steps = \<lceil>simDuration / dt\<rceil>"
    by (rule stepCount_Some)
  define r where "r = GetWallTime sim (SetRealTimeUpdateRate sim 0 (SetMaxStepSize sim dt (world s)))"
  define s2 where "s2 = s\<lparr>world := snd r,
      trace := trace s @ [Ev_SetMaxStepSize dt, Ev_SetRealTimeUpdateRate 0, Ev_GetWallTime (fst r)]\<rparr>"
  let ?P = "[Ev_SetMaxStepSize dt, Ev_SetRealTimeUpdateRate 0, Ev_GetWallTime (fst r)]"
  let ?loop = "stepLoop sim c l b (nat steps) newErrorStats s2"
  obtain acc sl where loop: "?loop = (acc, sl)"
    by (cases ?loop)
  obtain TL where TL: "trace (snd ?loop) = trace s2 @ TL" "noSpawning TL"
    "\<forall>l' \<in> set (queriedLinks TL). l' = l" "count_list TL Ev_Step = nat steps"
    "nat steps = 0 \<longrightarrow> TL = []" "0 < nat steps \<longrightarrow> (\<exists>T'. TL = Ev_Step # T')"
    "length (samplesOf AngPos TL) = (if c then 0 else nat steps)"
    using stepLoop_trace [of sim c l b "nat steps" newErrorStats s2] by (elim exE conjE) (rule that)
  have tsl: "trace sl = trace s @ ?P @ TL"
    using TL(1) unfolding loop by (simp add: s2_def)
  have run: "stepping sim c dt l b s = report sim c dt b (fst r) (projr acc) sl"
    using Some loop [unfolded s2_def r_def] by (simp add: stepping_eq Let_def r_def)
  let ?r' = "GetWallTime sim (world sl)"
  let ?now = "SimTime sim (snd ?r')"
  let ?TR = "[Ev_GetWallTime (fst ?r'), Ev_Record ''wallTime'' (Scalar (fst ?r' - fst r)),
              Ev_SimTime ?now]"
  have TL0: "nat steps = 0 \<Longrightarrow> TL = []"
    using TL(5) by simp
  have tw: "queriedLinks (takeWhile (\<lambda>e. e \<noteq> Ev_Step) (?P @ TL @ R)) = []"
    if "queriedLinks R = []" "Ev_Step \<notin> set R" for R
  proof (cases "nat steps = 0")
    case True
    then have "TL = []" by (rule TL0)
    then show ?thesis
      using that by (simp add: takeWhile_noStep)
  next
    case False
    then obtain T' where "TL = Ev_Step # T'"
      using TL(6) by auto
    then show ?thesis by simp
  qed
  have ql: "\<forall>l' \<in> set (queriedLinks (?P @ TL @ R)). l' = l" if "queriedLinks R = []" for R
    using TL(3) that by simp
  have cnt: "count_list (?P @ TL @ R) Ev_Step = nat \<lceil>simDuration / dt\<rceil>" if "Ev_Step \<notin> set R" for R
    using TL(4) that by (simp add: steps count_list_0_iff)
  have ap: "length (samplesOf AngPos (?P @ TL @ R)) = (if c then 0 else count_list (?P @ TL @ R) Ev_Step)"
    if "samplesOf AngPos R = []" "Ev_Step \<notin> set R" for R
    using TL(7) TL(4) that by (simp add: count_list_0_iff)
  have st: "simTimes (?P @ TL @ ?TR @ R) \<noteq> [] \<and> last (simTimes (?P @ TL @ ?TR @ R)) = ?now"
    if "simTimes R = []" for R
    using that by simp
  show ?thesis
  proof (cases "ASSERT_NEAR (?now - b_t0 b) simDuration (dt * 1.1)")
    case False
    let ?T = "?P @ TL @ (?TR @ [])"
    have res: "stepping sim c dt l b s =
        (Inl SimTimeMismatch, sl\<lparr>world := snd ?r', trace := trace sl @ ?TR\<rparr>)"
      using False by (simp add: run report_eq Let_def)
    show ?thesis
    proof (intro exI [of _ ?T] conjI)
      show "trace (snd (stepping sim c dt l b s)) = trace s @ ?T"
        by (simp add: res tsl)
      show "noSpawning ?T"
        using TL(2) by (simp add: noSpawning_def)
      show "\<forall>l' \<in> set (queriedLinks ?T). l' = l"
        by (rule ql) simp
      show "queriedLinks (takeWhile (\<lambda>e. e \<noteq> Ev_Step) ?T) = []"
        by (rule tw) simp_all
      show "length (samplesOf AngPos ?T) = (if c then 0 else count_list ?T Ev_Step)"
        by (rule ap) simp_all
      show "Ev_SetMaxStepSize dt \<in> set ?T"
        by simp
      show "case fst (stepping sim c dt l b s) of
          Inl e \<Rightarrow>
            (e = StepCountUndefined \<and> stepCount dt = None \<and> Ev_Step \<notin> set ?T) \<or>
            (e = SimTimeMismatch \<and> count_list ?T Ev_Step = nat \<lceil>simDuration / dt\<rceil> \<and>
             simTimes ?T \<noteq> [] \<and>
             \<not> ASSERT_NEAR (last (simTimes ?T) - b_t0 b) simDuration (dt * 1.1))
        | Inr u \<Rightarrow>
            count_list ?T Ev_Step = nat \<lceil>simDuration / dt\<rceil> \<and> simTimes ?T \<noteq> [] \<and>
            ASSERT_NEAR (last (simTimes ?T) - b_t0 b) simDuration (dt * 1.1) \<and>
            Ev_Record ''simTime'' (Scalar (last (simTimes ?T) - b_t0 b)) \<in> set ?T"
      proof -
        have cntT: "count_list ?T Ev_Step = nat \<lceil>simDuration / dt\<rceil>"
          by (rule cnt) simp
        have stT: "simTimes ?T \<noteq> []" "last (simTimes ?T) = ?now"
          using st [of "[]"] by simp_all
        show ?thesis
          unfolding res using False cntT stT(1)
          by (simp only: fst_conv sum.case stT(2) simp_thms)
      qed
    qed
  next
    case True
    let ?simTime = "?now - b_t0 b"
    let ?R = "[Ev_Record ''simTime'' (Scalar ?simTime),
                    Ev_Record ''timeRatio'' (Scalar ((fst ?r' - fst r) / ?simTime)),
                    Ev_Record ''energy0'' (Scalar (E0 c)),
                    Ev_Record ''energyError_'' (Signal (energyError (projr acc))),
                    Ev_Record ''angMomentum0'' (Scalar (b_H0mag b)),
                    Ev_Record ''angMomentumErr_'' (Signal (statMag (angularMomentumError (projr acc)))),
                    Ev_Record ''angPositionErr'' (Vector (angularPositionError (projr acc))),
                    Ev_Record ''linPositionErr_'' (Signal (statMag (linearPositionError (projr acc)))),
                    Ev_Record ''linVelocityErr_'' (Signal (statMag (linearVelocityError (projr acc))))]"
    let ?T = "?P @ TL @ (?TR @ ?R)"
    have res: "stepping sim c dt l b s =
        (Inr (), sl\<lparr>world := snd ?r', trace := trace sl @ ?TR @ ?R\<rparr>)"
      using True by (simp add: run report_eq Let_def)
    show ?thesis
    proof (intro exI [of _ ?T] conjI)
      show "trace (snd (stepping sim c dt l b s)) = trace s @ ?T"
        by (simp add: res tsl)
      show "noSpawning ?T"
        using TL(2) by (simp add: noSpawning_def)
      show "\<forall>l' \<in> set (queriedLinks ?T). l' = l"
        by (rule ql) simp
      show "queriedLinks (takeWhile (\<lambda>e. e \<noteq> Ev_Step) ?T) = []"
        by (rule tw) simp_all
      show "length (samplesOf AngPos ?T) = (if c then 0 else count_list ?T Ev_Step)"
        by (rule ap) simp_all
      show "Ev_SetMaxStepSize dt \<in> set ?T"
        by simp
      have "Ev_Record ''simTime'' (Scalar ?simTime) \<in> set ?T"
        by simp
      then show "case fst (stepping sim c dt l b s) of
          Inl e \<Rightarrow>
            (e = StepCountUndefined \<and> stepCount dt = None \<and> Ev_Step \<notin> set ?T) \<or>
            (e = SimTimeMismatch \<and> count_list ?T Ev_Step = nat \<lceil>simDuration / dt\<rceil> \<and>
             simTimes ?T \<noteq> [] \<and>
             \<not> ASSERT_NEAR (last (simTimes ?T) - b_t0 b) simDuration (dt * 1.1))
        | Inr u \<Rightarrow>
            count_list ?T Ev_Step = nat \<lceil>simDuration / dt\<rceil> \<and> simTimes ?T \<noteq> [] \<and>
            ASSERT_NEAR (last (simTimes ?T) - b_t0 b) simDuration (dt * 1.1) \<and>
            Ev_Record ''simTime'' (Scalar (last (simTimes ?T) - b_t0 b)) \<in> set ?T"
      proof -
        assume rec: "Ev_Record ''simTime'' (Scalar ?simTime) \<in> set ?T"
        have cntT: "count_list ?T Ev_Step = nat \<lceil>simDuration / dt\<rceil>"
          by (rule cnt) simp
        have stT: "simTimes ?T \<noteq> []" "last (simTimes ?T) = ?now"
          using st [of ?R] by simp_all
        show ?thesis
          unfolding res using True cntT stT(1) rec
          by (simp only: fst_conv sum.case stT(2) simp_thms)
      qed
    qed
  qed
qed

lemma BoxesOn_eq:
  "BoxesOn sim eng dt mc coll c s =
     (case initialise sim eng mc coll c s of
        (Inl e, s1) \<Rightarrow> (Inl e, s1)
      | (Inr (g, None), s1) \<Rightarrow> (Inl NullLinkDereferenced, s1)
      | (Inr (g, Some l), s1) \<Rightarrow>
          (case initialChecks sim c g l s1 of
             (Inl e, s2) \<Rightarrow> (Inl e, s2)
           | (Inr b, s2) \<Rightarrow> stepping sim c dt l b s2))"
  by (simp add: BoxesOn_def bind_def split: prod.splits sum.splits option.splits)

lemma Boxes_cases [case_names noWorld early mismatch stepped]:
  fixes sim :: "'w simulator"
  obtains
    (noWorld) "Load sim ''worlds/blank.world'' eng = None"
      "Boxes sim eng dt mc coll c = (Some WorldIsNull, [Ev_Load False])"
  | (early) e T1 where
      "Boxes sim eng dt mc coll c = (Some e, Ev_Load True # T1)"
      "noMeasurement T1"
      "linearVelsSet T1 = map (\<lambda>l. (l, v0 c)) (spawnedLinks T1)"
      "angularVelsSet T1 = map (\<lambda>l. (l, w0 c)) (spawnedLinks T1)"
      "mc \<le> 0 \<longrightarrow> spawnCalls T1 = []"
      "e \<in> {PhysicsIsNull, EngineTypeMismatch, ModelCountNotPositive, ModelIsNull, LinkIsNull}"
      "\<And>w. mc \<le> 0 \<Longrightarrow> Load sim ''worlds/blank.world'' eng = Some w \<Longrightarrow> Physics sim w \<Longrightarrow>
            GetType sim w = eng \<Longrightarrow> e = ModelCountNotPositive"
  | (mismatch) T1 l v av moi E t0 p H k e where
      "Boxes sim eng dt mc coll c =
         (Some e, Ev_Load True # T1 @
            take k [Ev_WorldCoGLinearVel l v, Ev_WorldAngularVel l av, Ev_MOI l moi,
                    Ev_GetWorldEnergy l E, Ev_SimTime t0, Ev_WorldInertialPose l p,
                    Ev_WorldAngularMomentum l H])"
      "noMeasurement T1"
      "linearVelsSet T1 = map (\<lambda>l. (l, v0 c)) (spawnedLinks T1)"
      "angularVelsSet T1 = map (\<lambda>l. (l, w0 c)) (spawnedLinks T1)"
      "0 < mc" "length (spawnedLinks T1) = nat mc" "l = last (spawnedLinks T1)"
      "(k = 1 \<and> e = LinearVelMismatch \<and> v \<noteq> v0 c) \<or>
       (k = 2 \<and> e = AngularVelMismatch \<and> v = v0 c \<and> av \<noteq> w0 c) \<or>
       (k = 3 \<and> e = InertiaMismatch \<and> v = v0 c \<and> av = w0 c \<and> moi \<noteq> I0) \<or>
       (k = 4 \<and> e = EnergyMismatch \<and> v = v0 c \<and> av = w0 c \<and> moi = I0 \<and>
          \<not> ASSERT_NEAR E (E0 c) 0.000001) \<or>
       (k = 7 \<and> e = AngularMomentumMismatch \<and> v = v0 c \<and> av = w0 c \<and> moi = I0 \<and>
          ASSERT_NEAR E (E0 c) 0.000001 \<and> H \<noteq> vmul (Vec Ixx Iyy Izz) (w0 c))"
  | (stepped) T1 l E t0 p T3 where
      "snd (Boxes sim eng dt mc coll c) =
         Ev_Load True # T1 @
           [Ev_WorldCoGLinearVel l (v0 c), Ev_WorldAngularVel l (w0 c), Ev_MOI l I0,
            Ev_GetWorldEnergy l E, Ev_SimTime t0, Ev_WorldInertialPose l p,
            Ev_WorldAngularMomentum l (vmul (Vec Ixx Iyy Izz) (w0 c))] @ T3"
      "noMeasurement T1"
      "linearVelsSet T1 = map (\<lambda>l. (l, v0 c)) (spawnedLinks T1)"
      "angularVelsSet T1 = map (\<lambda>l. (l, w0 c)) (spawnedLinks T1)"
      "0 < mc" "length (spawnedLinks T1) = nat mc" "l = last (spawnedLinks T1)"
      "ASSERT_NEAR E (E0 c) 0.000001"
      "noSpawning T3" "\<forall>l' \<in> set (queriedLinks T3). l' = l"
      "queriedLinks (takeWhile (\<lambda>e. e \<noteq> Ev_Step) T3) = []"
      "length (samplesOf AngPos T3) = (if c then 0 else count_list T3 Ev_Step)"
      "Ev_SetMaxStepSize dt \<in> set T3"
      "(fst (Boxes sim eng dt mc coll c) = Some StepCountUndefined \<and> stepCount dt = None \<and>
          Ev_Step \<notin> set T3) \<or>
       (fst (Boxes sim eng dt mc coll c) = Some SimTimeMismatch \<and>
          count_list T3 Ev_Step = nat \<lceil>simDuration / dt\<rceil> \<and> simTimes T3 \<noteq> [] \<and>
          \<not> ASSERT_NEAR (last (simTimes T3) - t0) simDuration (dt * 1.1)) \<or>
       (fst (Boxes sim eng dt mc coll c) = None \<and>
          count_list T3 Ev_Step = nat \<lceil>simDuration / dt\<rceil> \<and> simTimes T3 \<noteq> [] \<and>
          ASSERT_NEAR (last (simTimes T3) - t0) simDuration (dt * 1.1) \<and>
          Ev_Record ''simTime'' (Scalar (last (simTimes T3) - t0)) \<in> set T3)"
proof (cases "Load sim ''worlds/blank.world'' eng")
  case None
  then have "Boxes sim eng dt mc coll c = (Some WorldIsNull, [Ev_Load False])"
    by (simp add: Boxes_def)
  with None show ?thesis by (rule noWorld)
next
  case (Some w)
  define s0 where "s0 = \<lparr>world = w, trace = [Ev_Load True]\<rparr>"
  have top: "Boxes sim eng dt mc coll c =
      (case BoxesOn sim eng dt mc coll c s0 of
         (Inl e, s) \<Rightarrow> (Some e, trace s) | (Inr u, s) \<Rightarrow> (None, trace s))"
    by (simp add: Boxes_def Some s0_def)
  obtain ri s1 where ini: "initialise sim eng mc coll c s0 = (ri, s1)"
    by (cases "initialise sim eng mc coll c s0")
  obtain T1 where T1: "trace s1 = trace s0 @ T1" "noMeasurement T1"
    "linearVelsSet T1 = map (\<lambda>l. (l, v0 c)) (spawnedLinks T1)"
    "angularVelsSet T1 = map (\<lambda>l. (l, w0 c)) (spawnedLinks T1)"
    "mc \<le> 0 \<longrightarrow> spawnCalls T1 = []"
    and ri: "case ri of
          Inl e \<Rightarrow> e \<in> {PhysicsIsNull, EngineTypeMismatch, ModelCountNotPositive, ModelIsNull,
                         LinkIsNull} \<and>
                   (mc \<le> 0 \<and> Physics sim (world s0) \<and> GetType sim (world s0) = eng
                      \<longrightarrow> e = ModelCountNotPositive)
        | Inr (g, lk) \<Rightarrow> 0 < mc \<and> length (spawnedLinks T1) = nat mc \<and>
                   lk = Some (last (spawnedLinks T1))"
    using initialise_trace [of sim eng mc coll c s0] unfolding ini fst_conv snd_conv
    by (elim exE conjE) (rule that)
  have ts1: "trace s1 = Ev_Load True # T1"
    using T1(1) by (simp add: s0_def)
  show ?thesis
  proof (cases ri)
    case (Inl e)
    have f1: "Boxes sim eng dt mc coll c = (Some e, Ev_Load True # T1)"
      by (simp add: top BoxesOn_eq ini Inl ts1)
    have f2: "e \<in> {PhysicsIsNull, EngineTypeMismatch, ModelCountNotPositive, ModelIsNull, LinkIsNull}"
      using ri Inl by simp
    have f3: "e = ModelCountNotPositive"
      if "mc \<le> 0" "Load sim ''worlds/blank.world'' eng = Some w'" "Physics sim w'" "GetType sim w' = eng" for w'
      using ri Inl that Some by (simp add: s0_def)
    show ?thesis
      by (rule early [OF f1 T1(2) T1(3) T1(4) T1(5) f2]) (rule f3)
  next
    case (Inr q)
    obtain g lk where q: "q = (g, lk)" by (cases q)
    define l where "l = last (spawnedLinks T1)"
    have pos: "0 < mc" and len: "length (spawnedLinks T1) = nat mc" and lk: "lk = Some l"
      using ri by (simp_all add: Inr q l_def)
    define v where "v = WorldCoGLinearVel sim l (world s1)"
    define av where "av = WorldAngularVel sim l (world s1)"
    define moi where "moi = MOI sim l (world s1)"
    define E where "E = GetWorldEnergy sim l (world s1)"
    define t0 where "t0 = SimTime sim (world s1)"
    define p where "p = WorldInertialPose sim l (world s1)"
    define H where "H = WorldAngularMomentum sim l (world s1)"
    define L where "L = [Ev_WorldCoGLinearVel l v, Ev_WorldAngularVel l av, Ev_MOI l moi,
                    Ev_GetWorldEnergy l E, Ev_SimTime t0, Ev_WorldInertialPose l p,
                    Ev_WorldAngularMomentum l H]"
    define b where "b = \<lparr>b_g = g, b_t0 = t0, b_p0 = Pos p, b_H0 = H, b_H0mag = Length H\<rparr>"
    have chk: "initialChecks sim c g l s1 =
       (if v0 c \<noteq> v then (Inl LinearVelMismatch, s1\<lparr>trace := trace s1 @ take 1 L\<rparr>)
         else if w0 c \<noteq> av then (Inl AngularVelMismatch, s1\<lparr>trace := trace s1 @ take 2 L\<rparr>)
         else if I0 \<noteq> moi then (Inl InertiaMismatch, s1\<lparr>trace := trace s1 @ take 3 L\<rparr>)
         else if \<not> ASSERT_NEAR E (E0 c) 0.000001
           then (Inl EnergyMismatch, s1\<lparr>trace := trace s1 @ take 4 L\<rparr>)
         else if H \<noteq> vmul (Vec Ixx Iyy Izz) (w0 c)
           then (Inl AngularMomentumMismatch, s1\<lparr>trace := trace s1 @ L\<rparr>)
         else (Inr b, s1\<lparr>trace := trace s1 @ L\<rparr>))"
      unfolding initialChecks_eq Let_def v_def av_def moi_def E_def t0_def p_def H_def L_def b_def
      by (rule refl)
    have on: "BoxesOn sim eng dt mc coll c s0 =
        (case initialChecks sim c g l s1 of
             (Inl e, s2) \<Rightarrow> (Inl e, s2)
           | (Inr b, s2) \<Rightarrow> stepping sim c dt l b s2)"
      by (simp add: BoxesOn_eq ini Inr q lk)
    consider (k1) "v \<noteq> v0 c"
      | (k2) "v = v0 c" "av \<noteq> w0 c"
      | (k3) "v = v0 c" "av = w0 c" "moi \<noteq> I0"
      | (k4) "v = v0 c" "av = w0 c" "moi = I0" "\<not> ASSERT_NEAR E (E0 c) 0.000001"
      | (k7) "v = v0 c" "av = w0 c" "moi = I0" "ASSERT_NEAR E (E0 c) 0.000001"
             "H \<noteq> vmul (Vec Ixx Iyy Izz) (w0 c)"
      | (ok) "v = v0 c" "av = w0 c" "moi = I0" "ASSERT_NEAR E (E0 c) 0.000001"
             "H = vmul (Vec Ixx Iyy Izz) (w0 c)"
      by blast
    then show ?thesis
    proof cases
      case k1
      then have "Boxes sim eng dt mc coll c = (Some LinearVelMismatch, Ev_Load True # T1 @ take 1 L)"
        by (simp add: top on chk ts1 L_def)
      then show ?thesis
        unfolding L_def by (rule mismatch [OF _ T1(2) T1(3) T1(4) pos len l_def]) (use k1 in simp)
    next
      case k2
      then have "Boxes sim eng dt mc coll c = (Some AngularVelMismatch, Ev_Load True # T1 @ take 2 L)"
        by (simp add: top on chk ts1 L_def)
      then show ?thesis
        unfolding L_def by (rule mismatch [OF _ T1(2) T1(3) T1(4) pos len l_def]) (use k2 in simp)
    next
      case k3
      then have "Boxes sim eng dt mc coll c = (Some InertiaMismatch, Ev_Load True # T1 @ take 3 L)"
        by (simp add: top on chk ts1 L_def)
      then show ?thesis
        unfolding L_def by (rule mismatch [OF _ T1(2) T1(3) T1(4) pos len l_def]) (use k3 in simp)
    next
      case k4
      then have "Boxes sim eng dt mc coll c = (Some EnergyMismatch, Ev_Load True # T1 @ take 4 L)"
        by (simp add: top on chk ts1 L_def)
      then show ?thesis
        unfolding L_def by (rule mismatch [OF _ T1(2) T1(3) T1(4) pos len l_def]) (use k4 in simp)
    next
      case k7
      then have "Boxes sim eng dt mc coll c = (Some AngularMomentumMismatch, Ev_Load True # T1 @ take 7 L)"
        by (simp add: top on chk ts1 L_def)
      then show ?thesis
        unfolding L_def by (rule mismatch [OF _ T1(2) T1(3) T1(4) pos len l_def]) (use k7 in simp)
    next
      case ok
      define s2 where "s2 = s1\<lparr>trace := trace s1 @ L\<rparr>"
      have ts2: "trace s2 = Ev_Load True # T1 @ L"
        by (simp add: s2_def ts1)
      have on2: "BoxesOn sim eng dt mc coll c s0 = stepping sim c dt l b s2"
        using ok by (simp add: on chk s2_def)
      obtain rs s3 where stp: "stepping sim c dt l b s2 = (rs, s3)"
        by (cases "stepping sim c dt l b s2")
      have bt0: "b_t0 b = t0"
        by (simp add: b_def)
      obtain T3 where T3: "trace s3 = trace s2 @ T3" "noSpawning T3"
        "\<forall>l' \<in> set (queriedLinks T3). l' = l"
        "queriedLinks (takeWhile (\<lambda>e. e \<noteq> Ev_Step) T3) = []"
        "length (samplesOf AngPos T3) = (if c then 0 else count_list T3 Ev_Step)"
        "Ev_SetMaxStepSize dt \<in> set T3"
        and rs: "case rs of
          Inl e \<Rightarrow>
            (e = StepCountUndefined \<and> stepCount dt = None \<and> Ev_Step \<notin> set T3) \<or>
            (e = SimTimeMismatch \<and> count_list T3 Ev_Step = nat \<lceil>simDuration / dt\<rceil> \<and>
             simTimes T3 \<noteq> [] \<and>
             \<not> ASSERT_NEAR (last (simTimes T3) - t0) simDuration (dt * 1.1))
        | Inr u \<Rightarrow>
            count_list T3 Ev_Step = nat \<lceil>simDuration / dt\<rceil> \<and> simTimes T3 \<noteq> [] \<and>
            ASSERT_NEAR (last (simTimes T3) - t0) simDuration (dt * 1.1) \<and>
            Ev_Record ''simTime'' (Scalar (last (simTimes T3) - t0)) \<in> set T3"
        using stepping_trace [of sim c dt l b s2] unfolding stp fst_conv snd_conv bt0
        by (elim exE conjE) (rule that)
      have res: "Boxes sim eng dt mc coll c =
          (case rs of Inl e \<Rightarrow> Some e | Inr u \<Rightarrow> None, Ev_Load True # T1 @ L @ T3)"
        by (simp add: top on2 stp T3(1) ts2 split: sum.splits)
      have tr: "snd (Boxes sim eng dt mc coll c) =
         Ev_Load True # T1 @
           [Ev_WorldCoGLinearVel l (v0 c), Ev_WorldAngularVel l (w0 c), Ev_MOI l I0,
            Ev_GetWorldEnergy l E, Ev_SimTime t0, Ev_WorldInertialPose l p,
            Ev_WorldAngularMomentum l (vmul (Vec Ixx Iyy Izz) (w0 c))] @ T3"
        using ok by (simp add: res L_def)
      have verdict: "(fst (Boxes sim eng dt mc coll c) = Some StepCountUndefined \<and> stepCount dt = None \<and>
          Ev_Step \<notin> set T3) \<or>
       (fst (Boxes sim eng dt mc coll c) = Some SimTimeMismatch \<and>
          count_list T3 Ev_Step = nat \<lceil>simDuration / dt\<rceil> \<and> simTimes T3 \<noteq> [] \<and>
          \<not> ASSERT_NEAR (last (simTimes T3) - t0) simDuration (dt * 1.1)) \<or>
       (fst (Boxes sim eng dt mc coll c) = None \<and>
          count_list T3 Ev_Step = nat \<lceil>simDuration / dt\<rceil> \<and> simTimes T3 \<noteq> [] \<and>
          ASSERT_NEAR (last (simTimes T3) - t0) simDuration (dt * 1.1) \<and>
          Ev_Record ''simTime'' (Scalar (last (simTimes T3) - t0)) \<in> set T3)"
        using rs unfolding res fst_conv by (cases rs) auto
      show ?thesis
        by (rule stepped [OF tr T1(2) T1(3) T1(4) pos len l_def ok(4) T3(2) T3(3) T3(4) T3(5) T3(6) verdict])
    qed
  qed
qed

lemma obs_checks:
  "spawnedLinks (take k [Ev_WorldCoGLinearVel l v, Ev_WorldAngularVel l av, Ev_MOI l moi,
                    Ev_GetWorldEnergy l E, Ev_SimTime t0, Ev_WorldInertialPose l p,
                    Ev_WorldAngularMomentum l H]) = []"
  "linearVelsSet (take k [Ev_WorldCoGLinearVel l v, Ev_WorldAngularVel l av, Ev_MOI l moi,
                    Ev_GetWorldEnergy l E, Ev_SimTime t0, Ev_WorldInertialPose l p,
                    Ev_WorldAngularMomentum l H]) = []"
  "angularVelsSet (take k [Ev_WorldCoGLinearVel l v, Ev_WorldAngularVel l av, Ev_MOI l moi,
                    Ev_GetWorldEnergy l E, Ev_SimTime t0, Ev_WorldInertialPose l p,
                    Ev_WorldAngularMomentum l H]) = []"
  "spawnCalls (take k [Ev_WorldCoGLinearVel l v, Ev_WorldAngularVel l av, Ev_MOI l moi,
                    Ev_GetWorldEnergy l E, Ev_SimTime t0, Ev_WorldInertialPose l p,
                    Ev_WorldAngularMomentum l H]) = []"
  "samplesOf q (take k [Ev_WorldCoGLinearVel l v, Ev_WorldAngularVel l av, Ev_MOI l moi,
                    Ev_GetWorldEnergy l E, Ev_SimTime t0, Ev_WorldInertialPose l p,
                    Ev_WorldAngularMomentum l H]) = []"
  "Ev_Step \<notin> set (take k [Ev_WorldCoGLinearVel l v, Ev_WorldAngularVel l av, Ev_MOI l moi,
                    Ev_GetWorldEnergy l E, Ev_SimTime t0, Ev_WorldInertialPose l p,
                    Ev_WorldAngularMomentum l H])"
  "\<forall>l' \<in> set (queriedLinks (take k [Ev_WorldCoGLinearVel l v, Ev_WorldAngularVel l av, Ev_MOI l moi,
                    Ev_GetWorldEnergy l E, Ev_SimTime t0, Ev_WorldInertialPose l p,
                    Ev_WorldAngularMomentum l H])). l' = l"
  by (simp_all add: take_Cons' )

lemma in_queriedLinks:
  "Ev_WorldCoGLinearVel l v \<in> set T \<Longrightarrow> l \<in> set (queriedLinks T)"
  "Ev_WorldAngularVel l v \<in> set T \<Longrightarrow> l \<in> set (queriedLinks T)"
  "Ev_MOI l m \<in> set T \<Longrightarrow> l \<in> set (queriedLinks T)"
  "Ev_WorldAngularMomentum l v \<in> set T \<Longrightarrow> l \<in> set (queriedLinks T)"
  by (induction T) auto

lemma not_queried:
  assumes "queriedLinks T = []"
  shows "Ev_WorldCoGLinearVel l v \<notin> set T" "Ev_WorldAngularVel l v \<notin> set T"
    "Ev_MOI l m \<notin> set T" "Ev_WorldAngularMomentum l v \<notin> set T"
  using assms in_queriedLinks [of l _ T] in_queriedLinks(3) [of l m T] by fastforce+

lemma ceiling_steps_cover:
  assumes "0 < dt"
  shows "\<bar>of_int \<lceil>simDuration / dt\<rceil> * dt - simDuration\<bar> \<le> dt * 1.1"
proof -
  have 1: "simDuration / dt \<le> of_int \<lceil>simDuration / dt\<rceil>"
    by (rule le_of_int_ceiling)
  have 2: "of_int \<lceil>simDuration / dt\<rceil> < simDuration / dt + 1"
    using ceiling_correct [of "simDuration / dt"] by linarith
  have 3: "simDuration \<le> of_int \<lceil>simDuration / dt\<rceil> * dt"
    using mult_right_mono [OF 1, of dt] assms by simp
  have "of_int \<lceil>simDuration / dt\<rceil> * dt < (simDuration / dt + 1) * dt"
    using 2 assms by (rule mult_strict_right_mono)
  also have "\<dots> = simDuration + dt"
    using assms by (simp add: distrib_right)
  finally have 4: "of_int \<lceil>simDuration / dt\<rceil> * dt < simDuration + dt" .
  show ?thesis
    using 3 4 assms by (simp add: abs_le_iff)
qed

lemma ceiling_steps_imp:
  "0 < dt \<longrightarrow> \<bar>of_int \<lceil>simDuration / dt\<rceil> * dt - simDuration\<bar> \<le> dt * 1.1"
  using ceiling_steps_cover by blast

lemma sqrt_sum_squares_pos:
  fixes x y z :: real
  assumes "x \<noteq> 0 \<or> y \<noteq> 0 \<or> z \<noteq> 0"
  shows "0 < sqrt (x * x + y * y + z * z)"
proof -
  have "0 < x * x + y * y + z * z"
    using assms by (metis add_pos_nonneg add_nonneg_pos zero_le_square add_nonneg_nonneg
        mult_eq_0_iff less_le)
  then show ?thesis by simp
qed

lemma H0mag_pos: "0 < Length (vmul (Vec Ixx Iyy Izz) (w0 c))"
  unfolding Length_def
  by (rule sqrt_sum_squares_pos) (simp add: vmul_def w0_def Ixx_def Iyy_def Izz_def)

lemma beforeStepping_noStep: "Ev_Step \<notin> set T \<Longrightarrow> beforeStepping T = T"
  by (simp add: beforeStepping_def takeWhile_noStep)

lemma beforeStepping_append:
  "Ev_Step \<notin> set T \<Longrightarrow> beforeStepping (T @ T') = T @ takeWhile (\<lambda>e. e \<noteq> Ev_Step) T'"
  unfolding beforeStepping_def by (induction T) auto

lemma initialChecks_baseline:
  assumes "initialChecks sim c g l s0 = (Inr b', s1)"
  shows "b_g b' = g" "b_t0 b' = SimTime sim (world s0)"
    "b_p0 b' = Pos (WorldInertialPose sim l (world s0))"
    "b_H0 b' = WorldAngularMomentum sim l (world s0)" "b_H0mag b' = Length (b_H0 b')"
    "world s1 = world s0"
  using assms by (auto simp: initialChecks_eq Let_def split: if_splits)

section \<open>Running the test on the simulator of free flight\<close>

lemma bind_stepOnce:
  "bind (stepOnce sim c l b acc) k s =
     k (projr (fst (stepOnce sim c l b acc s))) (snd (stepOnce sim c l b acc s))"
proof -
  obtain acc' where a: "fst (stepOnce sim c l b acc s) = Inr acc'"
    using stepOnce_Inr by blast
  then have "stepOnce sim c l b acc s = (Inr acc', snd (stepOnce sim c l b acc s))"
    by (metis prod.collapse)
  then show ?thesis
    by (simp add: bind_Inr a)
qed

lemma testSim_sel:
  "Load (testSim r e) = (\<lambda>file eng. Some \<lparr>tw_engine = eng, tw_gravity = Vec 0 0 (-9.8), tw_time = 0,
                tw_maxStep = 0.001, tw_count = 0, tw_names = 0, tw_clock = 0,
                tw_position = (\<lambda>l. Zero), tw_linearVel = (\<lambda>l. Zero),
                tw_angularVel = (\<lambda>l. Zero)\<rparr>)"
  "Physics (testSim r e) = (\<lambda>w. True)"
  "GetType (testSim r e) = tw_engine"
  "SetGravity (testSim r e) = (\<lambda>g w. w\<lparr>tw_gravity := g\<rparr>)"
  "Gravity (testSim r e) = tw_gravity"
  "GetUniqueString (testSim r e) = (\<lambda>p w. (p @ replicate (tw_names w) CHR ''_'',
                                 w\<lparr>tw_names := Suc (tw_names w)\<rparr>))"
  "SpawnModel (testSim r e) = (\<lambda>msg w. (Some (tw_count w),
                      w\<lparr>tw_count := Suc (tw_count w),
                        tw_position := (tw_position w)(tw_count w := posePosition msg)\<rparr>))"
  "GetLink (testSim r e) = (\<lambda>m w. Some m)"
  "SetLinearVel (testSim r e) = (\<lambda>l v w. w\<lparr>tw_linearVel := (tw_linearVel w)(l := v)\<rparr>)"
  "SetAngularVel (testSim r e) = (\<lambda>l v w. w\<lparr>tw_angularVel := (tw_angularVel w)(l := v)\<rparr>)"
  "WorldCoGLinearVel (testSim r e) = (\<lambda>l w. vadd (tw_linearVel w l) (vscale (tw_gravity w) (tw_time w)))"
  "WorldAngularVel (testSim r e) = (\<lambda>l w. tw_angularVel w l)"
  "MOI (testSim r e) = (\<lambda>l w. I0)"
  "GetWorldEnergy (testSim r e) = (\<lambda>l w. e)"
  "WorldInertialPose (testSim r e) = (\<lambda>l w.
        \<lparr>Pos = vadd (vadd (tw_position w l) (vscale (tw_linearVel w l) (tw_time w)))
                 (vscale (vscale (sscale 0.5 (tw_gravity w)) (tw_time w)) (tw_time w)),
         Rot = Quaterniond (vscale (tw_angularVel w l) (tw_time w))\<rparr>)"
  "WorldAngularMomentum (testSim r e) = (\<lambda>l w. vmul (Vec Ixx Iyy Izz) (tw_angularVel w l))"
  "SimTime (testSim r e) = tw_time"
  "SetMaxStepSize (testSim r e) = (\<lambda>dt w. w\<lparr>tw_maxStep := dt\<rparr>)"
  "SetRealTimeUpdateRate (testSim r e) = (\<lambda>r w. w)"
  "GetWallTime (testSim r e) = (\<lambda>w. (tw_clock w, w\<lparr>tw_clock := tw_clock w + 1\<rparr>))"
  "Step (testSim r e) = (\<lambda>w. w\<lparr>tw_time := tw_time w + r * tw_maxStep w\<rparr>)"
  "Euler (testSim r e) = (\<lambda>q. Vec (Qx q) (Qy q) (Qz q))"
  by (simp_all add: testSim_def)

lemmas run_defs = Boxes_def BoxesOn_def initialise_def initialChecks_def stepping_def report_def
  bind_stepOnce stepOnce_eq spawnOnce_def boxMessage_def stepCount_def simDuration_def
  ASSERT_NEAR_def testSim_sel Let_def bind_assoc emit_def v0_def w0_def E0_def I0_def vec_ops
  Zero_def

section \<open>The stepping loop inside a run\<close>

text \<open>
  The lemmas of this section follow a run through its phases down to the stepping loop:
  the state \<open>s1\<close> in which the spawn loop ends, the baseline read in \<open>s1\<close>, the world in
  which the loop starts, and the trace and the accumulators the loop leaves.
\<close>

lemma initialise_gravity:
  assumes "initialise sim eng mc coll c s = (Inr (g, lk), s1)"
  shows "g = Gravity sim (if c then world s else SetGravity sim Zero (world s))"
  using assms
  by (cases c) (auto simp: initialise_def bind_then_ret split: if_splits prod.splits sum.splits)

lemma stepLoop_Inr: "\<exists>acc'. fst (stepLoop sim c l b n acc s) = Inr acc'"
  using stepLoop_acc [where proj = "\<lambda>x. ()" and upd = "\<lambda>x y. ()"] by fastforce

lemma report_records:
  "\<exists>T. trace (snd (report sim c dt b st acc s)) = trace s @ T \<and> Ev_Step \<notin> set T \<and>
       (\<forall>k. samplesOf k T = []) \<and> spawnedLinks T = [] \<and>
       (fst (report sim c dt b st acc s) = Inr () \<or>
        fst (report sim c dt b st acc s) = Inl SimTimeMismatch) \<and>
       (fst (report sim c dt b st acc s) = Inr () \<longrightarrow>
          Ev_Record ''energy0'' (Scalar (E0 c)) \<in> set T \<and>
          Ev_Record ''energyError_'' (Signal (energyError acc)) \<in> set T \<and>
          Ev_Record ''angMomentum0'' (Scalar (b_H0mag b)) \<in> set T \<and>
          Ev_Record ''angMomentumErr_'' (Signal (statMag (angularMomentumError acc))) \<in> set T \<and>
          Ev_Record ''angPositionErr'' (Vector (angularPositionError acc)) \<in> set T \<and>
          Ev_Record ''linPositionErr_'' (Signal (statMag (linearPositionError acc))) \<in> set T \<and>
          Ev_Record ''linVelocityErr_'' (Signal (statMag (linearVelocityError acc))) \<in> set T)"
  by (simp add: report_eq Let_def)

lemma Boxes_stepping_run:
  fixes sim :: "'w simulator"
  assumes ld: "Load sim ''worlds/blank.world'' eng = Some w"
    and ini: "initialise sim eng mc coll c \<lparr>world = w, trace = [Ev_Load True]\<rparr> = (Inr (g, Some l), s1)"
    and r1: "WorldCoGLinearVel sim l (world s1) = v0 c"
    and r2: "WorldAngularVel sim l (world s1) = w0 c"
    and r3: "MOI sim l (world s1) = I0"
    and r4: "\<bar>GetWorldEnergy sim l (world s1) - E0 c\<bar> \<le> 0.000001"
    and r5: "WorldAngularMomentum sim l (world s1) = vmul (Vec Ixx Iyy Izz) (w0 c)"
    and sc: "stepCount dt = Some steps"
  obtains s2 acc sL where
    "world s2 = snd (GetWallTime sim (SetRealTimeUpdateRate sim 0 (SetMaxStepSize sim dt (world s1))))"
    "\<And>k. samplesOf k (trace s2) = []"
    "stepLoop sim c l
       \<lparr>b_g = g, b_t0 = SimTime sim (world s1), b_p0 = Pos (WorldInertialPose sim l (world s1)),
        b_H0 = WorldAngularMomentum sim l (world s1),
        b_H0mag = Length (WorldAngularMomentum sim l (world s1))\<rparr>
       (nat steps) newErrorStats s2 = (Inr acc, sL)"
    "\<And>k. samplesOf k (snd (Boxes sim eng dt mc coll c)) = samplesOf k (trace sL)"
    "count_list (snd (Boxes sim eng dt mc coll c)) Ev_Step = nat steps"
    "fst (Boxes sim eng dt mc coll c) = None \<or>
     fst (Boxes sim eng dt mc coll c) = Some SimTimeMismatch"
    "fst (Boxes sim eng dt mc coll c) = None \<Longrightarrow>
       Ev_Record ''energy0'' (Scalar (E0 c)) \<in> set (snd (Boxes sim eng dt mc coll c)) \<and>
       Ev_Record ''energyError_'' (Signal (energyError acc))
         \<in> set (snd (Boxes sim eng dt mc coll c)) \<and>
       Ev_Record ''angMomentum0'' (Scalar (Length (WorldAngularMomentum sim l (world s1))))
         \<in> set (snd (Boxes sim eng dt mc coll c)) \<and>
       Ev_Record ''angMomentumErr_'' (Signal (statMag (angularMomentumError acc)))
         \<in> set (snd (Boxes sim eng dt mc coll c)) \<and>
       Ev_Record ''angPositionErr'' (Vector (angularPositionError acc))
         \<in> set (snd (Boxes sim eng dt mc coll c)) \<and>
       Ev_Record ''linPositionErr_'' (Signal (statMag (linearPositionError acc)))
         \<in> set (snd (Boxes sim eng dt mc coll c)) \<and>
       Ev_Record ''linVelocityErr_'' (Signal (statMag (linearVelocityError acc)))
         \<in> set (snd (Boxes sim eng dt mc coll c))"
    "l = last (spawnedLinks (snd (Boxes sim eng dt mc coll c)))"
    "g = Gravity sim (if c then w else SetGravity sim Zero w)"
proof -
  define s0 where "s0 = \<lparr>world = w, trace = [Ev_Load True]\<rparr>"
  define b where "b = \<lparr>b_g = g, b_t0 = SimTime sim (world s1),
      b_p0 = Pos (WorldInertialPose sim l (world s1)),
      b_H0 = WorldAngularMomentum sim l (world s1),
      b_H0mag = Length (WorldAngularMomentum sim l (world s1))\<rparr>"
  define L where "L = [Ev_WorldCoGLinearVel l (WorldCoGLinearVel sim l (world s1)),
      Ev_WorldAngularVel l (WorldAngularVel sim l (world s1)), Ev_MOI l (MOI sim l (world s1)),
      Ev_GetWorldEnergy l (GetWorldEnergy sim l (world s1)), Ev_SimTime (SimTime sim (world s1)),
      Ev_WorldInertialPose l (WorldInertialPose sim l (world s1)),
      Ev_WorldAngularMomentum l (WorldAngularMomentum sim l (world s1))]"
  define r where "r = GetWallTime sim (SetRealTimeUpdateRate sim 0 (SetMaxStepSize sim dt (world s1)))"
  define P where "P = [Ev_SetMaxStepSize dt, Ev_SetRealTimeUpdateRate 0, Ev_GetWallTime (fst r)]"
  define s2 where "s2 = s1\<lparr>world := snd r, trace := trace s1 @ L @ P\<rparr>"
  define loop where "loop = stepLoop sim c l b (nat steps) newErrorStats s2"
  define sL where "sL = snd loop"
  have ini0: "initialise sim eng mc coll c s0 = (Inr (g, Some l), s1)"
    using ini by (simp add: s0_def)
  obtain T1 where T1: "trace s1 = trace s0 @ T1" "noMeasurement T1"
    and lk: "Some l = Some (last (spawnedLinks T1))"
    using initialise_trace [of sim eng mc coll c s0] unfolding ini0 fst_conv snd_conv
    by auto
  have ts1: "trace s1 = Ev_Load True # T1"
    using T1(1) by (simp add: s0_def)
  have o1: "samplesOf k T1 = []" "Ev_Step \<notin> set T1" for k
    using noMeasurement_obs [OF T1(2), of k] by simp_all
  have chk: "initialChecks sim c g l s1 = (Inr b, s1\<lparr>trace := trace s1 @ L\<rparr>)"
    using r4 by (simp add: initialChecks_eq Let_def r1 r2 r3 r5 ASSERT_NEAR_def b_def L_def)
  have top: "Boxes sim eng dt mc coll c =
      (case BoxesOn sim eng dt mc coll c s0 of
         (Inl e, s) \<Rightarrow> (Some e, trace s) | (Inr u, s) \<Rightarrow> (None, trace s))"
    by (simp add: Boxes_def ld s0_def)
  have on: "BoxesOn sim eng dt mc coll c s0 = stepping sim c dt l b (s1\<lparr>trace := trace s1 @ L\<rparr>)"
    by (simp add: BoxesOn_eq ini0 chk)
  obtain acc where acc: "fst loop = Inr acc"
    using stepLoop_Inr [of sim c l b "nat steps" newErrorStats s2] unfolding loop_def by blast
  have lp: "stepLoop sim c l b (nat steps) newErrorStats s2 = (Inr acc, sL)"
    using acc unfolding loop_def sL_def by (metis prod.collapse)
  have stp: "stepping sim c dt l b (s1\<lparr>trace := trace s1 @ L\<rparr>) = report sim c dt b (fst r) acc sL"
    using lp [unfolded s2_def P_def r_def]
    by (simp add: stepping_eq sc Let_def r_def)
  obtain TL where TL: "trace sL = trace s2 @ TL" "noSpawning TL" "count_list TL Ev_Step = nat steps"
    using stepLoop_trace [of sim c l b "nat steps" newErrorStats s2] unfolding lp snd_conv
    by (elim exE conjE) (rule that)
  obtain TR where TR: "trace (snd (report sim c dt b (fst r) acc sL)) = trace sL @ TR"
    "Ev_Step \<notin> set TR" "\<And>k. samplesOf k TR = []" "spawnedLinks TR = []"
    and v: "fst (report sim c dt b (fst r) acc sL) = Inr () \<or>
            fst (report sim c dt b (fst r) acc sL) = Inl SimTimeMismatch"
    and rec: "fst (report sim c dt b (fst r) acc sL) = Inr () \<longrightarrow>
          Ev_Record ''energy0'' (Scalar (E0 c)) \<in> set TR \<and>
          Ev_Record ''energyError_'' (Signal (energyError acc)) \<in> set TR \<and>
          Ev_Record ''angMomentum0'' (Scalar (b_H0mag b)) \<in> set TR \<and>
          Ev_Record ''angMomentumErr_'' (Signal (statMag (angularMomentumError acc))) \<in> set TR \<and>
          Ev_Record ''angPositionErr'' (Vector (angularPositionError acc)) \<in> set TR \<and>
          Ev_Record ''linPositionErr_'' (Signal (statMag (linearPositionError acc))) \<in> set TR \<and>
          Ev_Record ''linVelocityErr_'' (Signal (statMag (linearVelocityError acc))) \<in> set TR"
    using report_records [of sim c dt b "fst r" acc sL] by (elim exE conjE) (rule that; blast)
  obtain rr sr where rep: "report sim c dt b (fst r) acc sL = (rr, sr)"
    by (cases "report sim c dt b (fst r) acc sL")
  have res: "Boxes sim eng dt mc coll c = (case rr of Inl e \<Rightarrow> Some e | Inr u \<Rightarrow> None, trace sL @ TR)"
    using TR(1) by (simp add: top on stp rep split: sum.splits)
  have tr: "snd (Boxes sim eng dt mc coll c) = trace sL @ TR"
    by (simp add: res)
  have ts2: "trace s2 = Ev_Load True # T1 @ L @ P"
    by (simp add: s2_def ts1)
  have c1: "world s2 = snd (GetWallTime sim (SetRealTimeUpdateRate sim 0 (SetMaxStepSize sim dt (world s1))))"
    by (simp add: s2_def r_def)
  have c2: "samplesOf k (trace s2) = []" for k
    unfolding ts2 using o1(1) [of k] by (simp add: L_def P_def)
  have c4: "samplesOf k (snd (Boxes sim eng dt mc coll c)) = samplesOf k (trace sL)" for k
    unfolding tr by (simp add: TR(3))
  have n2: "count_list (trace s2) Ev_Step = 0"
    unfolding ts2 using o1(2) by (simp add: L_def P_def count_list_0_iff)
  have c5: "count_list (snd (Boxes sim eng dt mc coll c)) Ev_Step = nat steps"
    unfolding tr TL(1) using n2 TL(3) TR(2) by (simp add: count_list_0_iff)
  have c6: "fst (Boxes sim eng dt mc coll c) = None \<or>
     fst (Boxes sim eng dt mc coll c) = Some SimTimeMismatch"
    using v unfolding rep res by auto
  have sub: "x \<in> set TR \<Longrightarrow> x \<in> set (snd (Boxes sim eng dt mc coll c))" for x
    unfolding tr by simp
  have c7: "Ev_Record ''energy0'' (Scalar (E0 c)) \<in> set (snd (Boxes sim eng dt mc coll c)) \<and>
       Ev_Record ''energyError_'' (Signal (energyError acc))
         \<in> set (snd (Boxes sim eng dt mc coll c)) \<and>
       Ev_Record ''angMomentum0'' (Scalar (Length (WorldAngularMomentum sim l (world s1))))
         \<in> set (snd (Boxes sim eng dt mc coll c)) \<and>
       Ev_Record ''angMomentumErr_'' (Signal (statMag (angularMomentumError acc)))
         \<in> set (snd (Boxes sim eng dt mc coll c)) \<and>
       Ev_Record ''angPositionErr'' (Vector (angularPositionError acc))
         \<in> set (snd (Boxes sim eng dt mc coll c)) \<and>
       Ev_Record ''linPositionErr_'' (Signal (statMag (linearPositionError acc)))
         \<in> set (snd (Boxes sim eng dt mc coll c)) \<and>
       Ev_Record ''linVelocityErr_'' (Signal (statMag (linearVelocityError acc)))
         \<in> set (snd (Boxes sim eng dt mc coll c))"
    if "fst (Boxes sim eng dt mc coll c) = None"
  proof -
    have "rr = Inr ()"
      using that unfolding res by (cases rr) simp_all
    then have "fst (report sim c dt b (fst r) acc sL) = Inr ()"
      by (simp add: rep)
    with rec have "Ev_Record ''energy0'' (Scalar (E0 c)) \<in> set TR \<and>
          Ev_Record ''energyError_'' (Signal (energyError acc)) \<in> set TR \<and>
          Ev_Record ''angMomentum0'' (Scalar (b_H0mag b)) \<in> set TR \<and>
          Ev_Record ''angMomentumErr_'' (Signal (statMag (angularMomentumError acc))) \<in> set TR \<and>
          Ev_Record ''angPositionErr'' (Vector (angularPositionError acc)) \<in> set TR \<and>
          Ev_Record ''linPositionErr_'' (Signal (statMag (linearPositionError acc))) \<in> set TR \<and>
          Ev_Record ''linVelocityErr_'' (Signal (statMag (linearVelocityError acc))) \<in> set TR"
      by blast
    moreover have "b_H0mag b = Length (WorldAngularMomentum sim l (world s1))"
      by (simp add: b_def)
    ultimately show ?thesis
      using sub by simp
  qed
  have "spawnedLinks (snd (Boxes sim eng dt mc coll c)) = spawnedLinks T1"
    unfolding tr TL(1) ts2 using noSpawning_obs [OF TL(2)] TR(4) by (simp add: L_def P_def)
  then have c8: "l = last (spawnedLinks (snd (Boxes sim eng dt mc coll c)))"
    using lk by simp
  have c9: "g = Gravity sim (if c then w else SetGravity sim Zero w)"
    using initialise_gravity [OF ini] by simp
  show ?thesis
    by (rule that [OF c1 c2 lp [unfolded b_def] c4 c5 c6 c7 c8 c9])
qed

lemma Boxes_run_cases [case_names aborted steps]:
  fixes sim :: "'w simulator"
  obtains
    (aborted) "Ev_Step \<notin> set (snd (Boxes sim eng dt mc coll c))"
      "\<And>k. samplesOf k (snd (Boxes sim eng dt mc coll c)) = []"
  | (steps) w g l s1 steps where
      "Load sim ''worlds/blank.world'' eng = Some w"
      "initialise sim eng mc coll c \<lparr>world = w, trace = [Ev_Load True]\<rparr> = (Inr (g, Some l), s1)"
      "WorldCoGLinearVel sim l (world s1) = v0 c"
      "WorldAngularVel sim l (world s1) = w0 c"
      "MOI sim l (world s1) = I0"
      "\<bar>GetWorldEnergy sim l (world s1) - E0 c\<bar> \<le> 0.000001"
      "WorldAngularMomentum sim l (world s1) = vmul (Vec Ixx Iyy Izz) (w0 c)"
      "stepCount dt = Some steps"
proof (cases "Load sim ''worlds/blank.world'' eng")
  case None
  then have "Boxes sim eng dt mc coll c = (Some WorldIsNull, [Ev_Load False])"
    by (simp add: Boxes_def)
  then show ?thesis
    by (intro aborted) simp_all
next
  case (Some w)
  define s0 where "s0 = \<lparr>world = w, trace = [Ev_Load True]\<rparr>"
  have top: "Boxes sim eng dt mc coll c =
      (case BoxesOn sim eng dt mc coll c s0 of
         (Inl e, s) \<Rightarrow> (Some e, trace s) | (Inr u, s) \<Rightarrow> (None, trace s))"
    by (simp add: Boxes_def Some s0_def)
  obtain ri s1 where ini: "initialise sim eng mc coll c s0 = (ri, s1)"
    by (cases "initialise sim eng mc coll c s0")
  obtain T1 where T1: "trace s1 = trace s0 @ T1" "noMeasurement T1"
    "linearVelsSet T1 = map (\<lambda>l. (l, v0 c)) (spawnedLinks T1)"
    "angularVelsSet T1 = map (\<lambda>l. (l, w0 c)) (spawnedLinks T1)"
    "mc \<le> 0 \<longrightarrow> spawnCalls T1 = []"
    and ri: "case ri of
          Inl e \<Rightarrow> e \<in> {PhysicsIsNull, EngineTypeMismatch, ModelCountNotPositive, ModelIsNull,
                         LinkIsNull} \<and>
                   (mc \<le> 0 \<and> Physics sim (world s0) \<and> GetType sim (world s0) = eng
                      \<longrightarrow> e = ModelCountNotPositive)
        | Inr (g, lk) \<Rightarrow> 0 < mc \<and> length (spawnedLinks T1) = nat mc \<and>
                   lk = Some (last (spawnedLinks T1))"
    using initialise_trace [of sim eng mc coll c s0] unfolding ini fst_conv snd_conv
    by (elim exE conjE) (rule that)
  have ts1: "trace s1 = Ev_Load True # T1"
    using T1(1) by (simp add: s0_def)
  have o1: "samplesOf k T1 = []" "Ev_Step \<notin> set T1" for k
    using noMeasurement_obs [OF T1(2), of k] by simp_all
  show ?thesis
  proof (cases ri)
    case (Inl e)
    have "Boxes sim eng dt mc coll c = (Some e, Ev_Load True # T1)"
      by (simp add: top BoxesOn_eq ini Inl ts1)
    then show ?thesis
      using o1 by (intro aborted) simp_all
  next
    case (Inr q)
    obtain g lk where q: "q = (g, lk)" by (cases q)
    define l where "l = last (spawnedLinks T1)"
    have lk: "lk = Some l"
      using ri by (simp add: Inr q l_def)
    have ini': "initialise sim eng mc coll c \<lparr>world = w, trace = [Ev_Load True]\<rparr> = (Inr (g, Some l), s1)"
      using ini by (simp add: Inr q lk s0_def)
    define L where "L = [Ev_WorldCoGLinearVel l (WorldCoGLinearVel sim l (world s1)),
      Ev_WorldAngularVel l (WorldAngularVel sim l (world s1)), Ev_MOI l (MOI sim l (world s1)),
      Ev_GetWorldEnergy l (GetWorldEnergy sim l (world s1)), Ev_SimTime (SimTime sim (world s1)),
      Ev_WorldInertialPose l (WorldInertialPose sim l (world s1)),
      Ev_WorldAngularMomentum l (WorldAngularMomentum sim l (world s1))]"
    have oL: "samplesOf k (take n L) = []" "Ev_Step \<notin> set (take n L)" for k n
      unfolding L_def by (rule obs_checks)+
    have on: "BoxesOn sim eng dt mc coll c s0 =
        (case initialChecks sim c g l s1 of
             (Inl e, s2) \<Rightarrow> (Inl e, s2)
           | (Inr b, s2) \<Rightarrow> stepping sim c dt l b s2)"
      by (simp add: BoxesOn_eq ini Inr q lk)
    show ?thesis
    proof (cases "WorldCoGLinearVel sim l (world s1) = v0 c \<and>
        WorldAngularVel sim l (world s1) = w0 c \<and> MOI sim l (world s1) = I0 \<and>
        \<bar>GetWorldEnergy sim l (world s1) - E0 c\<bar> \<le> 0.000001 \<and>
        WorldAngularMomentum sim l (world s1) = vmul (Vec Ixx Iyy Izz) (w0 c)")
      case False
      then consider (k1) "v0 c \<noteq> WorldCoGLinearVel sim l (world s1)"
        | (k2) "v0 c = WorldCoGLinearVel sim l (world s1)"
               "w0 c \<noteq> WorldAngularVel sim l (world s1)"
        | (k3) "v0 c = WorldCoGLinearVel sim l (world s1)"
               "w0 c = WorldAngularVel sim l (world s1)" "I0 \<noteq> MOI sim l (world s1)"
        | (k4) "v0 c = WorldCoGLinearVel sim l (world s1)"
               "w0 c = WorldAngularVel sim l (world s1)" "I0 = MOI sim l (world s1)"
               "\<not> \<bar>GetWorldEnergy sim l (world s1) - E0 c\<bar> \<le> 0.000001"
        | (k7) "v0 c = WorldCoGLinearVel sim l (world s1)"
               "w0 c = WorldAngularVel sim l (world s1)" "I0 = MOI sim l (world s1)"
               "\<bar>GetWorldEnergy sim l (world s1) - E0 c\<bar> \<le> 0.000001"
               "WorldAngularMomentum sim l (world s1) \<noteq> vmul (Vec Ixx Iyy Izz) (w0 c)"
        by metis
      then have "\<exists>e n. initialChecks sim c g l s1 = (Inl e, s1\<lparr>trace := trace s1 @ take n L\<rparr>)"
      proof cases
        case k1
        then have "initialChecks sim c g l s1 =
            (Inl LinearVelMismatch, s1\<lparr>trace := trace s1 @ take 1 L\<rparr>)"
          by (simp add: initialChecks_eq Let_def ASSERT_NEAR_def L_def)
        then show ?thesis by blast
      next
        case k2
        then have "initialChecks sim c g l s1 =
            (Inl AngularVelMismatch, s1\<lparr>trace := trace s1 @ take 2 L\<rparr>)"
          by (simp add: initialChecks_eq Let_def ASSERT_NEAR_def L_def)
        then show ?thesis by blast
      next
        case k3
        then have "initialChecks sim c g l s1 =
            (Inl InertiaMismatch, s1\<lparr>trace := trace s1 @ take 3 L\<rparr>)"
          by (simp add: initialChecks_eq Let_def ASSERT_NEAR_def L_def)
        then show ?thesis by blast
      next
        case k4
        then have "initialChecks sim c g l s1 =
            (Inl EnergyMismatch, s1\<lparr>trace := trace s1 @ take 4 L\<rparr>)"
          by (simp add: initialChecks_eq Let_def ASSERT_NEAR_def L_def)
        then show ?thesis by blast
      next
        case k7
        then have "initialChecks sim c g l s1 =
            (Inl AngularMomentumMismatch, s1\<lparr>trace := trace s1 @ take 7 L\<rparr>)"
          by (simp add: initialChecks_eq Let_def ASSERT_NEAR_def L_def)
        then show ?thesis by blast
      qed
      then obtain e n where "initialChecks sim c g l s1 = (Inl e, s1\<lparr>trace := trace s1 @ take n L\<rparr>)"
        by blast
      then have "Boxes sim eng dt mc coll c = (Some e, Ev_Load True # T1 @ take n L)"
        by (simp add: top on ts1)
      then show ?thesis
        using o1 oL by (intro aborted) simp_all
    next
      case True
      show ?thesis
      proof (cases "stepCount dt")
        case (Some steps)
        show ?thesis
          using True by (intro steps [OF \<open>Load sim ''worlds/blank.world'' eng = Some w\<close> ini' _ _ _ _ _ Some]) simp_all
      next
        case None
        define b where "b = \<lparr>b_g = g, b_t0 = SimTime sim (world s1),
          b_p0 = Pos (WorldInertialPose sim l (world s1)),
          b_H0 = WorldAngularMomentum sim l (world s1),
          b_H0mag = Length (WorldAngularMomentum sim l (world s1))\<rparr>"
        have chk: "initialChecks sim c g l s1 = (Inr b, s1\<lparr>trace := trace s1 @ L\<rparr>)"
          using True by (simp add: initialChecks_eq Let_def ASSERT_NEAR_def b_def L_def)
        have "Boxes sim eng dt mc coll c =
            (Some StepCountUndefined, Ev_Load True # T1 @ L @ [Ev_SetMaxStepSize dt])"
          by (simp add: top on chk stepping_eq None ts1)
        then show ?thesis
          using o1 by (intro aborted) (simp_all add: L_def)
      qed
    qed
  qed
qed

lemma stepLoop_conserved_samples:
  "samplesOf AngMom (trace (snd (stepLoop sim c l b n acc s))) =
     samplesOf AngMom (trace s) @
     map (\<lambda>i. V (vdiv (vsub (WorldAngularMomentum sim l ((Step sim ^^ Suc i) (world s))) (b_H0 b))
                      (b_H0mag b))) [0..<n] \<and>
   samplesOf Energy (trace (snd (stepLoop sim c l b n acc s))) =
     samplesOf Energy (trace s) @
     map (\<lambda>i. S ((GetWorldEnergy sim l ((Step sim ^^ Suc i) (world s)) - E0 c) / E0 c)) [0..<n] \<and>
   (\<exists>acc'. fst (stepLoop sim c l b n acc s) = Inr acc' \<and>
      angularMomentumError acc' =
        foldl InsertDataV (angularMomentumError acc)
          (map (\<lambda>i. vdiv (vsub (WorldAngularMomentum sim l ((Step sim ^^ Suc i) (world s))) (b_H0 b))
                      (b_H0mag b)) [0..<n]) \<and>
      energyError acc' =
        foldl InsertData (energyError acc)
          (map (\<lambda>i. (GetWorldEnergy sim l ((Step sim ^^ Suc i) (world s)) - E0 c) / E0 c) [0..<n]))"
proof -
  let ?h = "\<lambda>w. vdiv (vsub (WorldAngularMomentum sim l w) (b_H0 b)) (b_H0mag b)"
  let ?e = "\<lambda>w. (GetWorldEnergy sim l w - E0 c) / E0 c"
  have 1: "samplesOf AngMom (trace (snd (stepLoop sim c l b n acc s))) =
     samplesOf AngMom (trace s) @ concat (map (\<lambda>i. [V (?h ((Step sim ^^ Suc i) (world s)))]) [0..<n])"
    by (rule stepLoop_samples) (simp add: stepOnce_eq Let_def)
  have 2: "samplesOf Energy (trace (snd (stepLoop sim c l b n acc s))) =
     samplesOf Energy (trace s) @ concat (map (\<lambda>i. [S (?e ((Step sim ^^ Suc i) (world s)))]) [0..<n])"
    by (rule stepLoop_samples) (simp add: stepOnce_eq Let_def)
  have 3: "\<exists>acc'. fst (stepLoop sim c l b n acc s) = Inr acc' \<and>
      (\<lambda>a. (angularMomentumError a, energyError a)) acc' =
        foldl (\<lambda>p w. (InsertDataV (fst p) (?h w), InsertData (snd p) (?e w)))
          ((\<lambda>a. (angularMomentumError a, energyError a)) acc)
          (map (\<lambda>i. (Step sim ^^ Suc i) (world s)) [0..<n])"
    by (rule stepLoop_acc) (simp add: stepOnce_eq Let_def)
  have 4: "foldl (\<lambda>p w. (InsertDataV (fst p) (?h w), InsertData (snd p) (?e w))) (x, y) ws =
        (foldl InsertDataV x (map ?h ws), foldl InsertData y (map ?e ws))" for x y ws
    by (induction ws arbitrary: x y) simp_all
  from 3 obtain acc' where a: "fst (stepLoop sim c l b n acc s) = Inr acc'"
    and b: "angularMomentumError acc' = foldl InsertDataV (angularMomentumError acc)
              (map ?h (map (\<lambda>i. (Step sim ^^ Suc i) (world s)) [0..<n]))"
           "energyError acc' = foldl InsertData (energyError acc)
              (map ?e (map (\<lambda>i. (Step sim ^^ Suc i) (world s)) [0..<n]))"
    unfolding 4 by auto
  have acc: "\<exists>acc'. fst (stepLoop sim c l b n acc s) = Inr acc' \<and>
      angularMomentumError acc' =
        foldl InsertDataV (angularMomentumError acc)
          (map (\<lambda>i. ?h ((Step sim ^^ Suc i) (world s))) [0..<n]) \<and>
      energyError acc' =
        foldl InsertData (energyError acc)
          (map (\<lambda>i. ?e ((Step sim ^^ Suc i) (world s))) [0..<n])"
    using a b by (simp add: o_def)
  have s1: "samplesOf AngMom (trace (snd (stepLoop sim c l b n acc s))) =
     samplesOf AngMom (trace s) @ map (\<lambda>i. V (?h ((Step sim ^^ Suc i) (world s)))) [0..<n]"
    using 1 by (simp add: concat_map_singleton)
  have s2: "samplesOf Energy (trace (snd (stepLoop sim c l b n acc s))) =
     samplesOf Energy (trace s) @ map (\<lambda>i. S (?e ((Step sim ^^ Suc i) (world s)))) [0..<n]"
    using 2 by (simp add: concat_map_singleton)
  show ?thesis
    by (rule conjI [OF s1 conjI [OF s2 acc]])
qed

lemma stepLoop_linear_samples:
  "samplesOf LinVel (trace (snd (stepLoop sim c l b n acc s))) =
     samplesOf LinVel (trace s) @
     map (\<lambda>i. let w = (Step sim ^^ Suc i) (world s); t = SimTime sim w - b_t0 b
               in V (vsub (WorldCoGLinearVel sim l w) (vadd (v0 c) (vscale (b_g b) t)))) [0..<n] \<and>
   samplesOf LinPos (trace (snd (stepLoop sim c l b n acc s))) =
     samplesOf LinPos (trace s) @
     map (\<lambda>i. let w = (Step sim ^^ Suc i) (world s); t = SimTime sim w - b_t0 b
               in V (vsub (Pos (WorldInertialPose sim l w))
                      (vadd (vadd (b_p0 b) (vscale (v0 c) t))
                            (sscale (1/2) (vscale (b_g b) (t\<^sup>2)))))) [0..<n]"
proof -
  let ?v = "\<lambda>w. V (vsub (WorldCoGLinearVel sim l w)
                  (vadd (v0 c) (vscale (b_g b) (SimTime sim w - b_t0 b))))"
  let ?p = "\<lambda>w. V (vsub (Pos (WorldInertialPose sim l w))
                  (vadd (vadd (b_p0 b) (vscale (v0 c) (SimTime sim w - b_t0 b)))
                        (sscale (1/2) (vscale (b_g b) ((SimTime sim w - b_t0 b)\<^sup>2)))))"
  have 1: "samplesOf LinVel (trace (snd (stepLoop sim c l b n acc s))) =
     samplesOf LinVel (trace s) @ concat (map (\<lambda>i. [?v ((Step sim ^^ Suc i) (world s))]) [0..<n])"
    by (rule stepLoop_samples) (simp add: stepOnce_eq Let_def)
  have 2: "samplesOf LinPos (trace (snd (stepLoop sim c l b n acc s))) =
     samplesOf LinPos (trace s) @ concat (map (\<lambda>i. [?p ((Step sim ^^ Suc i) (world s))]) [0..<n])"
    by (rule stepLoop_samples) (simp add: stepOnce_eq Let_def half_g_t_t [symmetric])
  have s1: "samplesOf LinVel (trace (snd (stepLoop sim c l b n acc s))) =
     samplesOf LinVel (trace s) @
     map (\<lambda>i. let w = (Step sim ^^ Suc i) (world s); t = SimTime sim w - b_t0 b
               in V (vsub (WorldCoGLinearVel sim l w) (vadd (v0 c) (vscale (b_g b) t)))) [0..<n]"
    using 1 by (simp add: Let_def concat_map_singleton)
  have s2: "samplesOf LinPos (trace (snd (stepLoop sim c l b n acc s))) =
     samplesOf LinPos (trace s) @
     map (\<lambda>i. let w = (Step sim ^^ Suc i) (world s); t = SimTime sim w - b_t0 b
               in V (vsub (Pos (WorldInertialPose sim l w))
                      (vadd (vadd (b_p0 b) (vscale (v0 c) t))
                            (sscale (1/2) (vscale (b_g b) (t\<^sup>2)))))) [0..<n]"
    using 2 by (simp add: Let_def concat_map_singleton)
  show ?thesis
    by (rule conjI [OF s1 s2])
qed

lemma stepLoop_angular_samples:
  "samplesOf AngPos (trace (snd (stepLoop sim True l b n acc s))) = samplesOf AngPos (trace s) \<and>
   samplesOf AngPos (trace (snd (stepLoop sim False l b n acc s))) =
     samplesOf AngPos (trace s) @
     map (\<lambda>i. let w = (Step sim ^^ Suc i) (world s); t = SimTime sim w - b_t0 b
               in V (vsub (Euler sim (Rot (WorldInertialPose sim l w)))
                      (Euler sim (rotationAbout (vdiv (w0 False) (Length (w0 False)))
                                                 (Length (w0 False) * t))))) [0..<n]"
proof -
  let ?a = "\<lambda>w. V (vsub (Euler sim (Rot (WorldInertialPose sim l w)))
                  (Euler sim (rotationAbout (vdiv (w0 False) (Length (w0 False)))
                                             (Length (w0 False) * (SimTime sim w - b_t0 b)))))"
  have 1: "samplesOf AngPos (trace (snd (stepLoop sim True l b n acc s))) =
     samplesOf AngPos (trace s) @ concat (map (\<lambda>i. []) [0..<n])"
    by (rule stepLoop_samples) (simp add: stepOnce_eq Let_def)
  have 2: "samplesOf AngPos (trace (snd (stepLoop sim False l b n acc s))) =
     samplesOf AngPos (trace s) @ concat (map (\<lambda>i. [?a ((Step sim ^^ Suc i) (world s))]) [0..<n])"
    by (rule stepLoop_samples) (simp add: stepOnce_eq Let_def Quaterniond_rotation)
  show ?thesis
    using 1 2 by (simp add: Let_def concat_map_singleton)
qed

lemma maxAbs_signal_fold:
  "maxAbs (foldl InsertData newSignalStats xs) = Max (insert 0 (abs ` set xs))"
  by (simp add: maxAbs_foldl newSignalStats_def)

lemma maxAbs_vector_fold:
  "maxAbs (statMag (foldl InsertDataV newVector3Stats vs)) = Max (insert 0 (Length ` set vs))"
  by (simp add: statMag_foldl maxAbs_foldl newVector3Stats_def newSignalStats_def image_image)

lemma worldAtStep_eq:
  "(Step sim ^^ Suc i)
     (snd (GetWallTime sim (SetRealTimeUpdateRate sim 0 (SetMaxStepSize sim dt w)))) =
   worldAtStep sim dt w i"
  by (simp add: worldAtStep_def loopStart_def)

lemma testRun_ready:
  "Load (testSim r e) ''worlds/blank.world'' eng =
     Some \<lparr>tw_engine = eng, tw_gravity = Vec 0 0 (-9.8), tw_time = 0,
                tw_maxStep = 0.001, tw_count = 0, tw_names = 0, tw_clock = 0,
                tw_position = (\<lambda>l. Zero), tw_linearVel = (\<lambda>l. Zero),
                tw_angularVel = (\<lambda>l. Zero)\<rparr>"
  by (simp add: testSim_sel)

lemma Boxes_conserved_run:
  fixes sim :: "'w simulator"
  assumes "Load sim ''worlds/blank.world'' eng = Some w"
    and "initialise sim eng mc coll c \<lparr>world = w, trace = [Ev_Load True]\<rparr> = (Inr (g, Some l), s1)"
    and "WorldCoGLinearVel sim l (world s1) = v0 c"
    and "WorldAngularVel sim l (world s1) = w0 c"
    and "MOI sim l (world s1) = I0"
    and "\<bar>GetWorldEnergy sim l (world s1) - E0 c\<bar> \<le> 0.000001"
    and "WorldAngularMomentum sim l (world s1) = vmul (Vec Ixx Iyy Izz) (w0 c)"
    and sc: "stepCount dt = Some steps"
  shows "count_list (snd (Boxes sim eng dt mc coll c)) Ev_Step = nat steps"
    and "samplesOf AngMom (snd (Boxes sim eng dt mc coll c)) =
      map V (map (\<lambda>i. vdiv (vsub (WorldAngularMomentum sim l (worldAtStep sim dt (world s1) i))
                                (WorldAngularMomentum sim l (world s1)))
                          (Length (WorldAngularMomentum sim l (world s1)))) [0..<nat steps])"
    and "samplesOf Energy (snd (Boxes sim eng dt mc coll c)) =
      map S (map (\<lambda>i. (GetWorldEnergy sim l (worldAtStep sim dt (world s1) i) - E0 c) / E0 c)
               [0..<nat steps])"
    and "fst (Boxes sim eng dt mc coll c) = None \<longrightarrow>
      Ev_Record ''angMomentumErr_'' (Signal (statMag (foldl InsertDataV newVector3Stats
          (map (\<lambda>i. vdiv (vsub (WorldAngularMomentum sim l (worldAtStep sim dt (world s1) i))
                                (WorldAngularMomentum sim l (world s1)))
                          (Length (WorldAngularMomentum sim l (world s1)))) [0..<nat steps]))))
        \<in> set (snd (Boxes sim eng dt mc coll c)) \<and>
      Ev_Record ''energyError_'' (Signal (foldl InsertData newSignalStats
          (map (\<lambda>i. (GetWorldEnergy sim l (worldAtStep sim dt (world s1) i) - E0 c) / E0 c)
               [0..<nat steps])))
        \<in> set (snd (Boxes sim eng dt mc coll c))"
proof -
  let ?B = "Boxes sim eng dt mc coll c"
  let ?H0 = "WorldAngularMomentum sim l (world s1)"
  let ?b = "\<lparr>b_g = g, b_t0 = SimTime sim (world s1), b_p0 = Pos (WorldInertialPose sim l (world s1)),
        b_H0 = ?H0, b_H0mag = Length ?H0\<rparr>"
  let ?hs = "map (\<lambda>i. vdiv (vsub (WorldAngularMomentum sim l (worldAtStep sim dt (world s1) i)) ?H0)
                              (Length ?H0)) [0..<nat steps]"
  let ?es = "map (\<lambda>i. (GetWorldEnergy sim l (worldAtStep sim dt (world s1) i) - E0 c) / E0 c)
                      [0..<nat steps]"
  have "count_list (snd ?B) Ev_Step = nat steps \<and> samplesOf AngMom (snd ?B) = map V ?hs \<and>
      samplesOf Energy (snd ?B) = map S ?es \<and>
      (fst ?B = None \<longrightarrow>
        Ev_Record ''angMomentumErr_'' (Signal (statMag (foldl InsertDataV newVector3Stats ?hs)))
          \<in> set (snd ?B) \<and>
        Ev_Record ''energyError_'' (Signal (foldl InsertData newSignalStats ?es)) \<in> set (snd ?B))"
  proof (rule Boxes_stepping_run [OF assms(1-7) sc])
    fix s2 acc sL
    assume run:
      "world s2 = snd (GetWallTime sim (SetRealTimeUpdateRate sim 0 (SetMaxStepSize sim dt (world s1))))"
      "\<And>k. samplesOf k (trace s2) = []"
      "stepLoop sim c l ?b (nat steps) newErrorStats s2 = (Inr acc, sL)"
      "\<And>k. samplesOf k (snd ?B) = samplesOf k (trace sL)"
      "count_list (snd ?B) Ev_Step = nat steps"
      and rec: "fst ?B = None \<Longrightarrow>
         Ev_Record ''energy0'' (Scalar (E0 c)) \<in> set (snd ?B) \<and>
         Ev_Record ''energyError_'' (Signal (energyError acc)) \<in> set (snd ?B) \<and>
         Ev_Record ''angMomentum0'' (Scalar (Length ?H0)) \<in> set (snd ?B) \<and>
         Ev_Record ''angMomentumErr_'' (Signal (statMag (angularMomentumError acc))) \<in> set (snd ?B) \<and>
         Ev_Record ''angPositionErr'' (Vector (angularPositionError acc)) \<in> set (snd ?B) \<and>
         Ev_Record ''linPositionErr_'' (Signal (statMag (linearPositionError acc))) \<in> set (snd ?B) \<and>
         Ev_Record ''linVelocityErr_'' (Signal (statMag (linearVelocityError acc))) \<in> set (snd ?B)"
    note loop = stepLoop_conserved_samples [of sim c l ?b "nat steps" newErrorStats s2]
    have a1: "samplesOf AngMom (snd ?B) = map V ?hs"
      using loop unfolding run(3) snd_conv run(1) run(2) worldAtStep_eq
      by (simp add: run(4) o_def)
    have a2: "samplesOf Energy (snd ?B) = map S ?es"
      using loop unfolding run(3) snd_conv run(1) run(2) worldAtStep_eq
      by (simp add: run(4) o_def)
    have a3: "angularMomentumError acc = foldl InsertDataV newVector3Stats ?hs"
      "energyError acc = foldl InsertData newSignalStats ?es"
      using loop unfolding run(3) fst_conv run(1) worldAtStep_eq
      by (simp_all add: newErrorStats_def)
    have a4: "fst ?B = None \<longrightarrow>
        Ev_Record ''angMomentumErr_'' (Signal (statMag (foldl InsertDataV newVector3Stats ?hs)))
          \<in> set (snd ?B) \<and>
        Ev_Record ''energyError_'' (Signal (foldl InsertData newSignalStats ?es)) \<in> set (snd ?B)"
      using rec unfolding a3 by blast
    show ?thesis
      by (intro conjI run(5) a1 a2 a4)
  qed
  then show "count_list (snd ?B) Ev_Step = nat steps" "samplesOf AngMom (snd ?B) = map V ?hs"
    "samplesOf Energy (snd ?B) = map S ?es"
    "fst ?B = None \<longrightarrow>
        Ev_Record ''angMomentumErr_'' (Signal (statMag (foldl InsertDataV newVector3Stats ?hs)))
          \<in> set (snd ?B) \<and>
        Ev_Record ''energyError_'' (Signal (foldl InsertData newSignalStats ?es)) \<in> set (snd ?B)"
    by blast+
qed

lemma Boxes_angular_count:
  "length (samplesOf AngPos (snd (Boxes sim eng dt mc coll c))) = (if c then 0 else count_list (snd (Boxes sim eng dt mc coll c)) Ev_Step)"
proof (cases rule: Boxes_cases [of sim eng dt mc coll c])
  case noWorld
  show ?thesis
    unfolding noWorld(2) by simp
next
  case (early e T1)
  have "samplesOf AngPos T1 = []" "count_list T1 Ev_Step = 0"
    using noMeasurement_obs [OF early(2), of AngPos] by (simp_all add: count_list_0_iff)
  then show ?thesis
    unfolding early(1) by simp
next
  case (mismatch T1 l v av moi E t0 p H k e)
  let ?L = "take k [Ev_WorldCoGLinearVel l v, Ev_WorldAngularVel l av, Ev_MOI l moi,
                    Ev_GetWorldEnergy l E, Ev_SimTime t0, Ev_WorldInertialPose l p,
                    Ev_WorldAngularMomentum l H]"
  have o1: "samplesOf AngPos T1 = []" "count_list T1 Ev_Step = 0"
    using noMeasurement_obs [OF mismatch(2), of AngPos] by (simp_all add: count_list_0_iff)
  have o2: "samplesOf AngPos ?L = []" "count_list ?L Ev_Step = 0"
    using obs_checks(5) [of AngPos k l v av moi E t0 p H] obs_checks(6) [of k l v av moi E t0 p H]
    by (simp_all add: count_list_0_iff)
  have tr: "snd (Boxes sim eng dt mc coll c) = [Ev_Load True] @ T1 @ ?L"
    by (simp add: mismatch(1))
  show ?thesis
    unfolding tr obs_append count_list_append o1 o2 by simp
next
  case (stepped T1 l E t0 p T3)
  let ?L = "[Ev_WorldCoGLinearVel l (v0 c), Ev_WorldAngularVel l (w0 c), Ev_MOI l I0,
            Ev_GetWorldEnergy l E, Ev_SimTime t0, Ev_WorldInertialPose l p,
            Ev_WorldAngularMomentum l (vmul (Vec Ixx Iyy Izz) (w0 c))]"
  have o1: "samplesOf AngPos T1 = []" "count_list T1 Ev_Step = 0"
    using noMeasurement_obs [OF stepped(2), of AngPos] by (simp_all add: count_list_0_iff)
  have tr: "snd (Boxes sim eng dt mc coll c) = [Ev_Load True] @ T1 @ ?L @ T3"
    by (simp add: stepped(1))
  show ?thesis
    unfolding tr obs_append count_list_append o1 using stepped(12) by simp
qed

lemma Boxes_angular_run:
  fixes sim :: "'w simulator"
  assumes "Load sim ''worlds/blank.world'' eng = Some w"
    and "initialise sim eng mc coll False \<lparr>world = w, trace = [Ev_Load True]\<rparr> = (Inr (g, Some l), s1)"
    and "WorldCoGLinearVel sim l (world s1) = v0 False"
    and "WorldAngularVel sim l (world s1) = w0 False"
    and "MOI sim l (world s1) = I0"
    and "\<bar>GetWorldEnergy sim l (world s1) - E0 False\<bar> \<le> 0.000001"
    and "WorldAngularMomentum sim l (world s1) = vmul (Vec Ixx Iyy Izz) (w0 False)"
    and "stepCount dt \<noteq> None"
  shows "count_list (snd (Boxes sim eng dt mc coll False)) Ev_Step = nat \<lceil>simDuration / dt\<rceil> \<and>
      samplesOf AngPos (snd (Boxes sim eng dt mc coll False)) =
        map (\<lambda>i. let wi = worldAtStep sim dt (world s1) i;
                      t = SimTime sim wi - SimTime sim (world s1)
                  in V (vsub (Euler sim (Rot (WorldInertialPose sim l wi)))
                         (Euler sim (rotationAbout (vdiv (w0 False) (Length (w0 False)))
                                                    (Length (w0 False) * t)))))
            [0..<nat \<lceil>simDuration / dt\<rceil>]"
proof -
  let ?B = "Boxes sim eng dt mc coll False"
  let ?H0 = "WorldAngularMomentum sim l (world s1)"
  let ?b = "\<lparr>b_g = g, b_t0 = SimTime sim (world s1), b_p0 = Pos (WorldInertialPose sim l (world s1)),
        b_H0 = ?H0, b_H0mag = Length ?H0\<rparr>"
  obtain steps where sc: "stepCount dt = Some steps"
    using assms(8) by blast
  have st: "steps = \<lceil>simDuration / dt\<rceil>"
    using sc by (rule stepCount_Some)
  show ?thesis
  proof (rule Boxes_stepping_run [OF assms(1-7) sc])
    fix s2 acc sL
    assume run:
      "world s2 = snd (GetWallTime sim (SetRealTimeUpdateRate sim 0 (SetMaxStepSize sim dt (world s1))))"
      "\<And>k. samplesOf k (trace s2) = []"
      "stepLoop sim False l ?b (nat steps) newErrorStats s2 = (Inr acc, sL)"
      "\<And>k. samplesOf k (snd ?B) = samplesOf k (trace sL)"
      "count_list (snd ?B) Ev_Step = nat steps"
    note loop = stepLoop_angular_samples [of sim l ?b "nat steps" newErrorStats s2]
    have a1: "samplesOf AngPos (snd ?B) =
        map (\<lambda>i. let wi = worldAtStep sim dt (world s1) i;
                      t = SimTime sim wi - SimTime sim (world s1)
                  in V (vsub (Euler sim (Rot (WorldInertialPose sim l wi)))
                         (Euler sim (rotationAbout (vdiv (w0 False) (Length (w0 False)))
                                                    (Length (w0 False) * t)))))
            [0..<nat steps]"
      using loop unfolding run(3) snd_conv run(1) run(2) worldAtStep_eq
      by (simp add: run(4))
    show ?thesis
      unfolding st [symmetric]
      by (intro conjI run(5) a1)
  qed
qed

lemma energy_queried:
  "Ev_GetWorldEnergy l E \<in> set T \<Longrightarrow> l \<in> set (queriedLinks T)"
  by (induction T) auto

lemma energy_not_queried:
  "queriedLinks T = [] \<Longrightarrow> Ev_GetWorldEnergy l E \<notin> set T"
  using energy_queried [of l E T] by auto

lemmas energy_defs = analyticEnergy_def translationalEnergy_def rotationalEnergy_def
  potentialEnergy_def boxInertia_def box_consts v0_def w0_def E0_def dot_def vmul_def
  power2_eq_square spawnPosition_def

section \<open>The error samples of a run\<close>

text \<open>
  C1. Let the world be loaded, the spawn loop return the link \<open>l\<close> in the state \<open>s1\<close>, the
  readings of the initial conditions in that state pass their assertions, and the step
  count be defined. Then the run makes \<open>N = ceil(10 / dt)\<close> steps and inserts exactly one
  angular-momentum sample and one energy sample for each: for step \<open>i\<close> the reported
  angular momentum minus \<open>H0\<close>, componentwise, divided by the length of \<open>H0\<close>, and
  (reported energy - E0) / E0. \<open>H0\<close> is the angular momentum read in \<open>s1\<close>, before any
  step, and \<open>E0\<close> the constant of the scenario: no sample refers to an earlier step. A
  run that passes records the accumulators, which are the fold of the insertion over
  exactly these samples, so the statistics are the maxima of their absolute values.
\<close>

theorem conserved_quantity_error_samples:
  fixes sim :: "'w simulator"
  assumes "Load sim ''worlds/blank.world'' eng = Some w"
    and "initialise sim eng mc coll c \<lparr>world = w, trace = [Ev_Load True]\<rparr> = (Inr (g, Some l), s1)"
    and "WorldCoGLinearVel sim l (world s1) = v0 c"
    and "WorldAngularVel sim l (world s1) = w0 c"
    and "MOI sim l (world s1) = I0"
    and "\<bar>GetWorldEnergy sim l (world s1) - E0 c\<bar> \<le> 0.000001"
    and "WorldAngularMomentum sim l (world s1) = vmul (Vec Ixx Iyy Izz) (w0 c)"
    and "stepCount dt \<noteq> None"
  shows "let tr = snd (Boxes sim eng dt mc coll c);
             N = nat \<lceil>simDuration / dt\<rceil>;
             H0 = WorldAngularMomentum sim l (world s1);
             hs = map (\<lambda>i. vdiv (vsub (WorldAngularMomentum sim l (worldAtStep sim dt (world s1) i)) H0)
                              (Length H0)) [0..<N];
             es = map (\<lambda>i. (GetWorldEnergy sim l (worldAtStep sim dt (world s1) i) - E0 c) / E0 c)
                      [0..<N]
         in count_list tr Ev_Step = N \<and>
            samplesOf AngMom tr = map V hs \<and>
            samplesOf Energy tr = map S es \<and>
            (fst (Boxes sim eng dt mc coll c) = None \<longrightarrow>
               Ev_Record ''angMomentumErr_'' (Signal (statMag (foldl InsertDataV newVector3Stats hs)))
                 \<in> set tr \<and>
               Ev_Record ''energyError_'' (Signal (foldl InsertData newSignalStats es)) \<in> set tr) \<and>
            maxAbs (statMag (foldl InsertDataV newVector3Stats hs)) = Max (insert 0 (Length ` set hs)) \<and>
            maxAbs (foldl InsertData newSignalStats es) = Max (insert 0 (abs ` set es))"
proof -
  obtain steps where sc: "stepCount dt = Some steps"
    using assms(8) by blast
  have st: "steps = \<lceil>simDuration / dt\<rceil>"
    using sc by (rule stepCount_Some)
  show ?thesis
    unfolding Let_def st [symmetric]
    by (intro conjI Boxes_conserved_run [OF assms(1-7) sc] maxAbs_vector_fold maxAbs_signal_fold)
qed

theorem conserved_quantity_error_samples_witness:
  "count_list (snd (Boxes (testSim 1 (E0 False)) ''ode'' 5 1 True False)) Ev_Step = 2 \<and>
   samplesOf AngMom (snd (Boxes (testSim 1 (E0 False)) ''ode'' 5 1 True False)) =
     [V (Vec 0 0 0), V (Vec 0 0 0)] \<and>
   samplesOf Energy (snd (Boxes (testSim 1 (E0 False)) ''ode'' 5 1 True False)) = [S 0, S 0]"
proof -
  let ?sim = "testSim 1 (E0 False)"
  let ?W = "\<lparr>tw_engine = ''ode'', tw_gravity = Vec 0 0 (-9.8), tw_time = 0,
                tw_maxStep = 0.001, tw_count = 0, tw_names = 0, tw_clock = 0,
                tw_position = (\<lambda>l. Zero), tw_linearVel = (\<lambda>l. Zero),
                tw_angularVel = (\<lambda>l. Zero)\<rparr>"
  let ?I = "initialise ?sim ''ode'' 1 True False \<lparr>world = ?W, trace = [Ev_Load True]\<rparr>"
  define s1 where "s1 = snd ?I"
  have h1: "Load ?sim ''worlds/blank.world'' ''ode'' = Some ?W"
    by (rule testRun_ready)
  have "fst ?I = Inr (Zero, Some 0)"
    by (simp add: run_defs)
  then have h2: "?I = (Inr (Zero, Some 0), s1)"
    by (simp add: prod_eq_iff s1_def)
  have h3: "WorldCoGLinearVel ?sim 0 (world s1) = v0 False"
    by (simp add: s1_def run_defs)
  have h4: "WorldAngularVel ?sim 0 (world s1) = w0 False"
    by (simp add: s1_def run_defs)
  have h5: "MOI ?sim 0 (world s1) = I0"
    by (simp add: s1_def run_defs)
  have h6: "\<bar>GetWorldEnergy ?sim 0 (world s1) - E0 False\<bar> \<le> 0.000001"
    by (simp add: s1_def run_defs)
  have h7: "WorldAngularMomentum ?sim 0 (world s1) = vmul (Vec Ixx Iyy Izz) (w0 False)"
    by (simp add: s1_def run_defs)
  have h8: "stepCount 5 \<noteq> None"
    by (simp add: stepCount_def simDuration_def)
  have n: "nat \<lceil>simDuration / 5\<rceil> = 2"
    by (simp add: simDuration_def)
  have av: "WorldAngularMomentum ?sim 0 (worldAtStep ?sim 5 (world s1) i) =
      vmul (Vec Ixx Iyy Izz) (w0 False)" for i
    using h4 by (induction i) (simp_all add: worldAtStep_def loopStart_def testSim_sel)
  show ?thesis
    using conserved_quantity_error_samples [OF h1 h2 h3 h4 h5 h6 h7 h8]
    unfolding Let_def n av h7
    by (simp add: testSim_sel vsub_def vdiv_def eval_nat_numeral)
qed

text \<open>
  C2. Under the same conditions, with \<open>t\<close> the simulated time read after step \<open>i\<close> minus
  the time read in \<open>s1\<close>, the run inserts for each of its \<open>N\<close> steps the reported linear
  velocity minus \<open>v0 + g t\<close> and the reported position minus \<open>p0 + v0 t + g t\<^sup>2 / 2\<close>.
  Here \<open>v0\<close> is the constant of the scenario, \<open>g\<close> the gravity read by line 51 before the
  boxes were spawned, and \<open>p0\<close> the position read in \<open>s1\<close>, before any step.
\<close>

theorem linear_motion_error_samples:
  fixes sim :: "'w simulator"
  assumes "Load sim ''worlds/blank.world'' eng = Some w"
    and "initialise sim eng mc coll c \<lparr>world = w, trace = [Ev_Load True]\<rparr> = (Inr (g, Some l), s1)"
    and "WorldCoGLinearVel sim l (world s1) = v0 c"
    and "WorldAngularVel sim l (world s1) = w0 c"
    and "MOI sim l (world s1) = I0"
    and "\<bar>GetWorldEnergy sim l (world s1) - E0 c\<bar> \<le> 0.000001"
    and "WorldAngularMomentum sim l (world s1) = vmul (Vec Ixx Iyy Izz) (w0 c)"
    and "stepCount dt \<noteq> None"
  shows "let tr = snd (Boxes sim eng dt mc coll c);
             N = nat \<lceil>simDuration / dt\<rceil>;
             t0 = SimTime sim (world s1);
             p0 = Pos (WorldInertialPose sim l (world s1))
         in g = Gravity sim (if c then w else SetGravity sim Zero w) \<and>
            count_list tr Ev_Step = N \<and>
            samplesOf LinVel tr =
              map (\<lambda>i. let wi = worldAtStep sim dt (world s1) i; t = SimTime sim wi - t0
                        in V (vsub (WorldCoGLinearVel sim l wi) (vadd (v0 c) (vscale g t))))
                  [0..<N] \<and>
            samplesOf LinPos tr =
              map (\<lambda>i. let wi = worldAtStep sim dt (world s1) i; t = SimTime sim wi - t0
                        in V (vsub (Pos (WorldInertialPose sim l wi))
                               (vadd (vadd p0 (vscale (v0 c) t)) (sscale (1/2) (vscale g (t\<^sup>2))))))
                  [0..<N]"
proof -
  let ?B = "Boxes sim eng dt mc coll c"
  let ?H0 = "WorldAngularMomentum sim l (world s1)"
  let ?b = "\<lparr>b_g = g, b_t0 = SimTime sim (world s1), b_p0 = Pos (WorldInertialPose sim l (world s1)),
        b_H0 = ?H0, b_H0mag = Length ?H0\<rparr>"
  obtain steps where sc: "stepCount dt = Some steps"
    using assms(8) by blast
  have st: "steps = \<lceil>simDuration / dt\<rceil>"
    using sc by (rule stepCount_Some)
  show ?thesis
  proof (rule Boxes_stepping_run [OF assms(1-7) sc])
    fix s2 acc sL
    assume run:
      "world s2 = snd (GetWallTime sim (SetRealTimeUpdateRate sim 0 (SetMaxStepSize sim dt (world s1))))"
      "\<And>k. samplesOf k (trace s2) = []"
      "stepLoop sim c l ?b (nat steps) newErrorStats s2 = (Inr acc, sL)"
      "\<And>k. samplesOf k (snd ?B) = samplesOf k (trace sL)"
      "count_list (snd ?B) Ev_Step = nat steps"
      "g = Gravity sim (if c then w else SetGravity sim Zero w)"
    note loop = stepLoop_linear_samples [of sim c l ?b "nat steps" newErrorStats s2]
    have a1: "samplesOf LinVel (snd ?B) =
        map (\<lambda>i. let wi = worldAtStep sim dt (world s1) i; t = SimTime sim wi - SimTime sim (world s1)
                  in V (vsub (WorldCoGLinearVel sim l wi) (vadd (v0 c) (vscale g t))))
            [0..<nat steps]"
      using loop unfolding run(3) snd_conv run(1) run(2) worldAtStep_eq
      by (simp add: run(4))
    have a2: "samplesOf LinPos (snd ?B) =
        map (\<lambda>i. let wi = worldAtStep sim dt (world s1) i; t = SimTime sim wi - SimTime sim (world s1)
                  in V (vsub (Pos (WorldInertialPose sim l wi))
                         (vadd (vadd (Pos (WorldInertialPose sim l (world s1))) (vscale (v0 c) t))
                               (sscale (1/2) (vscale g (t\<^sup>2))))))
            [0..<nat steps]"
      using loop unfolding run(3) snd_conv run(1) run(2) worldAtStep_eq
      by (simp add: run(4))
    show ?thesis
      unfolding st [symmetric] Let_def
      by (intro conjI run(6) run(5) a1 [unfolded Let_def] a2 [unfolded Let_def])
  qed
qed

theorem linear_motion_error_samples_witness:
  "count_list (snd (Boxes (testSim 1 (E0 False)) ''ode'' 5 1 True False)) Ev_Step = 2 \<and>
   samplesOf LinVel (snd (Boxes (testSim 1 (E0 False)) ''ode'' 5 1 True False)) =
     [V (Vec 0 0 0), V (Vec 0 0 0)] \<and>
   samplesOf LinPos (snd (Boxes (testSim 1 (E0 False)) ''ode'' 5 1 True False)) =
     [V (Vec 0 0 0), V (Vec 0 0 0)]"
proof -
  let ?sim = "testSim 1 (E0 False)"
  let ?W = "\<lparr>tw_engine = ''ode'', tw_gravity = Vec 0 0 (-9.8), tw_time = 0,
                tw_maxStep = 0.001, tw_count = 0, tw_names = 0, tw_clock = 0,
                tw_position = (\<lambda>l. Zero), tw_linearVel = (\<lambda>l. Zero),
                tw_angularVel = (\<lambda>l. Zero)\<rparr>"
  let ?I = "initialise ?sim ''ode'' 1 True False \<lparr>world = ?W, trace = [Ev_Load True]\<rparr>"
  define s1 where "s1 = snd ?I"
  have h1: "Load ?sim ''worlds/blank.world'' ''ode'' = Some ?W"
    by (rule testRun_ready)
  have "fst ?I = Inr (Zero, Some 0)"
    by (simp add: run_defs)
  then have h2: "?I = (Inr (Zero, Some 0), s1)"
    by (simp add: prod_eq_iff s1_def)
  have h3: "WorldCoGLinearVel ?sim 0 (world s1) = v0 False"
    by (simp add: s1_def run_defs)
  have h4: "WorldAngularVel ?sim 0 (world s1) = w0 False"
    by (simp add: s1_def run_defs)
  have h5: "MOI ?sim 0 (world s1) = I0"
    by (simp add: s1_def run_defs)
  have h6: "\<bar>GetWorldEnergy ?sim 0 (world s1) - E0 False\<bar> \<le> 0.000001"
    by (simp add: s1_def run_defs)
  have h7: "WorldAngularMomentum ?sim 0 (world s1) = vmul (Vec Ixx Iyy Izz) (w0 False)"
    by (simp add: s1_def run_defs)
  have h8: "stepCount 5 \<noteq> None"
    by (simp add: stepCount_def simDuration_def)
  have n: "nat \<lceil>simDuration / 5\<rceil> = 2"
    by (simp add: simDuration_def)
  have w1: "tw_gravity (world s1) = Zero" "tw_linearVel (world s1) 0 = v0 False"
    "tw_position (world s1) 0 = Zero" "tw_time (world s1) = 0"
    by (simp_all add: s1_def run_defs spawnPosition_def)
  have wi: "tw_gravity (worldAtStep ?sim 5 (world s1) i) = Zero \<and>
      tw_linearVel (worldAtStep ?sim 5 (world s1) i) 0 = v0 False \<and>
      tw_position (worldAtStep ?sim 5 (world s1) i) 0 = Zero" for i
    using w1 by (induction i) (simp_all add: worldAtStep_def loopStart_def testSim_sel)
  show ?thesis
    using linear_motion_error_samples [OF h1 h2 h3 h4 h5 h6 h7 h8]
    unfolding Let_def n
    by (simp add: testSim_sel wi w1 vec_ops Zero_def eval_nat_numeral)
qed

text \<open>
  C6. A run inserts as many angular-position samples as it makes steps when the flag
  \<open>complex\<close> is false, and none when it is true. In the simple scenario, when the world
  is loaded, the spawn loop returns the link \<open>l\<close> in the state \<open>s1\<close>, the readings of the
  initial conditions in that state pass and the step count is defined, the run makes
  \<open>N = ceil(10 / dt)\<close> steps, and the sample of step \<open>i\<close> is the Euler angles of the
  reported orientation minus the Euler angles of the rotation by the angle \<open>|w0| t\<close> about
  the axis \<open>w0 / |w0|\<close>, with \<open>t\<close> the simulated time read after the step minus the time
  read in \<open>s1\<close>. That rotation is the quaternion built at line 226 from \<open>w0 t\<close>.
\<close>

theorem angular_position_error_samples:
  fixes sim :: "'w simulator"
  shows "length (samplesOf AngPos (snd (Boxes sim eng dt mc coll c))) =
     (if c then 0 else count_list (snd (Boxes sim eng dt mc coll c)) Ev_Step) \<and>
   samplesOf AngPos (snd (Boxes sim eng dt mc coll True)) = [] \<and>
   (Load sim ''worlds/blank.world'' eng = Some w \<and>
    initialise sim eng mc coll False \<lparr>world = w, trace = [Ev_Load True]\<rparr> = (Inr (g, Some l), s1) \<and>
    WorldCoGLinearVel sim l (world s1) = v0 False \<and>
    WorldAngularVel sim l (world s1) = w0 False \<and>
    MOI sim l (world s1) = I0 \<and>
    \<bar>GetWorldEnergy sim l (world s1) - E0 False\<bar> \<le> 0.000001 \<and>
    WorldAngularMomentum sim l (world s1) = vmul (Vec Ixx Iyy Izz) (w0 False) \<and>
    stepCount dt \<noteq> None \<longrightarrow>
      count_list (snd (Boxes sim eng dt mc coll False)) Ev_Step = nat \<lceil>simDuration / dt\<rceil> \<and>
      samplesOf AngPos (snd (Boxes sim eng dt mc coll False)) =
        map (\<lambda>i. let wi = worldAtStep sim dt (world s1) i;
                      t = SimTime sim wi - SimTime sim (world s1)
                  in V (vsub (Euler sim (Rot (WorldInertialPose sim l wi)))
                         (Euler sim (rotationAbout (vdiv (w0 False) (Length (w0 False)))
                                                    (Length (w0 False) * t)))))
            [0..<nat \<lceil>simDuration / dt\<rceil>])"
proof (intro conjI impI)
  show "length (samplesOf AngPos (snd (Boxes sim eng dt mc coll c))) =
     (if c then 0 else count_list (snd (Boxes sim eng dt mc coll c)) Ev_Step)"
    by (rule Boxes_angular_count)
  show "samplesOf AngPos (snd (Boxes sim eng dt mc coll True)) = []"
    using Boxes_angular_count [of sim eng dt mc coll True] by simp
next
  assume h: "Load sim ''worlds/blank.world'' eng = Some w \<and>
    initialise sim eng mc coll False \<lparr>world = w, trace = [Ev_Load True]\<rparr> = (Inr (g, Some l), s1) \<and>
    WorldCoGLinearVel sim l (world s1) = v0 False \<and>
    WorldAngularVel sim l (world s1) = w0 False \<and>
    MOI sim l (world s1) = I0 \<and>
    \<bar>GetWorldEnergy sim l (world s1) - E0 False\<bar> \<le> 0.000001 \<and>
    WorldAngularMomentum sim l (world s1) = vmul (Vec Ixx Iyy Izz) (w0 False) \<and>
    stepCount dt \<noteq> None"
  note r = Boxes_angular_run [of sim eng w mc coll g l s1 dt]
  show "count_list (snd (Boxes sim eng dt mc coll False)) Ev_Step = nat \<lceil>simDuration / dt\<rceil>"
    using r h by blast
  show "samplesOf AngPos (snd (Boxes sim eng dt mc coll False)) =
        map (\<lambda>i. let wi = worldAtStep sim dt (world s1) i;
                      t = SimTime sim wi - SimTime sim (world s1)
                  in V (vsub (Euler sim (Rot (WorldInertialPose sim l wi)))
                         (Euler sim (rotationAbout (vdiv (w0 False) (Length (w0 False)))
                                                    (Length (w0 False) * t)))))
            [0..<nat \<lceil>simDuration / dt\<rceil>]"
    using r h by blast
qed

theorem angular_position_error_samples_witness:
  "count_list (snd (Boxes (testSim 1 (E0 False)) ''ode'' 5 1 True False)) Ev_Step = 2 \<and>
   samplesOf AngPos (snd (Boxes (testSim 1 (E0 False)) ''ode'' 5 1 True False)) =
     [V (Vec 0 0 0), V (Vec 0 0 0)]"
proof -
  let ?sim = "testSim 1 (E0 False)"
  let ?W = "\<lparr>tw_engine = ''ode'', tw_gravity = Vec 0 0 (-9.8), tw_time = 0,
                tw_maxStep = 0.001, tw_count = 0, tw_names = 0, tw_clock = 0,
                tw_position = (\<lambda>l. Zero), tw_linearVel = (\<lambda>l. Zero),
                tw_angularVel = (\<lambda>l. Zero)\<rparr>"
  let ?I = "initialise ?sim ''ode'' 1 True False \<lparr>world = ?W, trace = [Ev_Load True]\<rparr>"
  define s1 where "s1 = snd ?I"
  have h1: "Load ?sim ''worlds/blank.world'' ''ode'' = Some ?W"
    by (rule testRun_ready)
  have "fst ?I = Inr (Zero, Some 0)"
    by (simp add: run_defs)
  then have h2: "?I = (Inr (Zero, Some 0), s1)"
    by (simp add: prod_eq_iff s1_def)
  have h3: "WorldCoGLinearVel ?sim 0 (world s1) = v0 False"
    by (simp add: s1_def run_defs)
  have h4: "WorldAngularVel ?sim 0 (world s1) = w0 False"
    by (simp add: s1_def run_defs)
  have h5: "MOI ?sim 0 (world s1) = I0"
    by (simp add: s1_def run_defs)
  have h6: "\<bar>GetWorldEnergy ?sim 0 (world s1) - E0 False\<bar> \<le> 0.000001"
    by (simp add: s1_def run_defs)
  have h7: "WorldAngularMomentum ?sim 0 (world s1) = vmul (Vec Ixx Iyy Izz) (w0 False)"
    by (simp add: s1_def run_defs)
  have h8: "stepCount 5 \<noteq> None"
    by (simp add: stepCount_def simDuration_def)
  have n: "nat \<lceil>simDuration / 5\<rceil> = 2"
    by (simp add: simDuration_def)
  have t0: "tw_time (world s1) = 0"
    by (simp add: s1_def run_defs)
  have av: "tw_angularVel (worldAtStep ?sim 5 (world s1) i) 0 = w0 False" for i
    using h4 by (induction i) (simp_all add: worldAtStep_def loopStart_def testSim_sel)
  show ?thesis
    using angular_position_error_samples [of ?sim "''ode''" 5 1 True False ?W Zero 0 s1]
      h1 h2 h3 h4 h5 h6 h7 h8
    unfolding Let_def n
    by (simp add: testSim_sel av t0 Quaterniond_rotation vsub_def eval_nat_numeral)
qed

section \<open>The energy baseline of the complex scenario\<close>

text \<open>
  C5 (as amended). In the complex scenario the baseline \<open>E0\<close> of the test is the
  hard-coded 368.54641249999997. The translational plus rotational kinetic energy of
  the box, plus the potential term at its spawn height (zero for every loop index, so
  the term vanishes for every gravity), is 368.546416625: the baseline equals it to
  within 5e-6, with the hard-coded inertia diagonal as well as with the inertia of the
  uniform-density formulas, and not to within 1e-6. The test does not compute this
  energy: before the first step it reads the energy the simulator reports, and the run
  ends with the failure of the energy assertion exactly when that reading is more than
  1e-6 from \<open>E0\<close>.
\<close>

theorem complex_energy_baseline:
  fixes sim :: "'w simulator"
  shows "E0 True = 368.54641249999997 \<and>
   analyticEnergy mass (Vec Ixx Iyy Izz) (v0 True) (w0 True) g (Z (spawnPosition i)) =
     368.546416625 \<and>
   \<bar>analyticEnergy mass (Vec Ixx Iyy Izz) (v0 True) (w0 True) g (Z (spawnPosition i))
      - E0 True\<bar> \<le> 0.000005 \<and>
   \<bar>analyticEnergy mass (boxInertia mass (Vec dx dy dz)) (v0 True) (w0 True) g
      (Z (spawnPosition i)) - E0 True\<bar> \<le> 0.000005 \<and>
   0.000001 < \<bar>analyticEnergy mass (Vec Ixx Iyy Izz) (v0 True) (w0 True) g (Z (spawnPosition i))
                - E0 True\<bar> \<and>
   (\<forall>l E. Ev_GetWorldEnergy l E \<in> set (beforeStepping (snd (Boxes sim eng dt mc coll True))) \<longrightarrow>
      (fst (Boxes sim eng dt mc coll True) = Some EnergyMismatch \<longleftrightarrow>
         \<not> \<bar>E - E0 True\<bar> \<le> 0.000001))"
proof -
  have run: "\<forall>l E. Ev_GetWorldEnergy l E \<in> set (beforeStepping (snd (Boxes sim eng dt mc coll True))) \<longrightarrow>
      (fst (Boxes sim eng dt mc coll True) = Some EnergyMismatch \<longleftrightarrow>
         \<not> ASSERT_NEAR E (E0 True) 0.000001)"
  proof (cases rule: Boxes_cases [of sim eng dt mc coll True])
    case noWorld
    show ?thesis
      unfolding noWorld(2) by (simp add: beforeStepping_def)
  next
    case (early e T1)
    have ns: "Ev_Step \<notin> set (Ev_Load True # T1)"
      using noMeasurement_obs [OF early(2), of AngPos] by simp
    have q1: "queriedLinks T1 = []"
      using early(2) by (simp add: noMeasurement_obs)
    show ?thesis
      unfolding early(1) fst_conv snd_conv beforeStepping_noStep [OF ns]
      using energy_not_queried [OF q1] by simp
  next
    case (mismatch T1 l v av moi E t0 p H k e)
    let ?L = "take k [Ev_WorldCoGLinearVel l v, Ev_WorldAngularVel l av, Ev_MOI l moi,
                      Ev_GetWorldEnergy l E, Ev_SimTime t0, Ev_WorldInertialPose l p,
                      Ev_WorldAngularMomentum l H]"
    have ns: "Ev_Step \<notin> set (Ev_Load True # T1 @ ?L)"
      using noMeasurement_obs [OF mismatch(2), of AngPos] obs_checks(6) [of k l v av moi E t0 p H]
      by simp
    have q1: "queriedLinks T1 = []"
      using mismatch(2) by (simp add: noMeasurement_obs)
    show ?thesis
      unfolding mismatch(1) fst_conv snd_conv beforeStepping_noStep [OF ns]
      using energy_not_queried [OF q1] mismatch(8)
      by (elim disjE conjE) (simp_all del: take_Cons_numeral add: take_Cons')
  next
    case (stepped T1 l E t0 p T3)
    let ?B = "Boxes sim eng dt mc coll True"
    let ?L = "[Ev_WorldCoGLinearVel l (v0 True), Ev_WorldAngularVel l (w0 True), Ev_MOI l I0,
              Ev_GetWorldEnergy l E, Ev_SimTime t0, Ev_WorldInertialPose l p,
              Ev_WorldAngularMomentum l (vmul (Vec Ixx Iyy Izz) (w0 True))]"
    let ?W = "takeWhile (\<lambda>e. e \<noteq> Ev_Step) T3"
    have ns: "Ev_Step \<notin> set ((Ev_Load True # T1) @ ?L)"
      using noMeasurement_obs [OF stepped(2), of AngPos] by simp
    have q1: "queriedLinks T1 = []"
      using stepped(2) by (simp add: noMeasurement_obs)
    have tr: "snd ?B = ((Ev_Load True # T1) @ ?L) @ T3"
      by (simp add: stepped(1))
    have pre: "beforeStepping (snd ?B) = ((Ev_Load True # T1) @ ?L) @ ?W"
      unfolding tr by (rule beforeStepping_append [OF ns])
    have v: "fst ?B \<noteq> Some EnergyMismatch"
      using stepped(14) by auto
    show ?thesis
      unfolding pre using v energy_not_queried [OF q1] energy_not_queried [OF stepped(11)] stepped(8)
      by simp
  qed
  have num: "E0 True = 368.54641249999997"
    "analyticEnergy mass (Vec Ixx Iyy Izz) (v0 True) (w0 True) g (Z (spawnPosition i)) =
       368.546416625"
    "\<bar>analyticEnergy mass (Vec Ixx Iyy Izz) (v0 True) (w0 True) g (Z (spawnPosition i))
      - E0 True\<bar> \<le> 0.000005"
    "\<bar>analyticEnergy mass (boxInertia mass (Vec dx dy dz)) (v0 True) (w0 True) g
      (Z (spawnPosition i)) - E0 True\<bar> \<le> 0.000005"
    "0.000001 < \<bar>analyticEnergy mass (Vec Ixx Iyy Izz) (v0 True) (w0 True) g (Z (spawnPosition i))
                - E0 True\<bar>"
    by (simp_all add: energy_defs)
  show ?thesis
    using run unfolding ASSERT_NEAR_def by (intro conjI num)
qed

text \<open>
  The claim C5 as stated fails: with gravity 9.8 and the box of loop index 0, whose
  spawn height is zero, the translational plus rotational kinetic energy plus the
  potential term is 368.546416625, which is more than 1e-6 from 368.54641249999997.
\<close>

theorem complex_energy_tolerance_counterexample:
  "analyticEnergy mass (Vec Ixx Iyy Izz) (v0 True) (w0 True) 9.8 (Z (spawnPosition 0)) =
     368.546416625 \<and>
   \<not> \<bar>analyticEnergy mass (Vec Ixx Iyy Izz) (v0 True) (w0 True) 9.8 (Z (spawnPosition 0))
        - 368.54641249999997\<bar> \<le> 0.000001"
  by (simp add: energy_defs)

theorem complex_energy_baseline_witness:
  "Ev_GetWorldEnergy 0 368.546416625
     \<in> set (beforeStepping (snd (Boxes (testSim 1 368.546416625) ''ode'' 10 1 True True))) \<and>
   \<not> \<bar>368.546416625 - E0 True\<bar> \<le> 0.000001 \<and>
   fst (Boxes (testSim 1 368.546416625) ''ode'' 10 1 True True) = Some EnergyMismatch \<and>
   Ev_GetWorldEnergy 0 (E0 True)
     \<in> set (beforeStepping (snd (Boxes (testSim 1 (E0 True)) ''ode'' 10 1 True True))) \<and>
   fst (Boxes (testSim 1 (E0 True)) ''ode'' 10 1 True True) \<noteq> Some EnergyMismatch"
proof -
  let ?bad = "Boxes (testSim 1 368.546416625) ''ode'' 10 1 True True"
  let ?good = "Boxes (testSim 1 (E0 True)) ''ode'' 10 1 True True"
  have 1: "Ev_GetWorldEnergy 0 368.546416625 \<in> set (beforeStepping (snd ?bad))"
    by (simp add: run_defs beforeStepping_def)
  have 2: "\<not> \<bar>368.546416625 - E0 True\<bar> \<le> (0.000001 :: real)"
    by (simp add: E0_def)
  have 3: "fst ?bad = Some EnergyMismatch"
    using complex_energy_baseline [of 0 0 "testSim 1 368.546416625" "''ode''" 10 1 True] 1 2
    by blast
  have 4: "Ev_GetWorldEnergy 0 (E0 True) \<in> set (beforeStepping (snd ?good))"
    by (simp add: run_defs beforeStepping_def)
  have 5: "fst ?good \<noteq> Some EnergyMismatch"
    using complex_energy_baseline [of 0 0 "testSim 1 (E0 True)" "''ode''" 10 1 True] 4
    by auto
  show ?thesis
    using 1 2 3 4 5 by blast
qed

section \<open>The checks around the stepping loop\<close>

text \<open>
  C7. In every run, a step is taken only if no assertion before the loop failed. Of the
  readings made before the first step, a linear velocity different from \<open>v0\<close>, an
  angular velocity different from \<open>w0\<close>, an inertia matrix different from \<open>I0\<close> and an
  angular momentum different from the componentwise product of (Ixx, Iyy, Izz) and \<open>w0\<close>
  each end the run with the failure of their assertion, and only they do; a run that
  steps has read all four with exactly the expected values before its first step.
\<close>

theorem initial_conditions_asserted:
  "(Ev_Step \<in> set (snd (Boxes sim eng dt mc coll c)) \<longrightarrow> fst (Boxes sim eng dt mc coll c) = None \<or> fst (Boxes sim eng dt mc coll c) = Some SimTimeMismatch) \<and>
   (\<forall>l v. Ev_WorldCoGLinearVel l v \<in> set (beforeStepping (snd (Boxes sim eng dt mc coll c))) \<longrightarrow>
           (fst (Boxes sim eng dt mc coll c) = Some LinearVelMismatch \<longleftrightarrow> v \<noteq> v0 c)) \<and>
   (\<forall>l w. Ev_WorldAngularVel l w \<in> set (beforeStepping (snd (Boxes sim eng dt mc coll c))) \<longrightarrow>
           (fst (Boxes sim eng dt mc coll c) = Some AngularVelMismatch \<longleftrightarrow> w \<noteq> w0 c)) \<and>
   (\<forall>l m. Ev_MOI l m \<in> set (beforeStepping (snd (Boxes sim eng dt mc coll c))) \<longrightarrow>
           (fst (Boxes sim eng dt mc coll c) = Some InertiaMismatch \<longleftrightarrow> m \<noteq> I0)) \<and>
   (\<forall>l H. Ev_WorldAngularMomentum l H \<in> set (beforeStepping (snd (Boxes sim eng dt mc coll c))) \<longrightarrow>
           (fst (Boxes sim eng dt mc coll c) = Some AngularMomentumMismatch \<longleftrightarrow> H \<noteq> vmul (Vec Ixx Iyy Izz) (w0 c))) \<and>
   (Ev_Step \<in> set (snd (Boxes sim eng dt mc coll c)) \<longrightarrow>
      (\<exists>l. Ev_WorldCoGLinearVel l (v0 c) \<in> set (beforeStepping (snd (Boxes sim eng dt mc coll c))) \<and>
           Ev_WorldAngularVel l (w0 c) \<in> set (beforeStepping (snd (Boxes sim eng dt mc coll c))) \<and>
           Ev_MOI l I0 \<in> set (beforeStepping (snd (Boxes sim eng dt mc coll c))) \<and>
           Ev_WorldAngularMomentum l (vmul (Vec Ixx Iyy Izz) (w0 c))
             \<in> set (beforeStepping (snd (Boxes sim eng dt mc coll c)))))"
proof (cases rule: Boxes_cases [of sim eng dt mc coll c])
  case noWorld
  show ?thesis
    unfolding noWorld(2) by (simp add: beforeStepping_def)
next
  case (early e T1)
  have ns: "Ev_Step \<notin> set (Ev_Load True # T1)"
    using noMeasurement_obs [OF early(2), of AngPos] by simp
  have q1: "queriedLinks T1 = []"
    using early(2) by (simp add: noMeasurement_obs)
  show ?thesis
    unfolding early(1) fst_conv snd_conv beforeStepping_noStep [OF ns]
    using ns not_queried [OF q1] by simp
next
  case (mismatch T1 l v av moi E t0 p H k e)
  let ?L = "take k [Ev_WorldCoGLinearVel l v, Ev_WorldAngularVel l av, Ev_MOI l moi,
                    Ev_GetWorldEnergy l E, Ev_SimTime t0, Ev_WorldInertialPose l p,
                    Ev_WorldAngularMomentum l H]"
  have ns: "Ev_Step \<notin> set (Ev_Load True # T1 @ ?L)"
    using noMeasurement_obs [OF mismatch(2), of AngPos] obs_checks(6) [of k l v av moi E t0 p H]
    by simp
  have q1: "queriedLinks T1 = []"
    using mismatch(2) by (simp add: noMeasurement_obs)
  show ?thesis
    unfolding mismatch(1) fst_conv snd_conv beforeStepping_noStep [OF ns]
    using ns not_queried [OF q1] mismatch(8)
    by (elim disjE conjE) (simp_all del: take_Cons_numeral add: take_Cons')
next
  case (stepped T1 l E t0 p T3)
  let ?B = "Boxes sim eng dt mc coll c"
  let ?L = "[Ev_WorldCoGLinearVel l (v0 c), Ev_WorldAngularVel l (w0 c), Ev_MOI l I0,
            Ev_GetWorldEnergy l E, Ev_SimTime t0, Ev_WorldInertialPose l p,
            Ev_WorldAngularMomentum l (vmul (Vec Ixx Iyy Izz) (w0 c))]"
  let ?W = "takeWhile (\<lambda>e. e \<noteq> Ev_Step) T3"
  have ns: "Ev_Step \<notin> set ((Ev_Load True # T1) @ ?L)"
    using noMeasurement_obs [OF stepped(2), of AngPos] by simp
  have q1: "queriedLinks T1 = []"
    using stepped(2) by (simp add: noMeasurement_obs)
  have tr: "snd ?B = ((Ev_Load True # T1) @ ?L) @ T3"
    by (simp add: stepped(1))
  have pre: "beforeStepping (snd ?B) = ((Ev_Load True # T1) @ ?L) @ ?W"
    unfolding tr by (rule beforeStepping_append [OF ns])
  have v: "fst ?B = Some StepCountUndefined \<and> Ev_Step \<notin> set (snd ?B) \<or>
           fst ?B = Some SimTimeMismatch \<or> fst ?B = None"
    using stepped(14) ns unfolding tr by auto
  show ?thesis
    unfolding pre using v not_queried [OF q1] not_queried [OF stepped(11)]
    by (elim disjE conjE) simp_all
qed

theorem initial_conditions_asserted_witness:
  "Ev_Step \<in> set (snd (Boxes (testSim 1 (E0 False)) ''ode'' 10 1 True False)) \<and>
   (fst (Boxes (testSim 1 (E0 False)) ''ode'' 10 1 True False) = None \<or>
    fst (Boxes (testSim 1 (E0 False)) ''ode'' 10 1 True False) = Some SimTimeMismatch) \<and>
   Ev_WorldAngularVel 0 Zero
     \<in> set (beforeStepping (snd (Boxes ((testSim 1 (E0 False))\<lparr>WorldAngularVel := \<lambda>l w. Zero\<rparr>)
                                   ''ode'' 10 1 True False))) \<and>
   Zero \<noteq> w0 False \<and>
   fst (Boxes ((testSim 1 (E0 False))\<lparr>WorldAngularVel := \<lambda>l w. Zero\<rparr>) ''ode'' 10 1 True False)
     = Some AngularVelMismatch \<and>
   Ev_Step \<notin> set (snd (Boxes ((testSim 1 (E0 False))\<lparr>WorldAngularVel := \<lambda>l w. Zero\<rparr>)
                             ''ode'' 10 1 True False))"
proof -
  let ?bad = "(testSim 1 (E0 False))\<lparr>WorldAngularVel := \<lambda>l w. Zero\<rparr>"
  have 1: "Ev_Step \<in> set (snd (Boxes (testSim 1 (E0 False)) ''ode'' 10 1 True False))"
    by (simp add: run_defs)
  have 2: "Ev_WorldAngularVel 0 Zero \<in> set (beforeStepping (snd (Boxes ?bad ''ode'' 10 1 True False)))"
    by (simp add: run_defs beforeStepping_def)
  have 3: "Zero \<noteq> w0 False"
    by (simp add: Zero_def w0_def)
  have 4: "fst (Boxes ?bad ''ode'' 10 1 True False) = Some AngularVelMismatch"
    using initial_conditions_asserted [of ?bad "''ode''" 10 1 True False] 2 3 by blast
  have 5: "Ev_Step \<notin> set (snd (Boxes ?bad ''ode'' 10 1 True False))"
    using initial_conditions_asserted [of ?bad "''ode''" 10 1 True False] 4 by auto
  show ?thesis
    using initial_conditions_asserted [of "testSim 1 (E0 False)" "''ode''" 10 1 True False] 1 2 3 4 5 by blast
qed

text \<open>
  C8 (as amended). A run that reaches the end of the stepping loop has set the step size
  \<open>dt\<close> and made exactly \<open>ceil(10 / dt)\<close> steps; it passes if and only if the elapsed
  simulated time \<open>T\<close>, the last reading of the simulated time minus the first, satisfies
  \<open>|T - 10| \<le> 1.1 dt\<close>, and then records \<open>T\<close>. The bound is on the distance from the
  requested duration, not from \<open>N dt\<close>. When the simulated time advances by exactly \<open>dt\<close>
  in each step, so that \<open>T = N dt\<close>, the check passes for every \<open>dt > 0\<close>.
\<close>

theorem simulated_duration_checked:
  "(fst (Boxes sim eng dt mc coll c) = None \<or> fst (Boxes sim eng dt mc coll c) = Some SimTimeMismatch \<longrightarrow>
      count_list (snd (Boxes sim eng dt mc coll c)) Ev_Step = nat \<lceil>simDuration / dt\<rceil> \<and>
      Ev_SetMaxStepSize dt \<in> set (snd (Boxes sim eng dt mc coll c)) \<and> simTimes (snd (Boxes sim eng dt mc coll c)) \<noteq> [] \<and>
      (fst (Boxes sim eng dt mc coll c) = None \<longleftrightarrow>
         \<bar>(last (simTimes (snd (Boxes sim eng dt mc coll c))) - hd (simTimes (snd (Boxes sim eng dt mc coll c)))) - simDuration\<bar> \<le> dt * 1.1)) \<and>
   (fst (Boxes sim eng dt mc coll c) = None \<longrightarrow>
      Ev_Record ''simTime'' (Scalar (last (simTimes (snd (Boxes sim eng dt mc coll c))) - hd (simTimes (snd (Boxes sim eng dt mc coll c)))))
        \<in> set (snd (Boxes sim eng dt mc coll c))) \<and>
   (0 < dt \<longrightarrow> \<bar>of_int \<lceil>simDuration / dt\<rceil> * dt - simDuration\<bar> \<le> dt * 1.1)"
proof (cases rule: Boxes_cases [of sim eng dt mc coll c])
  case noWorld
  show ?thesis
    unfolding noWorld(2) using ceiling_steps_imp [of dt] by simp
next
  case (early e T1)
  have "e \<noteq> SimTimeMismatch"
    using early(6) by auto
  then show ?thesis
    unfolding early(1) using ceiling_steps_imp [of dt] by simp
next
  case (mismatch T1 l v av moi E t0 p H k e)
  have "e \<noteq> SimTimeMismatch"
    using mismatch(8) by auto
  then show ?thesis
    unfolding mismatch(1) using ceiling_steps_imp [of dt] by simp
next
  case (stepped T1 l E t0 p T3)
  let ?B = "Boxes sim eng dt mc coll c"
  let ?L = "[Ev_WorldCoGLinearVel l (v0 c), Ev_WorldAngularVel l (w0 c), Ev_MOI l I0,
            Ev_GetWorldEnergy l E, Ev_SimTime t0, Ev_WorldInertialPose l p,
            Ev_WorldAngularMomentum l (vmul (Vec Ixx Iyy Izz) (w0 c))]"
  have tr: "snd ?B = [Ev_Load True] @ T1 @ ?L @ T3"
    by (simp add: stepped(1))
  have o1: "simTimes T1 = []" "count_list T1 Ev_Step = 0"
    using noMeasurement_obs [OF stepped(2), of AngPos] by (simp_all add: count_list_0_iff)
  have st: "simTimes (snd ?B) = t0 # simTimes T3"
    unfolding tr obs_append o1 by simp
  have cnt: "count_list (snd ?B) Ev_Step = count_list T3 Ev_Step"
    unfolding tr using o1(2) by simp
  have mem: "Ev_SetMaxStepSize dt \<in> set (snd ?B)"
    unfolding tr using stepped(13) by simp
  have rec: "x \<in> set T3 \<Longrightarrow> x \<in> set (snd ?B)" for x
    unfolding tr by simp
  have hl: "simTimes T3 \<noteq> [] \<Longrightarrow> last (simTimes (snd ?B)) = last (simTimes T3)"
    "hd (simTimes (snd ?B)) = t0" "simTimes (snd ?B) \<noteq> []"
    unfolding st by simp_all
  show ?thesis
    using stepped(14) rec [of "Ev_Record ''simTime'' (Scalar (last (simTimes T3) - t0))"] ceiling_steps_imp [of dt]
    unfolding cnt ASSERT_NEAR_def
    by (elim disjE conjE) (simp_all add: hl mem)
qed

text \<open>
  The claim C8 as stated fails: with \<open>dt = 3\<close> the run makes four steps; on a simulator
  whose time advances by 7/12 of the step size the elapsed time is 7, the run passes,
  and \<open>|T - N dt| = 5\<close> exceeds \<open>1.1 dt = 3.3\<close>.
\<close>

theorem duration_bound_counterexample:
  "fst (Boxes (testSim (7/12) (E0 False)) ''ode'' 3 1 True False) = None \<and>
   count_list (snd (Boxes (testSim (7/12) (E0 False)) ''ode'' 3 1 True False)) Ev_Step = 4 \<and>
   Ev_Record ''simTime'' (Scalar 7)
     \<in> set (snd (Boxes (testSim (7/12) (E0 False)) ''ode'' 3 1 True False)) \<and>
   nat \<lceil>simDuration / 3\<rceil> = 4 \<and>
   \<not> \<bar>7 - of_int \<lceil>simDuration / 3\<rceil> * 3\<bar> \<le> 1.1 * (3::real)"
  by (simp add: run_defs eval_nat_numeral)

theorem simulated_duration_checked_witness:
  "fst (Boxes (testSim 1 (E0 False)) ''ode'' 5 1 True False) = None \<and>
   count_list (snd (Boxes (testSim 1 (E0 False)) ''ode'' 5 1 True False)) Ev_Step
     = nat \<lceil>simDuration / 5\<rceil> \<and>
   \<bar>(last (simTimes (snd (Boxes (testSim 1 (E0 False)) ''ode'' 5 1 True False))) -
      hd (simTimes (snd (Boxes (testSim 1 (E0 False)) ''ode'' 5 1 True False)))) - simDuration\<bar>
     \<le> 5 * 1.1"
proof -
  have "fst (Boxes (testSim 1 (E0 False)) ''ode'' 5 1 True False) = None"
    by (simp add: run_defs eval_nat_numeral)
  then show ?thesis
    using simulated_duration_checked [of "testSim 1 (E0 False)" "''ode''" 5 1 True False] by blast
qed



text \<open>
  C10. In both scenarios \<open>w0\<close> is not the zero vector, the inertia diagonal is positive,
  the length of the componentwise product of the inertia diagonal and \<open>w0\<close> is positive
  and so is \<open>E0\<close>. A run that takes no step inserts no angular-momentum and no energy
  sample. A run that takes a step has read, before its first step, an angular momentum
  \<open>H0\<close> equal to that product, and each of its angular-momentum samples is a difference
  divided by the positive length of that product, each of its energy samples a
  difference divided by the positive \<open>E0\<close>: no run divides by zero.
\<close>

theorem baselines_nonzero:
  fixes sim :: "'w simulator"
  shows "w0 c \<noteq> Zero \<and> 0 < Ixx \<and> 0 < Iyy \<and> 0 < Izz \<and>
   0 < Length (vmul (Vec Ixx Iyy Izz) (w0 c)) \<and> 0 < E0 c \<and>
   (Ev_Step \<notin> set (snd (Boxes sim eng dt mc coll c)) \<longrightarrow>
      samplesOf AngMom (snd (Boxes sim eng dt mc coll c)) = [] \<and>
      samplesOf Energy (snd (Boxes sim eng dt mc coll c)) = []) \<and>
   (Ev_Step \<in> set (snd (Boxes sim eng dt mc coll c)) \<longrightarrow>
      (\<exists>w g l s1.
         Load sim ''worlds/blank.world'' eng = Some w \<and>
         initialise sim eng mc coll c \<lparr>world = w, trace = [Ev_Load True]\<rparr> = (Inr (g, Some l), s1) \<and>
         WorldAngularMomentum sim l (world s1) = vmul (Vec Ixx Iyy Izz) (w0 c) \<and>
         samplesOf AngMom (snd (Boxes sim eng dt mc coll c)) =
           map (\<lambda>i. V (vdiv (vsub (WorldAngularMomentum sim l (worldAtStep sim dt (world s1) i))
                                  (vmul (Vec Ixx Iyy Izz) (w0 c)))
                            (Length (vmul (Vec Ixx Iyy Izz) (w0 c)))))
               [0..<nat \<lceil>simDuration / dt\<rceil>] \<and>
         samplesOf Energy (snd (Boxes sim eng dt mc coll c)) =
           map (\<lambda>i. S ((GetWorldEnergy sim l (worldAtStep sim dt (world s1) i) - E0 c) / E0 c))
               [0..<nat \<lceil>simDuration / dt\<rceil>]))"
proof -
  let ?B = "Boxes sim eng dt mc coll c"
  have cns: "w0 c \<noteq> Zero" "0 < Ixx" "0 < Iyy" "0 < Izz" "0 < E0 c"
    by (simp_all add: w0_def Zero_def E0_def Ixx_def Iyy_def Izz_def)
  have run: "(Ev_Step \<notin> set (snd ?B) \<longrightarrow>
      samplesOf AngMom (snd ?B) = [] \<and> samplesOf Energy (snd ?B) = []) \<and>
   (Ev_Step \<in> set (snd ?B) \<longrightarrow>
      (\<exists>w g l s1.
         Load sim ''worlds/blank.world'' eng = Some w \<and>
         initialise sim eng mc coll c \<lparr>world = w, trace = [Ev_Load True]\<rparr> = (Inr (g, Some l), s1) \<and>
         WorldAngularMomentum sim l (world s1) = vmul (Vec Ixx Iyy Izz) (w0 c) \<and>
         samplesOf AngMom (snd ?B) =
           map (\<lambda>i. V (vdiv (vsub (WorldAngularMomentum sim l (worldAtStep sim dt (world s1) i))
                                  (vmul (Vec Ixx Iyy Izz) (w0 c)))
                            (Length (vmul (Vec Ixx Iyy Izz) (w0 c)))))
               [0..<nat \<lceil>simDuration / dt\<rceil>] \<and>
         samplesOf Energy (snd ?B) =
           map (\<lambda>i. S ((GetWorldEnergy sim l (worldAtStep sim dt (world s1) i) - E0 c) / E0 c))
               [0..<nat \<lceil>simDuration / dt\<rceil>]))"
  proof (cases rule: Boxes_run_cases [of sim eng dt mc coll c])
    case aborted
    then show ?thesis
      by simp
  next
    case (steps w g l s1 steps)
    have st: "steps = \<lceil>simDuration / dt\<rceil>"
      using steps(8) by (rule stepCount_Some)
    note r = Boxes_conserved_run [OF steps]
    have am: "samplesOf AngMom (snd ?B) =
           map (\<lambda>i. V (vdiv (vsub (WorldAngularMomentum sim l (worldAtStep sim dt (world s1) i))
                                  (vmul (Vec Ixx Iyy Izz) (w0 c)))
                            (Length (vmul (Vec Ixx Iyy Izz) (w0 c)))))
               [0..<nat \<lceil>simDuration / dt\<rceil>]"
      using r(2) unfolding steps(7) st by (simp add: o_def)
    have en: "samplesOf Energy (snd ?B) =
           map (\<lambda>i. S ((GetWorldEnergy sim l (worldAtStep sim dt (world s1) i) - E0 c) / E0 c))
               [0..<nat \<lceil>simDuration / dt\<rceil>]"
      using r(3) unfolding st by (simp add: o_def)
    have none: "Ev_Step \<notin> set (snd ?B) \<longrightarrow>
        samplesOf AngMom (snd ?B) = [] \<and> samplesOf Energy (snd ?B) = []"
    proof
      assume "Ev_Step \<notin> set (snd ?B)"
      then have "nat steps = 0"
        using r(1) by (simp add: count_list_0_iff)
      then show "samplesOf AngMom (snd ?B) = [] \<and> samplesOf Energy (snd ?B) = []"
        using r(2) r(3) by simp
    qed
    show ?thesis
      using none steps(1) steps(2) steps(7) am en by blast
  qed
  show ?thesis
    using cns H0mag_pos [of c] run by (intro conjI) blast+
qed

theorem baselines_nonzero_witness:
  "Ev_Step \<in> set (snd (Boxes (testSim 1 (E0 False)) ''ode'' 5 1 True False)) \<and>
   samplesOf Energy (snd (Boxes (testSim 1 (E0 False)) ''ode'' 5 1 True False)) = [S 0, S 0] \<and>
   Ev_Step \<notin> set (snd (Boxes (testSim 1 0) ''ode'' 5 1 True False)) \<and>
   samplesOf AngMom (snd (Boxes (testSim 1 0) ''ode'' 5 1 True False)) = []"
proof -
  let ?B = "Boxes (testSim 1 (E0 False)) ''ode'' 5 1 True False"
  let ?C = "Boxes (testSim 1 0) ''ode'' 5 1 True False"
  have 1: "Ev_Step \<in> set (snd ?B)"
    by (simp add: run_defs eval_nat_numeral)
  have n: "nat \<lceil>simDuration / 5\<rceil> = 2"
    by (simp add: simDuration_def)
  have 2: "samplesOf Energy (snd ?B) = [S 0, S 0]"
    using baselines_nonzero [of False "testSim 1 (E0 False)" "''ode''" 5 1 True] 1
    unfolding n by (auto simp: testSim_sel eval_nat_numeral)
  have 3: "Ev_Step \<notin> set (snd ?C)"
    by (simp add: run_defs)
  have 4: "samplesOf AngMom (snd ?C) = []"
    using baselines_nonzero [of False "testSim 1 0" "''ode''" 5 1 True] 3 by blast
  show ?thesis
    using 1 2 3 4 by blast
qed

end
